(* ===== verification/Prelude.thy ===== *)
theory Prelude
  imports Main "HOL-Library.Word" "HOL-Library.Sublist"
begin

text \<open>
  Shared vocabulary of the development: the APR status codes the code tests, the C string
  routines the sources call (on NUL-free character lists, which is what a C string holds),
  the character classes of \<open>apr_lib.h\<close>, and the generic list lemmas the component theories
  use. The collections \<open>cstring_defs\<close> and \<open>table_defs\<close> gather the unfolding rules a proof
  about strings or about tables starts from.
\<close>

named_theorems cstring_defs "definitions of the C string routines"
named_theorems table_defs "definitions of the shared table operations"
named_theorems manager_defs "definitions of the manager's small helpers"

section \<open>Status codes\<close>

text \<open>
  The values of \<open>apr_status_t\<close> that the sources compare against, any other error code as
  \<open>APR_ERR\<close>, and \<open>UB\<close>, which is no value of the program: a callback of the model returns it
  where the C code would read an object through a pointer of the wrong type.
\<close>

datatype apr_status = APR_SUCCESS | APR_EEXIST | APR_NOTFOUND | APR_EINVAL | APR_ERR nat | UB

type_synonym apr_time = int

definition apr_time_sec :: "apr_time \<Rightarrow> apr_time" where
  "apr_time_sec t = (if t < 0 then - (- t div 1000000) else t div 1000000)"

definition apr_time_from_sec :: "int \<Rightarrow> apr_time" where
  "apr_time_from_sec s = s * 1000000"

section \<open>Characters\<close>

abbreviation chr_code :: "char \<Rightarrow> nat" where
  "chr_code c \<equiv> of_char c"

definition apr_isupper :: "char \<Rightarrow> bool" where
  "apr_isupper c \<longleftrightarrow> 65 \<le> chr_code c \<and> chr_code c \<le> 90"

definition apr_isdigit :: "char \<Rightarrow> bool" where
  "apr_isdigit c \<longleftrightarrow> 48 \<le> chr_code c \<and> chr_code c \<le> 57"

definition apr_isxdigit :: "char \<Rightarrow> bool" where
  "apr_isxdigit c \<longleftrightarrow> apr_isdigit c \<or> (65 \<le> chr_code c \<and> chr_code c \<le> 70)
      \<or> (97 \<le> chr_code c \<and> chr_code c \<le> 102)"

definition c_isspace :: "char \<Rightarrow> bool" where
  "c_isspace c \<longleftrightarrow> chr_code c = 32 \<or> (9 \<le> chr_code c \<and> chr_code c \<le> 13)"

definition apr_tolower :: "char \<Rightarrow> char" where
  "apr_tolower c = (if apr_isupper c then char_of (chr_code c + 32) else c)"

section \<open>C strings\<close>

text \<open>
  \<open>strcpy_n n s\<close> is what a buffer of \<open>n\<close> bytes holds after \<open>strncpy(buf, s, n)\<close> followed by
  \<open>buf[n - 1] = 0\<close>: the longest prefix of \<open>s\<close> of at most \<open>n - 1\<close> characters.
\<close>

definition strcpy_n :: "nat \<Rightarrow> string \<Rightarrow> string" where
  [cstring_defs]: "strcpy_n n s = take (n - 1) s"

definition strcasecmp0 :: "string \<Rightarrow> string \<Rightarrow> bool" where
  [cstring_defs]: "strcasecmp0 s t \<longleftrightarrow> map apr_tolower s = map apr_tolower t"

definition strncmp0 :: "string \<Rightarrow> string \<Rightarrow> nat \<Rightarrow> bool" where
  [cstring_defs]: "strncmp0 s t n \<longleftrightarrow> take n s = take n t"

text \<open>\<open>strchr\<close> splits at the first occurrence: what precedes it and what follows it.\<close>

fun strchr :: "char \<Rightarrow> string \<Rightarrow> (string \<times> string) option" where
  "strchr c [] = None"
| "strchr c (x # xs) =
     (if x = c then Some ([], xs)
      else (case strchr c xs of None \<Rightarrow> None | Some (a, b) \<Rightarrow> Some (x # a, b)))"

text \<open>\<open>strstr s t\<close>: the offset of the first occurrence of \<open>t\<close> in \<open>s\<close>.\<close>

fun strstr :: "string \<Rightarrow> string \<Rightarrow> nat option" where
  "strstr [] t = (if t = [] then Some 0 else None)"
| "strstr (x # xs) t =
     (if prefix t (x # xs) then Some 0 else map_option Suc (strstr xs t))"

definition truncate_at :: "char \<Rightarrow> string \<Rightarrow> string" where
  "truncate_at c s = takeWhile (\<lambda>x. x \<noteq> c) s"

section \<open>Lemmas on characters and strings\<close>

lemma apr_tolower_idem [simp]: "apr_tolower (apr_tolower c) = apr_tolower c"
proof (cases "apr_isupper c")
  case True
  then have "chr_code c + 32 < 256" and "\<not> chr_code c + 32 \<le> 90"
    by (auto simp: apr_isupper_def)
  then show ?thesis
    by (simp add: apr_tolower_def apr_isupper_def)
qed (simp add: apr_tolower_def)

lemma not_isupper_tolower [simp]: "\<not> apr_isupper (apr_tolower c)"
proof (cases "apr_isupper c")
  case True
  then have "chr_code c + 32 < 256" and "\<not> chr_code c + 32 \<le> 90"
    by (auto simp: apr_isupper_def)
  then show ?thesis by (simp add: apr_tolower_def apr_isupper_def)
qed (simp add: apr_tolower_def)

lemma strcasecmp0_refl [simp]: "strcasecmp0 s s"
  by (simp add: strcasecmp0_def)

lemma strcasecmp0_sym: "strcasecmp0 s t \<longleftrightarrow> strcasecmp0 t s"
  by (auto simp: strcasecmp0_def)

lemma strcasecmp0_trans: "strcasecmp0 s t \<Longrightarrow> strcasecmp0 t u \<Longrightarrow> strcasecmp0 s u"
  by (simp add: strcasecmp0_def)

lemma strcpy_n_length: "0 < n \<Longrightarrow> length (strcpy_n n s) < n"
  by (simp add: strcpy_n_def)

lemma strcpy_n_fits [simp]: "length s < n \<Longrightarrow> strcpy_n n s = s"
  by (simp add: strcpy_n_def)

lemma strchr_Some:
  "strchr c s = Some (a, b) \<Longrightarrow> s = a @ c # b \<and> c \<notin> set a"
  by (induction s arbitrary: a) (auto split: if_splits option.splits)

lemma strchr_None: "strchr c s = None \<longleftrightarrow> c \<notin> set s"
  by (induction s) (auto split: option.splits)

lemma strchr_append: "c \<notin> set a \<Longrightarrow> strchr c (a @ c # b) = Some (a, b)"
  by (induction a) auto

lemma strstr_Some:
  "strstr s t = Some i \<Longrightarrow> i \<le> length s \<and> prefix t (drop i s)"
  by (induction s arbitrary: i) (auto split: if_splits)

lemma strstr_less: "strstr s t = Some i \<Longrightarrow> t \<noteq> [] \<Longrightarrow> i < length s"
  by (induction s arbitrary: i) (auto split: if_splits)

lemma truncate_at_no [simp]: "c \<notin> set (truncate_at c s)"
  by (auto simp: truncate_at_def dest: set_takeWhileD)

lemma truncate_at_subset: "set (truncate_at c s) \<subseteq> set s"
  by (auto simp: truncate_at_def dest: set_takeWhileD)

section \<open>Lemmas on lists\<close>

lemma list_all_update:
  "list_all Q xs \<Longrightarrow> Q x \<Longrightarrow> list_all Q (xs[i := x])"
  by (auto simp: list_all_iff dest!: set_update_subset_insert [THEN subsetD])

lemma filter_upt_nth: "filter (\<lambda>x. Q x) xs = map ((!) xs) (filter (\<lambda>i. Q (xs ! i)) [0..<length xs])"
proof -
  have "filter Q xs = filter Q (map ((!) xs) [0..<length xs])"
    by (simp add: map_nth)
  then show ?thesis by (simp add: filter_map o_def)
qed

lemma find_upt_Some:
  "find Q [0..<n] = Some i \<longleftrightarrow> i < n \<and> Q i \<and> (\<forall>j < i. \<not> Q j)"
  by (auto simp: find_Some_iff)

lemma find_upt_None: "find Q [0..<n] = None \<longleftrightarrow> (\<forall>i < n. \<not> Q i)"
  by (auto simp: find_None_iff)

lemma nth_update_False: "j < length xs \<Longrightarrow> xs[i := False] ! j \<longleftrightarrow> j \<noteq> i \<and> xs ! j"
  by (cases "j = i") simp_all

lemma nth_update_True: "j < length xs \<Longrightarrow> xs[i := True] ! j \<longleftrightarrow> j = i \<or> xs ! j"
  by (cases "j = i") simp_all

lemma nth_update_if: "j < length xs \<Longrightarrow> xs[i := x] ! j = (if j = i then x else xs ! j)"
  by simp

end
