(* ===== verification/Slotmem.thy ===== *)
theory Slotmem
  imports Prelude
begin

text \<open>
  The slot memory the tables live in. The provider (\<open>mod_slotmem_shm\<close> of httpd, reached through
  \<open>ap_slotmem_provider_t\<close>) is not part of the repository, so it is a parameter: a record of
  the entry points the sources call. The locale \<open>slotmem_provider\<close> states the behaviour of
  \<open>ap_slotmem.h\<close> the code relies on, and \<open>keyed_table\<close> the contract that every table built on
  it (nodes, hosts, contexts, balancers, domains, session ids) promises its clients; the
  clients' lemmas (invariant, lookup after insert, frame, refinement of a finite map) are
  proved once there.
\<close>

section \<open>Slots, callbacks and the provider\<close>

text \<open>
  A shared segment: the contents of the slots and which of them are in use. A pointer into
  the segment, as \<open>dptr\<close> hands it out, is the index of its slot.
\<close>

record 'a slotmem =
  items :: "'a list"
  inuse :: "bool list"

record counter =
  count :: nat
  cvalues :: "int list"

text \<open>
  The \<open>void *data\<close> that \<open>doall\<close> passes to a callback: a record of the table's own type, a
  \<open>struct counter\<close>, or the address of a pointer variable (which no callback expects).
\<close>

datatype 'a cdata = Data 'a | Counter counter | PtrPtr

type_synonym 'a callback = "'a \<Rightarrow> 'a cdata \<Rightarrow> apr_status \<times> 'a \<times> 'a cdata"

record 'a provider =
  doall :: "'a slotmem \<Rightarrow> 'a callback \<Rightarrow> 'a cdata \<Rightarrow> apr_status \<times> 'a slotmem \<times> 'a cdata"
  dptr :: "'a slotmem \<Rightarrow> int \<Rightarrow> apr_status"
  grab :: "'a slotmem \<Rightarrow> apr_status \<times> nat \<times> 'a slotmem"
  fgrab :: "'a slotmem \<Rightarrow> int \<Rightarrow> apr_status \<times> 'a slotmem"
  release :: "'a slotmem \<Rightarrow> int \<Rightarrow> apr_status \<times> 'a slotmem"
  num_slots :: "'a slotmem \<Rightarrow> nat"
  create :: "string \<Rightarrow> nat \<Rightarrow> int \<Rightarrow> apr_status \<times> 'a slotmem"
  attach :: "string \<Rightarrow> apr_status \<times> 'a slotmem \<times> nat"

text \<open>
  \<open>struct mem\<close>: the handle the table modules keep (the provider is the parameter of each
  operation). \<open>create_attach_mem\<close> is the common body of the \<open>create_attach_mem_*\<close> functions
  that return NULL when the segment cannot be created or attached; pool allocation is taken
  to succeed, as APR pools abort the process otherwise.
\<close>

record 'a mem_t =
  slotmem :: "'a slotmem"
  num :: nat
  laststatus :: apr_status

definition create_attach_mem ::
  "'a provider \<Rightarrow> string \<Rightarrow> string \<Rightarrow> nat \<Rightarrow> int \<Rightarrow> bool \<Rightarrow> 'a mem_t option" where
  "create_attach_mem P name exe n type cr =
     (let storename = name @ exe;
          (rv, s, n') = (if cr then (case create P storename n type of (rv, s) \<Rightarrow> (rv, s, n))
                         else attach P storename)
      in if rv \<noteq> APR_SUCCESS then None
         else Some \<lparr>slotmem = s, num = n', laststatus = APR_SUCCESS\<rparr>)"

text \<open>Reading and writing a slot through the pointer \<open>dptr\<close> returned.\<close>

definition slot :: "'a slotmem \<Rightarrow> int \<Rightarrow> 'a" where
  "slot m i = items m ! nat i"

definition store :: "'a slotmem \<Rightarrow> int \<Rightarrow> 'a \<Rightarrow> 'a slotmem" where
  "store m i x = m\<lparr>items := (items m)[nat i := x]\<rparr>"

definition in_range :: "'a slotmem \<Rightarrow> int \<Rightarrow> bool" where
  "in_range m i \<longleftrightarrow> 0 \<le> i \<and> nat i < length (items m)"

definition used :: "'a slotmem \<Rightarrow> int \<Rightarrow> bool" where
  "used m i \<longleftrightarrow> in_range m i \<and> inuse m ! nat i"

definition wf_slotmem :: "'a slotmem \<Rightarrow> bool" where
  "wf_slotmem m \<longleftrightarrow> length (items m) = length (inuse m)"

definition used_slots :: "'a slotmem \<Rightarrow> nat list" where
  "used_slots m = filter (\<lambda>i. inuse m ! i) [0..<length (inuse m)]"

text \<open>The first slot in use whose contents satisfy a test, in the order \<open>doall\<close> visits them.\<close>

definition first_used :: "('a \<Rightarrow> bool) \<Rightarrow> 'a slotmem \<Rightarrow> nat option" where
  "first_used Q m = find (\<lambda>i. inuse m ! i \<and> Q (items m ! i)) [0..<length (inuse m)]"

text \<open>
  \<open>doall\<close> of \<open>ap_slotmem.h\<close>: the callback runs on the slots in use in order, may change the
  slot and its argument, and a status other than \<open>APR_SUCCESS\<close> stops the walk.
\<close>

fun visit :: "'a callback \<Rightarrow> bool list \<Rightarrow> 'a list \<Rightarrow> 'a cdata \<Rightarrow> apr_status \<times> 'a list \<times> 'a cdata" where
  "visit f (u # us) (x # xs) d =
     (if u then
        (case f x d of (rv, x', d') \<Rightarrow>
           if rv \<noteq> APR_SUCCESS then (rv, x' # xs, d')
           else (case visit f us xs d' of (rv', ys, d'') \<Rightarrow> (rv', x' # ys, d'')))
      else (case visit f us xs d of (rv', ys, d'') \<Rightarrow> (rv', x # ys, d'')))"
| "visit f _ xs d = (APR_SUCCESS, xs, d)"

text \<open>\<open>loc_get_id\<close> reads the leading \<open>int id\<close> of the slot (\<open>ident\<close>) into the counter.\<close>

definition loc_get_id :: "('a \<Rightarrow> int) \<Rightarrow> 'a callback" where
  "loc_get_id ident ou d =
     (case d of
        Counter c \<Rightarrow>
          (APR_SUCCESS, ou, Counter (c\<lparr>count := count c + 1, cvalues := cvalues c @ [ident ou]\<rparr>))
      | _ \<Rightarrow> (UB, ou, d))"

text \<open>
  The pattern of every \<open>get_ids_used_*\<close>: the identifiers of the slots in use; the C function
  returns their number and leaves them in the caller's array.
\<close>

definition get_ids_used :: "'a provider \<Rightarrow> ('a \<Rightarrow> int) \<Rightarrow> 'a slotmem \<Rightarrow> int list" where
  "get_ids_used P ident m =
     (case doall P m (loc_get_id ident) (Counter \<lparr>count = 0, cvalues = []\<rparr>) of
        (rv, _, Counter c) \<Rightarrow> if rv \<noteq> APR_SUCCESS then [] else take (count c) (cvalues c)
      | _ \<Rightarrow> [])"

text \<open>The insertion tail of every \<open>insert_update_*\<close>: grab a slot, take its address, fill it.\<close>

definition grab_store :: "'a provider \<Rightarrow> 'a slotmem \<Rightarrow> (nat \<Rightarrow> 'a) \<Rightarrow> apr_status \<times> 'a slotmem" where
  "grab_store P m mk =
     (case grab P m of (rv, i, m') \<Rightarrow>
        if rv \<noteq> APR_SUCCESS then (rv, m')
        else let rv' = dptr P m' (int i) in
          if rv' \<noteq> APR_SUCCESS then (rv', m')
          else (APR_SUCCESS, store m' (int i) (mk i)))"

text \<open>
  The loop that walks over identifiers, reads each record and removes those that match
  (\<open>loc_remove_host_context\<close> and the REMOVE branches of the commands).
\<close>

fun release_where :: "'a provider \<Rightarrow> ('a \<Rightarrow> int) \<Rightarrow> ('a \<Rightarrow> bool) \<Rightarrow> int list \<Rightarrow> 'a slotmem \<Rightarrow> 'a slotmem" where
  "release_where P ident Q [] m = m"
| "release_where P ident Q (i # is) m =
     (if dptr P m i \<noteq> APR_SUCCESS then release_where P ident Q is m
      else if Q (slot m i) then release_where P ident Q is (snd (release P m (ident (slot m i))))
      else release_where P ident Q is m)"

section \<open>Table invariants\<close>

definition ids_ok :: "('a \<Rightarrow> int) \<Rightarrow> 'a slotmem \<Rightarrow> bool" where
  "ids_ok ident m \<longleftrightarrow> (\<forall>i < length (inuse m). inuse m ! i \<longrightarrow> ident (items m ! i) = int i)"

definition keys_ok :: "('a \<Rightarrow> 'k) \<Rightarrow> 'a slotmem \<Rightarrow> bool" where
  "keys_ok key m \<longleftrightarrow>
     (\<forall>i < length (inuse m). \<forall>j < length (inuse m).
        inuse m ! i \<longrightarrow> inuse m ! j \<longrightarrow> key (items m ! i) = key (items m ! j) \<longrightarrow> i = j)"

definition table_ok :: "('a \<Rightarrow> int) \<Rightarrow> ('a \<Rightarrow> 'k) \<Rightarrow> 'a slotmem \<Rightarrow> bool" where
  "table_ok ident key m \<longleftrightarrow> wf_slotmem m \<and> ids_ok ident m \<and> keys_ok key m"

text \<open>The finite map a table stands for.\<close>

definition tbl_map :: "('a \<Rightarrow> 'k) \<Rightarrow> 'a slotmem \<Rightarrow> 'k \<rightharpoonup> 'a" where
  "tbl_map key m k = map_option (\<lambda>i. items m ! i) (first_used (\<lambda>x. key x = k) m)"

section \<open>A reference provider\<close>

text \<open>
  A concrete provider with the behaviour of a pre-grabbed \<open>mod_slotmem_shm\<close> segment
  (\<open>AP_SLOTMEM_TYPE_PREGRAB\<close>): lowest free slot first. It serves to evaluate the model and to
  show that the laws below can hold.
\<close>

definition shm_provider :: "'a \<Rightarrow> 'a provider" where
  "shm_provider z = \<lparr>
     doall = (\<lambda>m f d. case visit f (inuse m) (items m) d of (rv, xs, d') \<Rightarrow> (rv, m\<lparr>items := xs\<rparr>, d')),
     dptr = (\<lambda>m i. if in_range m i then APR_SUCCESS else APR_EINVAL),
     grab = (\<lambda>m. case find (\<lambda>i. \<not> inuse m ! i) [0..<length (inuse m)] of
                   None \<Rightarrow> (APR_EINVAL, 0, m)
                 | Some i \<Rightarrow> (APR_SUCCESS, i, m\<lparr>inuse := (inuse m)[i := True]\<rparr>)),
     fgrab = (\<lambda>m i. if in_range m i then (APR_SUCCESS, m\<lparr>inuse := (inuse m)[nat i := True]\<rparr>)
                    else (APR_EINVAL, m)),
     release = (\<lambda>m i. if \<not> in_range m i then (APR_EINVAL, m)
                      else if \<not> inuse m ! nat i then (APR_NOTFOUND, m)
                      else (APR_SUCCESS, m\<lparr>inuse := (inuse m)[nat i := False]\<rparr>)),
     num_slots = (\<lambda>m. length (items m)),
     create = (\<lambda>name n ty. (APR_SUCCESS, \<lparr>items = replicate n z, inuse = replicate n False\<rparr>)),
     attach = (\<lambda>name. (APR_ERR 1, \<lparr>items = [], inuse = []\<rparr>, 0))\<rparr>"

section \<open>Lemmas on slots and walks\<close>

lemma slot_store_same [simp]: "in_range m i \<Longrightarrow> slot (store m i x) i = x"
  by (simp add: slot_def store_def in_range_def)

lemma slot_store_other [simp]: "0 \<le> i \<Longrightarrow> 0 \<le> j \<Longrightarrow> i \<noteq> j \<Longrightarrow> slot (store m i x) j = slot m j"
  by (simp add: slot_def store_def nth_list_update_neq nat_eq_iff2)

lemma store_simps [simp]:
  "inuse (store m i x) = inuse m"
  "length (items (store m i x)) = length (items m)"
  "in_range (store m i x) j = in_range m j"
  "used (store m i x) j = used m j"
  "wf_slotmem (store m i x) = wf_slotmem m"
  "used_slots (store m i x) = used_slots m"
  by (simp_all add: store_def in_range_def used_def wf_slotmem_def used_slots_def)

lemma store_items: "items (store m i x) = (items m)[nat i := x]"
  by (simp add: store_def)

lemma store_same [simp]: "i < length (items m) \<Longrightarrow> store m (int i) (items m ! i) = m"
  by (simp add: store_def)

lemma set_used_slots: "set (used_slots m) = {i. i < length (inuse m) \<and> inuse m ! i}"
  by (auto simp: used_slots_def)

lemma distinct_used_slots [simp]: "distinct (used_slots m)"
  by (simp add: used_slots_def)

lemma sorted_used_slots [simp]: "sorted (used_slots m)"
  by (simp add: used_slots_def sorted_wrt_filter)

lemma used_iff_slots: "wf_slotmem m \<Longrightarrow> used m i \<longleftrightarrow> 0 \<le> i \<and> nat i \<in> set (used_slots m)"
  by (auto simp: used_def in_range_def set_used_slots wf_slotmem_def)

lemma first_used_Some:
  "first_used Q m = Some i \<longleftrightarrow>
     i < length (inuse m) \<and> inuse m ! i \<and> Q (items m ! i) \<and>
     (\<forall>j < i. inuse m ! j \<longrightarrow> \<not> Q (items m ! j))"
  by (auto simp: first_used_def find_upt_Some)

lemma first_used_None:
  "first_used Q m = None \<longleftrightarrow> (\<forall>i < length (inuse m). inuse m ! i \<longrightarrow> \<not> Q (items m ! i))"
  by (auto simp: first_used_def find_upt_None)

text \<open>With unique keys the first match is the only one.\<close>

lemma first_used_keyI:
  assumes "keys_ok key m" and "i < length (inuse m)" and "inuse m ! i"
  shows "first_used (\<lambda>x. key x = key (items m ! i)) m = Some i"
  using assms unfolding first_used_Some keys_ok_def by (metis less_irrefl order_less_trans)

lemma tbl_map_Some:
  assumes "keys_ok key m"
  shows "tbl_map key m k = Some x \<longleftrightarrow>
     (\<exists>i < length (inuse m). inuse m ! i \<and> items m ! i = x \<and> key x = k)"
proof
  assume "tbl_map key m k = Some x"
  then show "\<exists>i < length (inuse m). inuse m ! i \<and> items m ! i = x \<and> key x = k"
    by (auto simp: tbl_map_def first_used_Some)
next
  assume "\<exists>i < length (inuse m). inuse m ! i \<and> items m ! i = x \<and> key x = k"
  then obtain i where "i < length (inuse m)" "inuse m ! i" "items m ! i = x" "key x = k"
    by blast
  with first_used_keyI [OF assms, of i] show "tbl_map key m k = Some x"
    by (simp add: tbl_map_def)
qed

lemma tbl_map_None:
  "tbl_map key m k = None \<longleftrightarrow> (\<forall>i < length (inuse m). inuse m ! i \<longrightarrow> key (items m ! i) \<noteq> k)"
  by (simp add: tbl_map_def first_used_None)

text \<open>A walk with a searching callback stops at the first match and touches nothing else.\<close>

lemma find_upt_Suc:
  "find Q [0..<Suc n] = (if Q 0 then Some 0 else map_option Suc (find (\<lambda>i. Q (Suc i)) [0..<n]))"
proof -
  have "find Q (map Suc xs) = map_option Suc (find (\<lambda>i. Q (Suc i)) xs)" for xs
    by (induction xs) auto
  then show ?thesis
    by (simp add: upt_conv_Cons del: upt_Suc flip: map_Suc_upt)
qed

lemma visit_search:
  assumes "length us = length xs"
    and "\<And>x. f x d = (if Q x then (APR_EEXIST, g x, h x) else (APR_SUCCESS, x, d))"
  shows "visit f us xs d =
     (case find (\<lambda>i. us ! i \<and> Q (xs ! i)) [0..<length us] of
        None \<Rightarrow> (APR_SUCCESS, xs, d)
      | Some i \<Rightarrow> (APR_EEXIST, xs[i := g (xs ! i)], h (xs ! i)))"
  using assms(1)
proof (induction us xs rule: list_induct2)
  case Nil
  then show ?case by simp
next
  case (Cons u us x xs)
  then show ?case
    by (auto simp: assms(2) find_upt_Suc simp del: upt_Suc split: option.splits)
qed

lemma filter_upt_Suc:
  "filter Q [0..<Suc n] = (if Q 0 then [0] else []) @ map Suc (filter (\<lambda>i. Q (Suc i)) [0..<n])"
  by (simp add: upt_conv_Cons filter_map o_def del: upt_Suc flip: map_Suc_upt)

lemma visit_loc_get_id:
  "length us = length xs \<Longrightarrow>
   visit (loc_get_id ident) us xs (Counter c) =
     (let ids = map (\<lambda>i. ident (xs ! i)) (filter (\<lambda>i. us ! i) [0..<length us])
      in (APR_SUCCESS, xs, Counter (c\<lparr>count := count c + length ids, cvalues := cvalues c @ ids\<rparr>)))"
proof (induction us xs arbitrary: c rule: list_induct2)
  case Nil
  then show ?case by simp
next
  case (Cons u us x xs)
  then show ?case
    by (auto simp: filter_upt_Suc loc_get_id_def Let_def o_def simp del: upt_Suc)
qed

section \<open>The provider's contract\<close>

locale slotmem_provider =
  fixes P :: "'a provider"
  assumes doall_visit: "wf_slotmem m \<Longrightarrow> doall P m f d =
            (case visit f (inuse m) (items m) d of (rv, xs, d') \<Rightarrow> (rv, m\<lparr>items := xs\<rparr>, d'))"
    and dptr_used: "wf_slotmem m \<Longrightarrow> used m i \<Longrightarrow> dptr P m i = APR_SUCCESS"
    and dptr_range: "wf_slotmem m \<Longrightarrow> dptr P m i = APR_SUCCESS \<Longrightarrow> in_range m i"
    and grab_full: "wf_slotmem m \<Longrightarrow> grab P m = (rv, k, m') \<Longrightarrow> rv \<noteq> APR_SUCCESS \<Longrightarrow> m' = m"
    and grab_total: "wf_slotmem m \<Longrightarrow> grab P m = (rv, k, m') \<Longrightarrow>
            rv = APR_SUCCESS \<longleftrightarrow> False \<in> set (inuse m)"
    and grab_free: "wf_slotmem m \<Longrightarrow> grab P m = (APR_SUCCESS, k, m') \<Longrightarrow>
            k < length (inuse m) \<and> \<not> inuse m ! k \<and> m' = m\<lparr>inuse := (inuse m)[k := True]\<rparr>"
    and fgrab_range: "wf_slotmem m \<Longrightarrow> in_range m i \<Longrightarrow>
            fgrab P m i = (APR_SUCCESS, m\<lparr>inuse := (inuse m)[nat i := True]\<rparr>)"
    and fgrab_fail: "wf_slotmem m \<Longrightarrow> \<not> in_range m i \<Longrightarrow>
            fst (fgrab P m i) \<noteq> APR_SUCCESS \<and> snd (fgrab P m i) = m"
    and release_used: "wf_slotmem m \<Longrightarrow> used m i \<Longrightarrow>
            release P m i = (APR_SUCCESS, m\<lparr>inuse := (inuse m)[nat i := False]\<rparr>)"
    and release_unused: "wf_slotmem m \<Longrightarrow> \<not> used m i \<Longrightarrow>
            fst (release P m i) \<noteq> APR_SUCCESS \<and> snd (release P m i) = m"
    and num_slots_length: "wf_slotmem m \<Longrightarrow> num_slots P m = length (items m)"
begin

lemma doall_search:
  assumes "wf_slotmem m"
    and "\<And>x. f x d = (if Q x then (APR_EEXIST, g x, h x) else (APR_SUCCESS, x, d))"
  shows "doall P m f d =
     (case first_used Q m of
        None \<Rightarrow> (APR_SUCCESS, m, d)
      | Some i \<Rightarrow> (APR_EEXIST, store m (int i) (g (items m ! i)), h (items m ! i)))"
proof -
  have len: "length (inuse m) = length (items m)"
    using assms(1) by (simp add: wf_slotmem_def)
  show ?thesis
    using doall_visit [OF assms(1), of f d] visit_search [OF len, of f d Q g h, OF assms(2)]
    by (auto simp: first_used_def store_def split: option.splits)
qed

lemma get_ids_used_eq:
  assumes "wf_slotmem m"
  shows "get_ids_used P ident m = map (\<lambda>i. ident (items m ! i)) (used_slots m)"
proof -
  have len: "length (inuse m) = length (items m)"
    using assms by (simp add: wf_slotmem_def)
  show ?thesis
    unfolding get_ids_used_def
    by (simp add: doall_visit [OF assms] visit_loc_get_id [OF len] Let_def used_slots_def)
qed

lemma grab_store_free:
  assumes wf: "wf_slotmem m" and free: "False \<in> set (inuse m)"
  shows "\<exists>i. i < length (inuse m) \<and> \<not> inuse m ! i \<and>
           grab_store P m mk = (APR_SUCCESS, m\<lparr>items := (items m)[i := mk i], inuse := (inuse m)[i := True]\<rparr>)"
proof -
  obtain rv i m' where g: "grab P m = (rv, i, m')"
    by (cases "grab P m") auto
  have rv: "rv = APR_SUCCESS" using grab_total [OF wf g] free by simp
  have i: "i < length (inuse m)" "\<not> inuse m ! i" and m': "m' = m\<lparr>inuse := (inuse m)[i := True]\<rparr>"
    using grab_free [OF wf g [unfolded rv]] by simp_all
  have wf': "wf_slotmem m'" and u: "used m' (int i)"
    using wf i m' by (simp_all add: wf_slotmem_def used_def in_range_def)
  have "grab_store P m mk = (APR_SUCCESS, store m' (int i) (mk i))"
    using dptr_used [OF wf' u] by (simp add: grab_store_def g rv)
  with i m' show ?thesis by (intro exI [of _ i]) (simp add: store_def)
qed

lemma grab_store_full:
  assumes wf: "wf_slotmem m" and full: "False \<notin> set (inuse m)"
  shows "fst (grab_store P m mk) \<noteq> APR_SUCCESS \<and> snd (grab_store P m mk) = m"
proof -
  obtain rv i m' where g: "grab P m = (rv, i, m')"
    by (cases "grab P m") auto
  have "rv \<noteq> APR_SUCCESS" using grab_total [OF wf g] full by simp
  with grab_full [OF wf g] show ?thesis by (simp add: grab_store_def g)
qed

lemma grab_store_cases:
  assumes wf: "wf_slotmem m" and g: "grab_store P m mk = (rv, m')"
  shows "(rv \<noteq> APR_SUCCESS \<and> m' = m) \<or>
     (rv = APR_SUCCESS \<and> (\<exists>i < length (inuse m).
        m' = m\<lparr>items := (items m)[i := mk i], inuse := (inuse m)[i := True]\<rparr>))"
  using grab_store_free [OF wf, of mk] grab_store_full [OF wf, of mk] g
  by (cases "False \<in> set (inuse m)") auto

end

interpretation shm: slotmem_provider "shm_provider z" for z
proof
  fix m :: "'a slotmem" and rv i m'
  assume wf: "wf_slotmem m" and g: "grab (shm_provider z) m = (rv, i, m')"
  show "rv = APR_SUCCESS \<longleftrightarrow> False \<in> set (inuse m)"
  proof (cases "find (\<lambda>i. \<not> inuse m ! i) [0..<length (inuse m)]")
    case None
    then have "\<forall>b \<in> set (inuse m). b" by (auto simp: find_upt_None in_set_conv_nth)
    with None g show ?thesis by (auto simp: shm_provider_def)
  next
    case (Some k)
    then have "k < length (inuse m)" "\<not> inuse m ! k" by (simp_all add: find_upt_Some)
    then have "False \<in> set (inuse m)" by (metis nth_mem)
    with Some g show ?thesis by (auto simp: shm_provider_def)
  qed
qed (auto simp: shm_provider_def find_upt_Some used_def split: option.splits if_splits)

section \<open>What releasing and filling a slot do to the map\<close>

lemma ids_ok_update:
  assumes "ids_ok ident m" and "wf_slotmem m" and "ident x = int i"
  shows "ids_ok ident (m\<lparr>items := (items m)[i := x], inuse := (inuse m)[i := True]\<rparr>)"
  unfolding ids_ok_def
proof (intro allI impI)
  fix a
  let ?m = "m\<lparr>items := (items m)[i := x], inuse := (inuse m)[i := True]\<rparr>"
  assume "a < length (inuse ?m)" and "inuse ?m ! a"
  with assms show "ident (items ?m ! a) = int a"
    by (cases "a = i") (simp_all add: ids_ok_def wf_slotmem_def)
qed

lemma keys_ok_update:
  assumes "keys_ok key m" and "wf_slotmem m"
    and "\<And>j. j < length (inuse m) \<Longrightarrow> inuse m ! j \<Longrightarrow> j \<noteq> i \<Longrightarrow> key (items m ! j) \<noteq> key x"
  shows "keys_ok key (m\<lparr>items := (items m)[i := x], inuse := (inuse m)[i := True]\<rparr>)"
  unfolding keys_ok_def
proof (intro allI impI)
  fix a b
  let ?m = "m\<lparr>items := (items m)[i := x], inuse := (inuse m)[i := True]\<rparr>"
  assume "a < length (inuse ?m)" "b < length (inuse ?m)" "inuse ?m ! a" "inuse ?m ! b"
    "key (items ?m ! a) = key (items ?m ! b)"
  then show "a = b"
    using assms(1,2) assms(3) [of a] assms(3) [of b]
    by (cases "a = i"; cases "b = i") (auto simp: keys_ok_def wf_slotmem_def)
qed

lemma table_ok_update:
  assumes "table_ok ident key m" and "ident x = int i"
    and "\<And>j. j < length (inuse m) \<Longrightarrow> inuse m ! j \<Longrightarrow> j \<noteq> i \<Longrightarrow> key (items m ! j) \<noteq> key x"
  shows "table_ok ident key (m\<lparr>items := (items m)[i := x], inuse := (inuse m)[i := True]\<rparr>)"
proof -
  have "wf_slotmem m" "ids_ok ident m" "keys_ok key m"
    using assms(1) by (simp_all add: table_ok_def)
  with keys_ok_update [of key m i x] ids_ok_update [of ident m x i] assms(2,3) show ?thesis
    by (simp add: table_ok_def wf_slotmem_def)
qed

lemma table_ok_release:
  "table_ok ident key m \<Longrightarrow> table_ok ident key (m\<lparr>inuse := (inuse m)[i := False]\<rparr>)"
  by (simp add: table_ok_def wf_slotmem_def ids_ok_def keys_ok_def nth_update_False)

lemma tbl_map_update:
  assumes ok: "table_ok ident key m" and i: "i < length (inuse m)"
    and fresh: "\<And>j. j < length (inuse m) \<Longrightarrow> inuse m ! j \<Longrightarrow> j \<noteq> i \<Longrightarrow> key (items m ! j) \<noteq> key x"
    and old: "inuse m ! i \<Longrightarrow> key (items m ! i) = key x"
    and idx: "ident x = int i"
  shows "tbl_map key (m\<lparr>items := (items m)[i := x], inuse := (inuse m)[i := True]\<rparr>)
           = (tbl_map key m)(key x \<mapsto> x)"
proof (rule ext)
  fix k
  let ?m = "m\<lparr>items := (items m)[i := x], inuse := (inuse m)[i := True]\<rparr>"
  have wf: "length (items m) = length (inuse m)" and keys: "keys_ok key m"
    using ok by (simp_all add: table_ok_def wf_slotmem_def)
  have keys': "keys_ok key ?m"
    using table_ok_update [OF ok idx fresh] by (simp add: table_ok_def)
  show "tbl_map key ?m k = ((tbl_map key m)(key x \<mapsto> x)) k"
  proof (cases "k = key x")
    case True
    then have "tbl_map key ?m k = Some x"
      unfolding tbl_map_Some [OF keys'] using i wf by (intro exI [of _ i]) simp
    with True show ?thesis by simp
  next
    case False
    have "tbl_map key ?m k = Some y \<longleftrightarrow> tbl_map key m k = Some y" for y
      unfolding tbl_map_Some [OF keys'] tbl_map_Some [OF keys]
      using False i wf old by (auto simp: nth_list_update split: if_splits) metis
    then have "tbl_map key ?m k = tbl_map key m k"
      by (metis option.exhaust)
    with False show ?thesis by simp
  qed
qed

lemma tbl_map_release:
  assumes ok: "table_ok ident key m" and i: "i < length (inuse m)" "inuse m ! i"
  shows "tbl_map key (m\<lparr>inuse := (inuse m)[i := False]\<rparr>) = (tbl_map key m)(key (items m ! i) := None)"
proof (rule ext)
  fix k
  let ?m = "m\<lparr>inuse := (inuse m)[i := False]\<rparr>"
  have keys: "keys_ok key m" and keys': "keys_ok key ?m"
    using ok table_ok_release [OF ok, of i] by (simp_all add: table_ok_def)
  have uniq: "key (items m ! j) = key (items m ! i) \<Longrightarrow> j < length (inuse m) \<Longrightarrow> inuse m ! j \<Longrightarrow> j = i" for j
    using keys i by (simp add: keys_ok_def)
  have "tbl_map key ?m k = Some y \<longleftrightarrow> ((tbl_map key m)(key (items m ! i) := None)) k = Some y" for y
    using i uniq unfolding tbl_map_Some [OF keys'] fun_upd_apply
    by (auto simp: tbl_map_Some [OF keys] nth_list_update split: if_splits) metis
  then show "tbl_map key ?m k = ((tbl_map key m)(key (items m ! i) := None)) k"
    by (metis option.exhaust)
qed

context slotmem_provider
begin

lemma release_table_ok:
  assumes "table_ok ident key m"
  shows "table_ok ident key (snd (release P m i))"
proof (cases "used m i")
  case True
  moreover have "wf_slotmem m" using assms by (simp add: table_ok_def)
  ultimately show ?thesis
    using release_used [of m i] table_ok_release [OF assms] by simp
next
  case False
  with assms release_unused [of m i] show ?thesis by (simp add: table_ok_def)
qed

lemma release_map:
  assumes ok: "table_ok ident key m" and u: "used m i"
  shows "tbl_map key (snd (release P m i)) = (tbl_map key m)(key (slot m i) := None)"
proof -
  have wf: "wf_slotmem m" using ok by (simp add: table_ok_def)
  show ?thesis
    using release_used [OF wf u] tbl_map_release [OF ok, of "nat i"] u wf
    by (simp add: used_def in_range_def slot_def wf_slotmem_def)
qed

lemma inuse_map_cong:
  "(\<And>i. i < n \<Longrightarrow> f i = g i) \<Longrightarrow> m\<lparr>inuse := map f [0..<n]\<rparr> = m\<lparr>inuse := map g [0..<n]\<rparr>"
  by (rule arg_cong [where f = "\<lambda>u. m\<lparr>inuse := u\<rparr>"]) simp

text \<open>Walking over the slots in use and releasing the matching ones clears exactly those.\<close>

lemma release_where_inuse:
  assumes "wf_slotmem m" and "ids_ok ident m" and "distinct is"
    and "set is \<subseteq> set (used_slots m)"
  shows "release_where P ident Q (map int is) m =
     m\<lparr>inuse := map (\<lambda>i. inuse m ! i \<and> \<not> (i \<in> set is \<and> Q (items m ! i))) [0..<length (inuse m)]\<rparr>"
  using assms
proof (induction "is" arbitrary: m)
  case Nil
  then show ?case by (simp add: map_nth)
next
  case (Cons k ks)
  have k: "k < length (inuse m)" "inuse m ! k" and len: "length (items m) = length (inuse m)"
    using Cons.prems by (auto simp: set_used_slots wf_slotmem_def)
  then have u: "used m (int k)" by (simp add: used_def in_range_def)
  have d: "dptr P m (int k) = APR_SUCCESS" by (rule dptr_used [OF Cons.prems(1) u])
  have idk: "ident (slot m (int k)) = int k"
    using Cons.prems(2) k by (simp add: slot_def ids_ok_def)
  show ?case
  proof (cases "Q (items m ! k)")
    case False
    have "release_where P ident Q (map int (k # ks)) m = release_where P ident Q (map int ks) m"
      using d False by (simp add: slot_def)
    also have "\<dots> = m\<lparr>inuse := map (\<lambda>i. inuse m ! i \<and> \<not> (i \<in> set ks \<and> Q (items m ! i))) [0..<length (inuse m)]\<rparr>"
      using Cons.prems by (intro Cons.IH) auto
    finally show ?thesis using False by (simp only:) (rule inuse_map_cong, auto)
  next
    case True
    let ?m = "m\<lparr>inuse := (inuse m)[k := False]\<rparr>"
    have "release_where P ident Q (map int (k # ks)) m = release_where P ident Q (map int ks) ?m"
      using d True idk release_used [OF Cons.prems(1) u] by (simp add: slot_def)
    also have "\<dots> = ?m\<lparr>inuse := map (\<lambda>i. inuse ?m ! i \<and> \<not> (i \<in> set ks \<and> Q (items ?m ! i))) [0..<length (inuse ?m)]\<rparr>"
      using Cons.prems len
      by (intro Cons.IH) (auto simp: wf_slotmem_def ids_ok_def set_used_slots nth_update_False)
    finally show ?thesis
      using True by (simp only:) (simp, rule inuse_map_cong, auto simp: nth_update_False)
  qed
qed

lemma release_where_all:
  assumes "table_ok ident key m"
  shows "release_where P ident Q (get_ids_used P ident m) m =
     m\<lparr>inuse := map (\<lambda>i. inuse m ! i \<and> \<not> Q (items m ! i)) [0..<length (inuse m)]\<rparr>"
proof -
  have wf: "wf_slotmem m" and ids: "ids_ok ident m"
    using assms by (simp_all add: table_ok_def)
  have "get_ids_used P ident m = map int (used_slots m)"
    using ids by (auto simp: get_ids_used_eq [OF wf] ids_ok_def set_used_slots)
  then show ?thesis
    using release_where_inuse [OF wf ids, of "used_slots m" Q]
    by (simp only: distinct_used_slots subset_refl simp_thms)
      (rule inuse_map_cong, auto simp: set_used_slots)
qed

end

lemma table_ok_subset:
  assumes "table_ok ident key m" and "length us = length (inuse m)"
    and "\<And>i. i < length us \<Longrightarrow> us ! i \<Longrightarrow> inuse m ! i"
  shows "table_ok ident key (m\<lparr>inuse := us\<rparr>)"
  using assms by (auto simp: table_ok_def wf_slotmem_def ids_ok_def keys_ok_def)

section \<open>The contract of a keyed table\<close>

text \<open>
  \<open>put\<close> stands for an \<open>insert_update_*\<close> routine: a record with the same key is updated in
  place (\<open>merge new old\<close>); otherwise the record goes to some slot \<open>i\<close> as \<open>fresh new i\<close>, or the
  call fails and changes nothing.
\<close>

locale keyed_table = slotmem_provider P
  for P :: "'a provider" +
  fixes ident :: "'a \<Rightarrow> int" and key :: "'a \<Rightarrow> 'k"
    and merge :: "'a \<Rightarrow> 'a \<Rightarrow> 'a" and fresh :: "'a \<Rightarrow> nat \<Rightarrow> 'a"
    and put :: "'a slotmem \<Rightarrow> 'a \<Rightarrow> apr_status \<times> 'a slotmem"
  assumes key_merge: "key x = key y \<Longrightarrow> key (merge x y) = key y"
    and ident_merge: "key x = key y \<Longrightarrow> ident (merge x y) = ident y"
    and key_fresh: "key (fresh x i) = key x"
    and ident_fresh: "ident (fresh x i) = int i"
    and put_hit: "wf_slotmem m \<Longrightarrow> first_used (\<lambda>y. key y = key x) m = Some i \<Longrightarrow>
           put m x = (APR_SUCCESS, store m (int i) (merge x (items m ! i)))"
    and put_miss: "wf_slotmem m \<Longrightarrow> first_used (\<lambda>y. key y = key x) m = None \<Longrightarrow>
           put m x = (rv, m') \<Longrightarrow>
           (rv \<noteq> APR_SUCCESS \<and> m' = m) \<or>
           (rv = APR_SUCCESS \<and> (\<exists>i < length (inuse m).
              m' = m\<lparr>items := (items m)[i := fresh x i], inuse := (inuse m)[i := True]\<rparr>))"
begin

lemma store_as_update:
  "i < length (inuse m) \<Longrightarrow> inuse m ! i \<Longrightarrow>
   store m (int i) x = m\<lparr>items := (items m)[i := x], inuse := (inuse m)[i := True]\<rparr>"
  using list_update_id [of "inuse m" i] by (simp add: store_def)

lemma put_cases:
  assumes wf: "wf_slotmem m" and p: "put m x = (rv, m')"
  obtains (hit) i where "first_used (\<lambda>y. key y = key x) m = Some i" and "rv = APR_SUCCESS"
      and "m' = m\<lparr>items := (items m)[i := merge x (items m ! i)], inuse := (inuse m)[i := True]\<rparr>"
    | (miss) i where "first_used (\<lambda>y. key y = key x) m = None" and "rv = APR_SUCCESS"
      and "i < length (inuse m)"
      and "m' = m\<lparr>items := (items m)[i := fresh x i], inuse := (inuse m)[i := True]\<rparr>"
    | (fail) "first_used (\<lambda>y. key y = key x) m = None" and "rv \<noteq> APR_SUCCESS" and "m' = m"
proof (cases "first_used (\<lambda>y. key y = key x) m")
  case None
  with put_miss [OF wf None p] show thesis using miss fail by blast
next
  case (Some i)
  then have "i < length (inuse m)" "inuse m ! i" by (simp_all add: first_used_Some)
  with put_hit [OF wf Some] p Some show thesis by (intro hit [of i]) (simp_all add: store_as_update)
qed

text \<open>The invariant: slots hold their own index, keys are unique.\<close>

lemma put_table_ok:
  assumes ok: "table_ok ident key m"
  shows "table_ok ident key (snd (put m x))"
proof -
  have wf: "wf_slotmem m" and ids: "ids_ok ident m" and keys: "keys_ok key m"
    using ok by (simp_all add: table_ok_def)
  obtain rv m' where p: "put m x = (rv, m')" by (cases "put m x") auto
  from wf p show ?thesis
  proof (cases rule: put_cases)
    case (hit i)
    then have i: "i < length (inuse m)" "inuse m ! i" "key (items m ! i) = key x"
      by (simp_all add: first_used_Some)
    then have "key (items m ! j) \<noteq> key (merge x (items m ! i))"
      if "j < length (inuse m)" "inuse m ! j" "j \<noteq> i" for j
      using that keys by (auto simp: keys_ok_def key_merge)
    then show ?thesis
      using i ids p hit(3) table_ok_update [OF ok, of "merge x (items m ! i)" i]
      by (simp add: ident_merge ids_ok_def)
  next
    case (miss i)
    then show ?thesis
      using p table_ok_update [OF ok, of "fresh x i" i]
      by (simp add: first_used_None key_fresh ident_fresh)
  next
    case fail
    with ok p show ?thesis by simp
  qed
qed

lemma put_wf:
  assumes "wf_slotmem m"
  shows "wf_slotmem (snd (put m x))"
proof -
  obtain rv m' where p: "put m x = (rv, m')" by (cases "put m x") auto
  from assms p show ?thesis
    by (cases rule: put_cases) (use assms p in \<open>auto simp: wf_slotmem_def\<close>)
qed

text \<open>A record can be found again under its key after a successful \<open>put\<close>.\<close>

lemma put_lookup:
  assumes ok: "table_ok ident key m" and p: "put m x = (APR_SUCCESS, m')"
  shows "\<exists>y. tbl_map key m' (key x) = Some y \<and>
           (case tbl_map key m (key x) of Some old \<Rightarrow> y = merge x old
            | None \<Rightarrow> y = fresh x (nat (ident y)))"
proof -
  have wf: "wf_slotmem m" and keys: "keys_ok key m" using ok by (simp_all add: table_ok_def)
  have ok': "table_ok ident key m'" using put_table_ok [OF ok, of x] p by simp
  then have keys': "keys_ok key m'" and len: "length (items m') = length (inuse m')"
    by (simp_all add: table_ok_def wf_slotmem_def)
  from wf p show ?thesis
  proof (cases rule: put_cases)
    case (hit i)
    then have i: "i < length (inuse m)" "inuse m ! i" "key (items m ! i) = key x"
      by (simp_all add: first_used_Some)
    then have "tbl_map key m' (key x) = Some (merge x (items m ! i))"
      unfolding tbl_map_Some [OF keys'] using hit(3) len by (intro exI [of _ i]) (simp add: key_merge)
    moreover have "tbl_map key m (key x) = Some (items m ! i)"
      using i by (auto simp: tbl_map_Some [OF keys])
    ultimately show ?thesis by simp
  next
    case (miss i)
    then have "tbl_map key m' (key x) = Some (fresh x i)"
      unfolding tbl_map_Some [OF keys'] using len by (intro exI [of _ i]) (simp add: key_fresh)
    moreover have "tbl_map key m (key x) = None"
      using miss(1) by (simp add: tbl_map_def)
    ultimately show ?thesis by (simp add: ident_fresh)
  qed simp
qed

end

text \<open>
  A table whose new records only ever go to free slots, and that fails only when there is
  none: it refines the update of a finite map.
\<close>

locale keyed_map = keyed_table +
  assumes put_grab: "wf_slotmem m \<Longrightarrow> first_used (\<lambda>y. key y = key x) m = None \<Longrightarrow>
            put m x = grab_store P m (fresh x)"
begin

lemma put_map_cases:
  assumes wf: "wf_slotmem m" and p: "put m x = (rv, m')"
  obtains (hit) i where "i < length (inuse m)" and "inuse m ! i" and "key (items m ! i) = key x"
      and "rv = APR_SUCCESS"
      and "m' = m\<lparr>items := (items m)[i := merge x (items m ! i)], inuse := (inuse m)[i := True]\<rparr>"
    | (miss) i where "i < length (inuse m)" and "\<not> inuse m ! i" and "rv = APR_SUCCESS"
      and "m' = m\<lparr>items := (items m)[i := fresh x i], inuse := (inuse m)[i := True]\<rparr>"
    | (fail) "rv \<noteq> APR_SUCCESS" and "m' = m"
proof (cases "first_used (\<lambda>y. key y = key x) m")
  case None
  show thesis
  proof (cases "False \<in> set (inuse m)")
    case True
    from grab_store_free [OF wf True, of "fresh x"] put_grab [OF wf None] p
    show thesis by (auto intro: miss)
  next
    case False
    have "fst (put m x) \<noteq> APR_SUCCESS \<and> snd (put m x) = m"
      using grab_store_full [OF wf False, of "fresh x"] put_grab [OF wf None] by simp
    with p show thesis by (intro fail) simp_all
  qed
next
  case (Some i)
  then have "i < length (inuse m)" "inuse m ! i" "key (items m ! i) = key x"
    by (simp_all add: first_used_Some)
  with put_hit [OF wf Some] p show thesis by (intro hit [of i]) (simp_all add: store_as_update)
qed

lemma put_fails_iff:
  assumes "wf_slotmem m"
  shows "fst (put m x) \<noteq> APR_SUCCESS \<longleftrightarrow>
           first_used (\<lambda>y. key y = key x) m = None \<and> False \<notin> set (inuse m)"
proof (cases "first_used (\<lambda>y. key y = key x) m")
  case None
  then show ?thesis
    using put_grab [OF assms None] grab_store_free [OF assms, of "fresh x"]
      grab_store_full [OF assms, of "fresh x"] by (cases "False \<in> set (inuse m)") auto
next
  case (Some i)
  with put_hit [OF assms Some] show ?thesis by simp
qed

lemma put_fail_unchanged:
  assumes "wf_slotmem m" and "fst (put m x) \<noteq> APR_SUCCESS"
  shows "snd (put m x) = m"
  using assms put_fails_iff [OF assms(1), of x] put_grab [OF assms(1), of x]
    grab_store_full [OF assms(1), of "fresh x"] by auto

text \<open>Refinement: on the abstract map, \<open>put\<close> is an update at the record's key.\<close>

lemma put_refines:
  assumes ok: "table_ok ident key m" and p: "put m x = (APR_SUCCESS, m')"
  shows "\<exists>y. key y = key x \<and> tbl_map key m' = (tbl_map key m)(key x \<mapsto> y) \<and>
           (case tbl_map key m (key x) of Some old \<Rightarrow> y = merge x old
            | None \<Rightarrow> y = fresh x (nat (ident y)))"
proof -
  have wf: "wf_slotmem m" and keys: "keys_ok key m" and ids: "ids_ok ident m"
    using ok by (simp_all add: table_ok_def)
  show ?thesis
  proof (cases "first_used (\<lambda>y. key y = key x) m")
    case (Some i)
    then have i: "i < length (inuse m)" "inuse m ! i" "key (items m ! i) = key x"
      by (simp_all add: first_used_Some)
    let ?y = "merge x (items m ! i)"
    have ky: "key ?y = key x" using i by (simp add: key_merge)
    have m': "m' = m\<lparr>items := (items m)[i := ?y], inuse := (inuse m)[i := True]\<rparr>"
      using put_hit [OF wf Some] p i by (simp add: store_as_update)
    have "tbl_map key m' = (tbl_map key m)(key ?y \<mapsto> ?y)"
      unfolding m' by (rule tbl_map_update [OF ok i(1)])
        (use i keys ids in \<open>auto simp: keys_ok_def ids_ok_def ky ident_merge\<close>)
    moreover have "tbl_map key m (key x) = Some (items m ! i)"
      using i by (auto simp: tbl_map_Some [OF keys])
    ultimately show ?thesis using ky by (intro exI [of _ ?y]) simp
  next
    case None
    have free: "False \<in> set (inuse m)" using put_fails_iff [OF wf, of x] None p by auto
    obtain i where i: "i < length (inuse m)" "\<not> inuse m ! i"
      and m': "m' = m\<lparr>items := (items m)[i := fresh x i], inuse := (inuse m)[i := True]\<rparr>"
      using grab_store_free [OF wf free, of "fresh x"] put_grab [OF wf None] p by auto
    have "tbl_map key m' = (tbl_map key m)(key (fresh x i) \<mapsto> fresh x i)"
      unfolding m' by (rule tbl_map_update [OF ok i(1)])
        (use i None in \<open>auto simp: first_used_None key_fresh ident_fresh\<close>)
    moreover have "tbl_map key m (key x) = None"
      using None by (simp add: tbl_map_def)
    ultimately show ?thesis by (intro exI [of _ "fresh x i"]) (simp add: key_fresh ident_fresh)
  qed
qed

lemma put_frame:
  assumes "table_ok ident key m" and "k \<noteq> key x"
  shows "tbl_map key (snd (put m x)) k = tbl_map key m k"
proof (cases "fst (put m x) = APR_SUCCESS")
  case True
  with put_refines [OF assms(1), of x "snd (put m x)"] assms(2) show ?thesis
    by (auto simp: prod_eq_iff)
next
  case False
  with put_fail_unchanged [of m x] assms(1) show ?thesis by (simp add: table_ok_def)
qed

end

end
