(* ===== verification/Node_Table.thy ===== *)
theory Node_Table
  imports Slotmem
begin

text \<open>
  The node table, \<open>mod_manager/node.c\<close> and \<open>include/node.h\<close>: one record per application
  server, keyed by its JVMRoute. Unlike the other tables a node may be put into a slot the
  caller chose (the slot number is also the worker's number on the proxy side), the update
  keeps the worker status stored behind the configuration part, and times are kept in
  microseconds. \<open>jsz\<close> is \<open>JVMROUTESZ\<close>, the size of httpd's route buffer.
\<close>

section \<open>Data\<close>

text \<open>The fields of httpd's \<open>proxy_worker_shared\<close> that the sources read or write.\<close>

record worker_shared =
  ws_index :: int
  ws_status :: "32 word"
  ws_scheme :: string
  ws_hostname :: string
  ws_port :: int
  ws_route :: string
  ws_lbfactor :: int
  ws_lbstatus :: int
  ws_elected :: "64 word"
  ws_busy :: "64 word"
  ws_read :: int
  ws_transferred :: int
  ws_upgrade :: string
  ws_secret :: string
  ws_response_field_size :: int
  ws_response_field_size_set :: bool
  ws_redirect :: string
  ws_updated :: apr_time
  ws_error_time :: apr_time
  ws_retries :: int
  ws_name :: string
  ws_hostname_ex :: string
  ws_hmax :: int
  ws_smax :: int
  ws_ttl :: apr_time
  ws_timeout :: apr_time
  ws_timeout_set :: bool
  ws_flush_packets :: int
  ws_flush_wait :: int
  ws_ping_timeout :: apr_time
  ws_ping_timeout_set :: bool
  ws_acquire :: apr_time
  ws_acquire_set :: bool
  ws_conn_timeout :: apr_time
  ws_conn_timeout_set :: bool
  ws_keepalive :: bool
  ws_keepalive_set :: bool
  ws_is_address_reusable :: bool
  ws_address_ttl :: int
  ws_address_ttl_set :: bool
  ws_disablereuse :: bool
  ws_retry :: apr_time
  ws_was_malloced :: bool
  ws_method :: int

record nodemess =
  n_id :: int
  n_balancer :: string
  JVMRoute :: string
  Domain :: string
  Host :: string
  Port :: string
  Type :: string
  Upgrade :: string
  AJPSecret :: string
  n_reversed :: int
  n_remove :: int
  ResponseFieldSize :: int
  has_workers :: "32 word"
  flushpackets :: int
  flushwait :: int
  n_ping :: apr_time
  n_smax :: int
  n_ttl :: apr_time
  n_timeout :: apr_time
  updatetimelb :: apr_time
  num_failure_idle :: int
  oldelected :: "64 word"
  oldread :: int
  lastcleantry :: apr_time
  num_remove_check :: int

record nodeinfo =
  mess :: nodemess
  n_updatetime :: apr_time
  stat :: worker_shared

text \<open>What \<open>memset(..., 0, ...)\<close> leaves in these structures.\<close>

definition zero_shared :: worker_shared where
  "zero_shared = \<lparr>ws_index = 0, ws_status = 0, ws_scheme = [], ws_hostname = [], ws_port = 0,
     ws_route = [], ws_lbfactor = 0, ws_lbstatus = 0, ws_elected = 0, ws_busy = 0, ws_read = 0,
     ws_transferred = 0, ws_upgrade = [], ws_secret = [], ws_response_field_size = 0,
     ws_response_field_size_set = False, ws_redirect = [], ws_updated = 0, ws_error_time = 0, ws_retries = 0,
     ws_name = [], ws_hostname_ex = [], ws_hmax = 0, ws_smax = 0, ws_ttl = 0, ws_timeout = 0, ws_timeout_set = False,
     ws_flush_packets = 0, ws_flush_wait = 0, ws_ping_timeout = 0, ws_ping_timeout_set = False, ws_acquire = 0,
     ws_acquire_set = False, ws_conn_timeout = 0, ws_conn_timeout_set = False, ws_keepalive = False,
     ws_keepalive_set = False, ws_is_address_reusable = False, ws_address_ttl = 0, ws_address_ttl_set = False,
     ws_disablereuse = False, ws_retry = 0, ws_was_malloced = False, ws_method = 0\<rparr>"

definition zero_mess :: nodemess where
  "zero_mess = \<lparr>n_id = 0, n_balancer = [], JVMRoute = [], Domain = [], Host = [], Port = [],
     Type = [], Upgrade = [], AJPSecret = [], n_reversed = 0, n_remove = 0, ResponseFieldSize = 0,
     has_workers = 0, flushpackets = 0, flushwait = 0, n_ping = 0, n_smax = 0, n_ttl = 0,
     n_timeout = 0, updatetimelb = 0, num_failure_idle = 0, oldelected = 0, oldread = 0,
     lastcleantry = 0, num_remove_check = 0\<rparr>"

definition zero_node :: nodeinfo where
  "zero_node = \<lparr>mess = zero_mess, n_updatetime = 0, stat = zero_shared\<rparr>"

abbreviation (input) BALANCERSZ :: nat where "BALANCERSZ \<equiv> 40"
abbreviation (input) DOMAINNDSZ :: nat where "DOMAINNDSZ \<equiv> 20"
abbreviation (input) HOSTNODESZ :: nat where "HOSTNODESZ \<equiv> 64"
abbreviation (input) PORTNODESZ :: nat where "PORTNODESZ \<equiv> 7"
abbreviation (input) SCHEMENDSZ :: nat where "SCHEMENDSZ \<equiv> 16"
abbreviation (input) AJPSECRETSZ :: nat where "AJPSECRETSZ \<equiv> 64"

definition node_ident :: "nodeinfo \<Rightarrow> int" where
  [table_defs]: "node_ident x = n_id (mess x)"

definition node_key :: "nodeinfo \<Rightarrow> string" where
  [table_defs]: "node_key x = JVMRoute (mess x)"

definition set_node_id :: "int \<Rightarrow> nodeinfo \<Rightarrow> nodeinfo" where
  [table_defs]: "set_node_id i x = x\<lparr>mess := (mess x)\<lparr>n_id := i\<rparr>\<rparr>"

section \<open>Operations\<close>

text \<open>
  Unlike its siblings, \<open>create_attach_mem_node\<close> returns the handle even when the segment could
  not be had, with the reason in \<open>laststatus\<close>.
\<close>

definition create_attach_mem_node ::
  "nodeinfo provider \<Rightarrow> string \<Rightarrow> nat \<Rightarrow> int \<Rightarrow> bool \<Rightarrow> nodeinfo mem_t" where
  "create_attach_mem_node P string n type cr =
     (let storename = string @ ''.nodes'';
          (rv, s, n') = (if cr then (case create P storename n type of (rv, s) \<Rightarrow> (rv, s, n))
                         else attach P storename)
      in if rv \<noteq> APR_SUCCESS then \<lparr>slotmem = s, num = 0, laststatus = rv\<rparr>
         else \<lparr>slotmem = s, num = n', laststatus = APR_SUCCESS\<rparr>)"

definition get_last_mem_error :: "nodeinfo mem_t \<Rightarrow> apr_status" where
  "get_last_mem_error mem = laststatus mem"

definition get_mem_node :: "nodeinfo provider \<Rightarrow> string \<Rightarrow> nat \<Rightarrow> nodeinfo mem_t" where
  "get_mem_node P string n = create_attach_mem_node P string n 0 False"

definition create_mem_node :: "nodeinfo provider \<Rightarrow> string \<Rightarrow> nat \<Rightarrow> int \<Rightarrow> nodeinfo mem_t" where
  "create_mem_node P string n persist = create_attach_mem_node P string n persist True"

definition node_merge :: "apr_time \<Rightarrow> nodeinfo \<Rightarrow> nodeinfo \<Rightarrow> nodeinfo" where
  [table_defs]: "node_merge now x ou =
     ou\<lparr>mess := (mess x)\<lparr>n_id := n_id (mess ou)\<rparr>, n_updatetime := now\<rparr>"

definition node_fresh :: "apr_time \<Rightarrow> bool \<Rightarrow> nodeinfo \<Rightarrow> nat \<Rightarrow> nodeinfo" where
  [table_defs]: "node_fresh now clean x i =
     x\<lparr>mess := (mess x)\<lparr>n_id := int i\<rparr>, n_updatetime := now,
       stat := (if clean then zero_shared else stat x)\<rparr>"

definition update_node :: "apr_time \<Rightarrow> nodeinfo callback" where
  "update_node now ou d =
     (case d of
        Data x \<Rightarrow>
          (if JVMRoute (mess x) = JVMRoute (mess ou)
           then (let x' = set_node_id (n_id (mess ou)) x in
                 (APR_EEXIST, ou\<lparr>mess := mess x', n_updatetime := now\<rparr>, Data x'))
           else (APR_SUCCESS, ou, d))
      | _ \<Rightarrow> (UB, ou, d))"

text \<open>
  \<open>now0\<close> is the time read on entry, \<open>now1\<close> the time the callback reads. The results are the
  status, the table, the caller's record and the caller's \<open>*id\<close>.
\<close>

definition insert_update_node ::
  "nodeinfo provider \<Rightarrow> nodeinfo slotmem \<Rightarrow> nodeinfo \<Rightarrow> int \<Rightarrow> bool \<Rightarrow> apr_time \<Rightarrow> apr_time
     \<Rightarrow> apr_status \<times> nodeinfo slotmem \<times> nodeinfo \<times> int" where
  "insert_update_node P m node i clean now0 now1 =
     (case doall P m (update_node now1) (Data node) of (rv, m1, d) \<Rightarrow>
        let node' = (case d of Data y \<Rightarrow> y | _ \<Rightarrow> node) in
        if rv = APR_EEXIST then (APR_SUCCESS, m1, node', n_id (mess node'))
        else
          (case (if i = -1
                 then (case grab P m1 of (rv, k, m2) \<Rightarrow> (rv, m2, if rv = APR_SUCCESS then int k else i))
                 else (case fgrab P m1 i of (rv, m2) \<Rightarrow> (rv, m2, i))) of
             (rv, m2, i') \<Rightarrow>
               if rv \<noteq> APR_SUCCESS then (rv, m2, node', i')
               else let rv' = dptr P m2 i' in
                 if rv' \<noteq> APR_SUCCESS then (rv', m2, node', i')
                 else (APR_SUCCESS, store m2 i' (node_fresh now0 clean node' (nat i')), node', i')))"

definition loc_read_node :: "nodeinfo callback" where
  "loc_read_node ou d =
     (case d of
        Data x \<Rightarrow>
          (if JVMRoute (mess x) = JVMRoute (mess ou)
           then (APR_EEXIST, ou, Data (set_node_id (n_id (mess ou)) x))
           else (APR_SUCCESS, ou, d))
      | _ \<Rightarrow> (UB, ou, d))"

definition read_node :: "nodeinfo provider \<Rightarrow> nodeinfo slotmem \<Rightarrow> nodeinfo \<Rightarrow> int option" where
  "read_node P m node =
     (let (found, node') =
            (if n_id (mess node) = -1 then
               (case doall P m loc_read_node (Data node) of
                  (rv, _, Data y) \<Rightarrow> (rv = APR_EEXIST, y)
                | _ \<Rightarrow> (False, node))
             else (True, node))
      in if \<not> found then None
         else if dptr P m (n_id (mess node')) = APR_SUCCESS then Some (n_id (mess node'))
         else None)"

definition get_node :: "nodeinfo provider \<Rightarrow> nodeinfo slotmem \<Rightarrow> int \<Rightarrow> apr_status" where
  "get_node P m i = dptr P m i"

definition remove_node :: "nodeinfo provider \<Rightarrow> nodeinfo slotmem \<Rightarrow> int \<Rightarrow> apr_status \<times> nodeinfo slotmem" where
  "remove_node P m i = release P m i"

text \<open>The address of the node found is its slot number.\<close>

definition find_node :: "nodeinfo provider \<Rightarrow> nat \<Rightarrow> nodeinfo slotmem \<Rightarrow> string \<Rightarrow> apr_status \<times> int" where
  "find_node P jsz m route =
     (let ou = zero_node\<lparr>mess := zero_mess\<lparr>JVMRoute := strcpy_n jsz route\<rparr>\<rparr> in
      case doall P m loc_read_node (Data ou) of (rv, _, d) \<Rightarrow>
        let i = (case d of Data y \<Rightarrow> n_id (mess y) | _ \<Rightarrow> 0) in
        if rv = APR_SUCCESS then (APR_NOTFOUND, i)
        else if rv = APR_EEXIST then (dptr P m i, i)
        else (rv, i))"

definition get_ids_used_node :: "nodeinfo provider \<Rightarrow> nodeinfo slotmem \<Rightarrow> int list" where
  "get_ids_used_node P m = get_ids_used P node_ident m"

definition get_max_size_node :: "nodeinfo provider \<Rightarrow> nodeinfo slotmem \<Rightarrow> nat" where
  "get_max_size_node P m = num_slots P m"

definition loc_read_node_byhostport :: "nodeinfo callback" where
  "loc_read_node_byhostport ou d =
     (case d of
        Data x \<Rightarrow>
          (if Host (mess x) = Host (mess ou) \<and> Port (mess x) = Port (mess ou)
           then (APR_EEXIST, ou, Data (set_node_id (n_id (mess ou)) x))
           else (APR_SUCCESS, ou, d))
      | _ \<Rightarrow> (UB, ou, d))"

definition find_node_byhostport ::
  "nodeinfo provider \<Rightarrow> nodeinfo slotmem \<Rightarrow> string \<Rightarrow> string \<Rightarrow> apr_status \<times> int" where
  "find_node_byhostport P m host port =
     (let ou = zero_node\<lparr>mess := zero_mess\<lparr>Host := strcpy_n HOSTNODESZ host, Port := strcpy_n PORTNODESZ port\<rparr>\<rparr> in
      case doall P m loc_read_node_byhostport (Data ou) of (rv, _, d) \<Rightarrow>
        let i = (case d of Data y \<Rightarrow> n_id (mess y) | _ \<Rightarrow> 0) in
        if rv = APR_EEXIST then (dptr P m i, i)
        else if rv = APR_SUCCESS then (APR_NOTFOUND, i)
        else (rv, i))"

abbreviation node_put ::
  "nodeinfo provider \<Rightarrow> int \<Rightarrow> bool \<Rightarrow> apr_time \<Rightarrow> apr_time \<Rightarrow> nodeinfo slotmem \<Rightarrow> nodeinfo
     \<Rightarrow> apr_status \<times> nodeinfo slotmem" where
  "node_put P i clean now0 now1 m x \<equiv>
     (case insert_update_node P m x i clean now0 now1 of (rv, m', _) \<Rightarrow> (rv, m'))"

section \<open>The table keeps the contract\<close>

lemma update_node_search:
  "update_node now ou (Data x) =
     (if node_key ou = node_key x
      then (APR_EEXIST, node_merge now x ou, Data (set_node_id (node_ident ou) x))
      else (APR_SUCCESS, ou, Data x))"
  by (auto simp: update_node_def table_defs)

lemma loc_read_node_search:
  "loc_read_node ou (Data x) =
     (if node_key ou = node_key x then (APR_EEXIST, ou, Data (set_node_id (node_ident ou) x))
      else (APR_SUCCESS, ou, Data x))"
  by (auto simp: loc_read_node_def table_defs)

lemma loc_read_node_byhostport_search:
  "loc_read_node_byhostport ou (Data x) =
     (if Host (mess ou) = Host (mess x) \<and> Port (mess ou) = Port (mess x)
      then (APR_EEXIST, ou, Data (set_node_id (node_ident ou) x))
      else (APR_SUCCESS, ou, Data x))"
  by (auto simp: loc_read_node_byhostport_def table_defs)

locale node_table = slotmem_provider P
  for P :: "nodeinfo provider" +
  fixes slot_wanted :: int and clean :: bool and now0 now1 :: apr_time
begin

lemmas doall_update_node =
  doall_search [where f = "update_node now1" and d = "Data x" and Q = "\<lambda>ou. node_key ou = node_key x"
    and g = "node_merge now1 x" and h = "\<lambda>ou. Data (set_node_id (node_ident ou) x)" for x,
    OF _ update_node_search]

lemmas doall_loc_read_node =
  doall_search [where f = loc_read_node and d = "Data x" and Q = "\<lambda>ou. node_key ou = node_key x"
    and g = "\<lambda>ou. ou" and h = "\<lambda>ou. Data (set_node_id (node_ident ou) x)" for x,
    OF _ loc_read_node_search]

lemma insert_update_node_hit:
  assumes "wf_slotmem m" and "first_used (\<lambda>y. node_key y = node_key x) m = Some k"
  shows "insert_update_node P m x slot_wanted clean now0 now1 =
     (APR_SUCCESS, store m (int k) (node_merge now1 x (items m ! k)),
      set_node_id (node_ident (items m ! k)) x, node_ident (items m ! k))"
  using assms(2)
  by (simp add: insert_update_node_def doall_update_node [OF assms(1)], simp add: table_defs)

text \<open>A new node goes to a free slot, or to the slot the caller asked for.\<close>

lemma insert_update_node_miss:
  assumes wf: "wf_slotmem m" and none: "first_used (\<lambda>y. node_key y = node_key x) m = None"
    and p: "insert_update_node P m x slot_wanted clean now0 now1 = (rv, m', x', i')"
  shows "(rv \<noteq> APR_SUCCESS \<and> m' = m) \<or>
     (rv = APR_SUCCESS \<and> 0 \<le> i' \<and> nat i' < length (inuse m) \<and>
      (slot_wanted = -1 \<longrightarrow> \<not> inuse m ! nat i') \<and> (slot_wanted \<noteq> -1 \<longrightarrow> i' = slot_wanted) \<and>
      m' = m\<lparr>items := (items m)[nat i' := node_fresh now0 clean x (nat i')], inuse := (inuse m)[nat i' := True]\<rparr>)"
proof -
  note q = p [unfolded insert_update_node_def doall_update_node [OF wf] none, simplified]
  show ?thesis
  proof (cases "slot_wanted = -1")
    case True
    obtain r k m2 where g: "grab P m = (r, k, m2)" by (cases "grab P m") auto
    show ?thesis
    proof (cases "r = APR_SUCCESS")
      case False
      with q g True grab_full [OF wf g] show ?thesis by (auto simp: Let_def)
    next
      case r: True
      have k: "k < length (inuse m)" "\<not> inuse m ! k" and m2: "m2 = m\<lparr>inuse := (inuse m)[k := True]\<rparr>"
        using grab_free [OF wf g [unfolded r]] by simp_all
      have "wf_slotmem m2" "used m2 (int k)"
        using wf k m2 by (simp_all add: wf_slotmem_def used_def in_range_def)
      then have "dptr P m2 (int k) = APR_SUCCESS" by (rule dptr_used)
      with q g True r k m2 show ?thesis by (auto simp: Let_def store_def)
    qed
  next
    case False
    show ?thesis
    proof (cases "in_range m slot_wanted")
      case True
      let ?m2 = "m\<lparr>inuse := (inuse m)[nat slot_wanted := True]\<rparr>"
      have i: "0 \<le> slot_wanted" "nat slot_wanted < length (inuse m)"
        using True wf by (simp_all add: in_range_def wf_slotmem_def)
      then have "wf_slotmem ?m2" "used ?m2 slot_wanted"
        using wf True by (simp_all add: wf_slotmem_def used_def in_range_def)
      then have "dptr P ?m2 slot_wanted = APR_SUCCESS" by (rule dptr_used)
      with q False fgrab_range [OF wf True] i show ?thesis by (auto simp: Let_def store_def)
    next
      case out: False
      with q False fgrab_fail [OF wf out] show ?thesis
        by (auto simp: Let_def split: prod.splits if_splits)
    qed
  qed
qed

lemma read_node_eq:
  assumes "wf_slotmem m" and "n_id (mess x) = -1"
  shows "read_node P m x =
     (case first_used (\<lambda>y. node_key y = node_key x) m of
        None \<Rightarrow> None
      | Some k \<Rightarrow> if dptr P m (node_ident (items m ! k)) = APR_SUCCESS
                  then Some (node_ident (items m ! k)) else None)"
  using assms(2) doall_loc_read_node [OF assms(1), of x]
  by (auto simp: read_node_def set_node_id_def split: option.splits)

lemma read_node_ok:
  assumes ok: "table_ok node_ident node_key m" and "n_id (mess x) = -1"
  shows "read_node P m x = map_option int (first_used (\<lambda>y. node_key y = node_key x) m)"
proof -
  have wf: "wf_slotmem m" and ids: "ids_ok node_ident m" using ok by (simp_all add: table_ok_def)
  show ?thesis
  proof (cases "first_used (\<lambda>y. node_key y = node_key x) m")
    case None
    with read_node_eq [OF wf assms(2)] show ?thesis by simp
  next
    case (Some k)
    then have k: "k < length (inuse m)" "inuse m ! k" by (simp_all add: first_used_Some)
    then have "used m (int k)" "node_ident (items m ! k) = int k"
      using wf ids by (simp_all add: used_def in_range_def wf_slotmem_def ids_ok_def)
    with read_node_eq [OF wf assms(2)] Some dptr_used [OF wf, of "int k"] show ?thesis by simp
  qed
qed

end

sublocale node_table \<subseteq>
  keyed_table P node_ident node_key "node_merge now1" "node_fresh now0 clean" "node_put P slot_wanted clean now0 now1"
proof
  fix m :: "nodeinfo slotmem" and x rv m'
  assume wf: "wf_slotmem m" and none: "first_used (\<lambda>y. node_key y = node_key x) m = None"
    and p: "node_put P slot_wanted clean now0 now1 m x = (rv, m')"
  obtain x' i' where "insert_update_node P m x slot_wanted clean now0 now1 = (rv, m', x', i')"
    using p by (auto split: prod.splits)
  from insert_update_node_miss [OF wf none this]
  show "(rv \<noteq> APR_SUCCESS \<and> m' = m) \<or>
     (rv = APR_SUCCESS \<and> (\<exists>i < length (inuse m).
        m' = m\<lparr>items := (items m)[i := node_fresh now0 clean x i], inuse := (inuse m)[i := True]\<rparr>))"
    by blast
qed (simp_all add: insert_update_node_hit, simp_all add: table_defs)

interpretation nodes: node_table "shm_provider z" i clean now0 now1 for z i clean now0 now1
  by unfold_locales

lemma get_ids_used_node_eq:
  "slotmem_provider P \<Longrightarrow> table_ok node_ident node_key m \<Longrightarrow>
   get_ids_used_node P m = map int (used_slots m)"
  by (auto simp: get_ids_used_node_def slotmem_provider.get_ids_used_eq table_ok_def ids_ok_def set_used_slots)

end
