(* ===== verification/Host_Table.thy ===== *)
theory Host_Table
  imports Slotmem
begin

text \<open>
  The virtual host (alias) table, \<open>mod_manager/host.c\<close> and \<open>include/host.h\<close>: one record per
  alias of a virtual host of a node. Updating matches alias, virtual host and node; reading
  matches alias and node only.
\<close>

record hostinfo =
  h_id :: int
  h_host :: string
  h_vhost :: int
  h_node :: int
  h_updatetime :: apr_time

definition host_key :: "hostinfo \<Rightarrow> string \<times> int \<times> int" where
  [table_defs]: "host_key x = (h_host x, h_vhost x, h_node x)"

section \<open>Operations\<close>

definition create_attach_mem_host ::
  "hostinfo provider \<Rightarrow> string \<Rightarrow> nat \<Rightarrow> int \<Rightarrow> bool \<Rightarrow> hostinfo mem_t option" where
  "create_attach_mem_host P string n type cr = create_attach_mem P string ''.hosts'' n type cr"

definition get_mem_host :: "hostinfo provider \<Rightarrow> string \<Rightarrow> nat \<Rightarrow> hostinfo mem_t option" where
  "get_mem_host P string n = create_attach_mem_host P string n 0 False"

definition create_mem_host :: "hostinfo provider \<Rightarrow> string \<Rightarrow> nat \<Rightarrow> int \<Rightarrow> hostinfo mem_t option" where
  "create_mem_host P string n persist = create_attach_mem_host P string n persist True"

text \<open>What the update callback leaves in the slot, and what an insertion stores.\<close>

definition host_merge :: "apr_time \<Rightarrow> hostinfo \<Rightarrow> hostinfo \<Rightarrow> hostinfo" where
  [table_defs]: "host_merge now x ou = x\<lparr>h_id := h_id ou, h_updatetime := apr_time_sec now\<rparr>"

definition host_fresh :: "apr_time \<Rightarrow> hostinfo \<Rightarrow> nat \<Rightarrow> hostinfo" where
  [table_defs]: "host_fresh now x i = x\<lparr>h_id := int i, h_updatetime := apr_time_sec now\<rparr>"

definition update_host :: "apr_time \<Rightarrow> hostinfo callback" where
  "update_host now ou d =
     (case d of
        Data x \<Rightarrow>
          (if h_host x = h_host ou \<and> h_vhost x = h_vhost ou \<and> h_node x = h_node ou
           then (APR_EEXIST, x\<lparr>h_id := h_id ou, h_updatetime := apr_time_sec now\<rparr>, Data (x\<lparr>h_id := h_id ou\<rparr>))
           else (APR_SUCCESS, ou, d))
      | _ \<Rightarrow> (UB, ou, d))"

text \<open>
  The caller's record is returned too: the update callback writes the slot's \<open>id\<close> into it.
\<close>

definition insert_update_host ::
  "hostinfo provider \<Rightarrow> hostinfo slotmem \<Rightarrow> hostinfo \<Rightarrow> apr_time \<Rightarrow> apr_status \<times> hostinfo slotmem \<times> hostinfo" where
  "insert_update_host P m x now =
     (case doall P m (update_host now) (Data x) of (rv, m1, d) \<Rightarrow>
        let x' = (case d of Data y \<Rightarrow> y | _ \<Rightarrow> x) in
        if rv = APR_EEXIST then (APR_SUCCESS, m1, x')
        else (case grab_store P m1 (host_fresh now x') of (rv', m2) \<Rightarrow> (rv', m2, x')))"

definition loc_read_host :: "hostinfo callback" where
  "loc_read_host ou d =
     (case d of
        Data x \<Rightarrow>
          (if h_host x = h_host ou \<and> h_node x = h_node ou
           then (APR_EEXIST, ou, Data (x\<lparr>h_id := h_id ou\<rparr>))
           else (APR_SUCCESS, ou, d))
      | _ \<Rightarrow> (UB, ou, d))"

definition read_host :: "hostinfo provider \<Rightarrow> hostinfo slotmem \<Rightarrow> hostinfo \<Rightarrow> int option \<times> hostinfo" where
  "read_host P m x =
     (let (found, x') =
            (if h_id x = 0 then
               (case doall P m loc_read_host (Data x) of
                  (rv, _, Data y) \<Rightarrow> (rv = APR_EEXIST, y)
                | _ \<Rightarrow> (False, x))
             else (True, x))
      in if \<not> found then (None, x')
         else if dptr P m (h_id x') = APR_SUCCESS then (Some (h_id x'), x')
         else (None, x'))"

definition get_host :: "hostinfo provider \<Rightarrow> hostinfo slotmem \<Rightarrow> int \<Rightarrow> apr_status" where
  "get_host P m i = dptr P m i"

definition remove_host :: "hostinfo provider \<Rightarrow> hostinfo slotmem \<Rightarrow> int \<Rightarrow> apr_status \<times> hostinfo slotmem" where
  "remove_host P m i = release P m i"

definition get_ids_used_host :: "hostinfo provider \<Rightarrow> hostinfo slotmem \<Rightarrow> int list" where
  "get_ids_used_host P m = get_ids_used P h_id m"

definition get_max_size_host :: "hostinfo provider \<Rightarrow> hostinfo slotmem \<Rightarrow> nat" where
  "get_max_size_host P m = num_slots P m"

abbreviation host_put ::
  "hostinfo provider \<Rightarrow> apr_time \<Rightarrow> hostinfo slotmem \<Rightarrow> hostinfo \<Rightarrow> apr_status \<times> hostinfo slotmem" where
  "host_put P now m x \<equiv> (case insert_update_host P m x now of (rv, m', _) \<Rightarrow> (rv, m'))"



section \<open>The table keeps the contract\<close>

lemma update_host_search:
  "update_host now ou (Data x) =
     (if host_key ou = host_key x then (APR_EEXIST, host_merge now x ou, Data (x\<lparr>h_id := h_id ou\<rparr>)) else (APR_SUCCESS, ou, Data x))"
  by (auto simp: update_host_def table_defs)

locale host_table = slotmem_provider P
  for P :: "hostinfo provider" +
  fixes now :: apr_time
begin

lemmas doall_update_host =
  doall_search [where f = "update_host now" and d = "Data x" and Q = "\<lambda>ou. host_key ou = host_key x"
    and g = "host_merge now x" and h = "\<lambda>ou. Data (x\<lparr>h_id := h_id ou\<rparr>)" for x, OF _ update_host_search]

lemma insert_update_host_hit:
  assumes "wf_slotmem m" and "first_used (\<lambda>y. host_key y = host_key x) m = Some i"
  shows "insert_update_host P m x now =
     (APR_SUCCESS, store m (int i) (host_merge now x (items m ! i)), x\<lparr>h_id := h_id (items m ! i)\<rparr>)"
  using assms(2) by (simp add: insert_update_host_def doall_update_host [OF assms(1)])

lemma insert_update_host_miss:
  assumes "wf_slotmem m" and "first_used (\<lambda>y. host_key y = host_key x) m = None"
  shows "insert_update_host P m x now =
     (case grab_store P m (host_fresh now x) of (rv, m') \<Rightarrow> (rv, m', x))"
  using assms(2) by (simp add: insert_update_host_def doall_update_host [OF assms(1)])

lemma host_put_miss:
  assumes wf: "wf_slotmem m" and none: "first_used (\<lambda>y. host_key y = host_key x) m = None"
  shows "host_put P now m x = grab_store P m (host_fresh now x)"
  by (simp add: insert_update_host_miss [OF wf none] split: prod.splits)

end

sublocale host_table \<subseteq> keyed_map P h_id host_key "host_merge now" "host_fresh now" "host_put P now"
proof
  fix m :: "hostinfo slotmem" and x rv m'
  assume wf: "wf_slotmem m" and none: "first_used (\<lambda>y. host_key y = host_key x) m = None"
    and p: "host_put P now m x = (rv, m')"
  show "(rv \<noteq> APR_SUCCESS \<and> m' = m) \<or>
     (rv = APR_SUCCESS \<and> (\<exists>i < length (inuse m).
        m' = m\<lparr>items := (items m)[i := host_fresh now x i], inuse := (inuse m)[i := True]\<rparr>))"
    using host_put_miss [OF wf none] p grab_store_cases [OF wf, of "host_fresh now x" rv m'] by simp
qed (simp_all add: insert_update_host_hit host_put_miss, simp_all add: table_defs)

interpretation hosts: host_table "shm_provider z" now for z now
  by unfold_locales

lemma get_ids_used_host_eq:
  "slotmem_provider P \<Longrightarrow> table_ok h_id host_key m \<Longrightarrow>
   get_ids_used_host P m = map int (used_slots m)"
  by (auto simp: get_ids_used_host_def slotmem_provider.get_ids_used_eq table_ok_def ids_ok_def set_used_slots)

end
