(* ===== verification/Context_Table.thy ===== *)
theory Context_Table
  imports Slotmem
begin

text \<open>
  The context table, \<open>mod_manager/context.c\<close> and \<open>include/context.h\<close>: one record per web
  application of a virtual host of a node. An update changes status and time only; the
  request counter belongs to the proxy side and is kept.
\<close>

text \<open>Status of an application (\<open>context.h\<close>); \<open>REMOVE\<close> is never stored.\<close>

abbreviation (input) ENABLED :: int where "ENABLED \<equiv> 1"
abbreviation (input) DISABLED :: int where "DISABLED \<equiv> 2"
abbreviation (input) STOPPED :: int where "STOPPED \<equiv> 3"
abbreviation (input) REMOVE :: int where "REMOVE \<equiv> 4"

record contextinfo =
  c_id :: int
  c_context :: string
  c_vhost :: int
  c_node :: int
  c_status :: int
  c_nbrequests :: int
  c_updatetime :: apr_time

definition context_key :: "contextinfo \<Rightarrow> string \<times> int \<times> int" where
  [table_defs]: "context_key x = (c_context x, c_vhost x, c_node x)"

section \<open>Operations\<close>

definition create_attach_mem_context ::
  "contextinfo provider \<Rightarrow> string \<Rightarrow> nat \<Rightarrow> int \<Rightarrow> bool \<Rightarrow> contextinfo mem_t option" where
  "create_attach_mem_context P string n type cr = create_attach_mem P string ''.contexts'' n type cr"

definition get_mem_context :: "contextinfo provider \<Rightarrow> string \<Rightarrow> nat \<Rightarrow> contextinfo mem_t option" where
  "get_mem_context P string n = create_attach_mem_context P string n 0 False"

definition create_mem_context :: "contextinfo provider \<Rightarrow> string \<Rightarrow> nat \<Rightarrow> int \<Rightarrow> contextinfo mem_t option" where
  "create_mem_context P string n persist = create_attach_mem_context P string n persist True"

text \<open>What the update callback leaves in the slot, and what an insertion stores.\<close>

definition context_merge :: "apr_time \<Rightarrow> contextinfo \<Rightarrow> contextinfo \<Rightarrow> contextinfo" where
  [table_defs]: "context_merge now x ou = ou\<lparr>c_status := c_status x, c_updatetime := apr_time_sec now\<rparr>"

definition context_fresh :: "apr_time \<Rightarrow> contextinfo \<Rightarrow> nat \<Rightarrow> contextinfo" where
  [table_defs]: "context_fresh now x i = x\<lparr>c_id := int i, c_nbrequests := 0, c_updatetime := apr_time_sec now\<rparr>"

definition update_context :: "apr_time \<Rightarrow> contextinfo callback" where
  "update_context now ou d =
     (case d of
        Data x \<Rightarrow>
          (if c_context x = c_context ou \<and> c_vhost x = c_vhost ou \<and> c_node x = c_node ou
           then (APR_EEXIST, ou\<lparr>c_status := c_status x, c_updatetime := apr_time_sec now\<rparr>, d)
           else (APR_SUCCESS, ou, d))
      | _ \<Rightarrow> (UB, ou, d))"

text \<open>
  The caller's record is returned too: the update callback writes the slot's \<open>id\<close> into it.
\<close>

definition insert_update_context ::
  "contextinfo provider \<Rightarrow> contextinfo slotmem \<Rightarrow> contextinfo \<Rightarrow> apr_time \<Rightarrow> apr_status \<times> contextinfo slotmem \<times> contextinfo" where
  "insert_update_context P m x now =
     (case doall P m (update_context now) (Data x) of (rv, m1, d) \<Rightarrow>
        let x' = (case d of Data y \<Rightarrow> y | _ \<Rightarrow> x) in
        if rv = APR_EEXIST then (APR_SUCCESS, m1, x')
        else (case grab_store P m1 (context_fresh now x') of (rv', m2) \<Rightarrow> (rv', m2, x')))"

definition loc_read_context :: "contextinfo callback" where
  "loc_read_context ou d =
     (case d of
        Data x \<Rightarrow>
          (if c_context x = c_context ou \<and> c_vhost x = c_vhost ou \<and> c_node ou = c_node x
           then (APR_EEXIST, ou, Data (x\<lparr>c_id := c_id ou\<rparr>))
           else (APR_SUCCESS, ou, d))
      | _ \<Rightarrow> (UB, ou, d))"

definition read_context :: "contextinfo provider \<Rightarrow> contextinfo slotmem \<Rightarrow> contextinfo \<Rightarrow> int option \<times> contextinfo" where
  "read_context P m x =
     (let (found, x') =
            (if c_id x = 0 then
               (case doall P m loc_read_context (Data x) of
                  (rv, _, Data y) \<Rightarrow> (rv = APR_EEXIST, y)
                | _ \<Rightarrow> (False, x))
             else (True, x))
      in if \<not> found then (None, x')
         else if dptr P m (c_id x') = APR_SUCCESS then (Some (c_id x'), x')
         else (None, x'))"

definition get_context :: "contextinfo provider \<Rightarrow> contextinfo slotmem \<Rightarrow> int \<Rightarrow> apr_status" where
  "get_context P m i = dptr P m i"

definition remove_context :: "contextinfo provider \<Rightarrow> contextinfo slotmem \<Rightarrow> int \<Rightarrow> apr_status \<times> contextinfo slotmem" where
  "remove_context P m i = release P m i"

definition get_ids_used_context :: "contextinfo provider \<Rightarrow> contextinfo slotmem \<Rightarrow> int list" where
  "get_ids_used_context P m = get_ids_used P c_id m"

definition get_max_size_context :: "contextinfo provider \<Rightarrow> contextinfo slotmem \<Rightarrow> nat" where
  "get_max_size_context P m = num_slots P m"

abbreviation context_put ::
  "contextinfo provider \<Rightarrow> apr_time \<Rightarrow> contextinfo slotmem \<Rightarrow> contextinfo \<Rightarrow> apr_status \<times> contextinfo slotmem" where
  "context_put P now m x \<equiv> (case insert_update_context P m x now of (rv, m', _) \<Rightarrow> (rv, m'))"



section \<open>The table keeps the contract\<close>

lemma update_context_search:
  "update_context now ou (Data x) =
     (if context_key ou = context_key x then (APR_EEXIST, context_merge now x ou, Data x) else (APR_SUCCESS, ou, Data x))"
  by (auto simp: update_context_def table_defs)

locale context_table = slotmem_provider P
  for P :: "contextinfo provider" +
  fixes now :: apr_time
begin

lemmas doall_update_context =
  doall_search [where f = "update_context now" and d = "Data x" and Q = "\<lambda>ou. context_key ou = context_key x"
    and g = "context_merge now x" and h = "\<lambda>ou. Data x" for x, OF _ update_context_search]

lemma insert_update_context_hit:
  assumes "wf_slotmem m" and "first_used (\<lambda>y. context_key y = context_key x) m = Some i"
  shows "insert_update_context P m x now =
     (APR_SUCCESS, store m (int i) (context_merge now x (items m ! i)), x)"
  using assms(2) by (simp add: insert_update_context_def doall_update_context [OF assms(1)])

lemma insert_update_context_miss:
  assumes "wf_slotmem m" and "first_used (\<lambda>y. context_key y = context_key x) m = None"
  shows "insert_update_context P m x now =
     (case grab_store P m (context_fresh now x) of (rv, m') \<Rightarrow> (rv, m', x))"
  using assms(2) by (simp add: insert_update_context_def doall_update_context [OF assms(1)])

lemma context_put_miss:
  assumes wf: "wf_slotmem m" and none: "first_used (\<lambda>y. context_key y = context_key x) m = None"
  shows "context_put P now m x = grab_store P m (context_fresh now x)"
  by (simp add: insert_update_context_miss [OF wf none] split: prod.splits)

end

sublocale context_table \<subseteq> keyed_map P c_id context_key "context_merge now" "context_fresh now" "context_put P now"
proof
  fix m :: "contextinfo slotmem" and x rv m'
  assume wf: "wf_slotmem m" and none: "first_used (\<lambda>y. context_key y = context_key x) m = None"
    and p: "context_put P now m x = (rv, m')"
  show "(rv \<noteq> APR_SUCCESS \<and> m' = m) \<or>
     (rv = APR_SUCCESS \<and> (\<exists>i < length (inuse m).
        m' = m\<lparr>items := (items m)[i := context_fresh now x i], inuse := (inuse m)[i := True]\<rparr>))"
    using context_put_miss [OF wf none] p grab_store_cases [OF wf, of "context_fresh now x" rv m'] by simp
qed (simp_all add: insert_update_context_hit context_put_miss, simp_all add: table_defs)

interpretation contexts: context_table "shm_provider z" now for z now
  by unfold_locales

lemma get_ids_used_context_eq:
  "slotmem_provider P \<Longrightarrow> table_ok c_id context_key m \<Longrightarrow>
   get_ids_used_context P m = map int (used_slots m)"
  by (auto simp: get_ids_used_context_def slotmem_provider.get_ids_used_eq table_ok_def ids_ok_def set_used_slots)

end
