(* ===== verification/Balancer_Table.thy ===== *)
theory Balancer_Table
  imports Slotmem
begin

text \<open>
  The balancer table, \<open>mod_manager/balancer.c\<close> and \<open>include/balancer.h\<close>: one record per
  balancer name with its session stickiness and retry settings.
\<close>

record balancerinfo =
  b_id :: int
  b_balancer :: string
  StickySession :: int
  StickySessionCookie :: string
  StickySessionPath :: string
  StickySessionRemove :: int
  StickySessionForce :: int
  b_Timeout :: int
  Maxattempts :: int
  b_updatetime :: apr_time

definition balancer_key :: "balancerinfo \<Rightarrow> string" where
  [table_defs]: "balancer_key x = b_balancer x"

section \<open>Operations\<close>

definition create_attach_mem_balancer ::
  "balancerinfo provider \<Rightarrow> string \<Rightarrow> nat \<Rightarrow> int \<Rightarrow> bool \<Rightarrow> balancerinfo mem_t option" where
  "create_attach_mem_balancer P string n type cr = create_attach_mem P string ''.balancers'' n type cr"

definition get_mem_balancer :: "balancerinfo provider \<Rightarrow> string \<Rightarrow> nat \<Rightarrow> balancerinfo mem_t option" where
  "get_mem_balancer P string n = create_attach_mem_balancer P string n 0 False"

definition create_mem_balancer :: "balancerinfo provider \<Rightarrow> string \<Rightarrow> nat \<Rightarrow> int \<Rightarrow> balancerinfo mem_t option" where
  "create_mem_balancer P string n persist = create_attach_mem_balancer P string n persist True"

text \<open>What the update callback leaves in the slot, and what an insertion stores.\<close>

definition balancer_merge :: "apr_time \<Rightarrow> balancerinfo \<Rightarrow> balancerinfo \<Rightarrow> balancerinfo" where
  [table_defs]: "balancer_merge now x ou = x\<lparr>b_id := b_id ou, b_updatetime := apr_time_sec now\<rparr>"

definition balancer_fresh :: "apr_time \<Rightarrow> balancerinfo \<Rightarrow> nat \<Rightarrow> balancerinfo" where
  [table_defs]: "balancer_fresh now x i = x\<lparr>b_id := int i, b_updatetime := apr_time_sec now\<rparr>"

definition update_balancer :: "apr_time \<Rightarrow> balancerinfo callback" where
  "update_balancer now ou d =
     (case d of
        Data x \<Rightarrow>
          (if b_balancer x = b_balancer ou
           then (APR_EEXIST, x\<lparr>b_id := b_id ou, b_updatetime := apr_time_sec now\<rparr>, Data (x\<lparr>b_id := b_id ou\<rparr>))
           else (APR_SUCCESS, ou, d))
      | _ \<Rightarrow> (UB, ou, d))"

text \<open>
  The caller's record is returned too: the update callback writes the slot's \<open>id\<close> into it.
\<close>

definition insert_update_balancer ::
  "balancerinfo provider \<Rightarrow> balancerinfo slotmem \<Rightarrow> balancerinfo \<Rightarrow> apr_time \<Rightarrow> apr_status \<times> balancerinfo slotmem \<times> balancerinfo" where
  "insert_update_balancer P m x now =
     (case doall P m (update_balancer now) (Data x) of (rv, m1, d) \<Rightarrow>
        let x' = (case d of Data y \<Rightarrow> y | _ \<Rightarrow> x) in
        if rv = APR_EEXIST then (APR_SUCCESS, m1, x')
        else (case grab_store P m1 (balancer_fresh now x') of (rv', m2) \<Rightarrow> (rv', m2, x')))"

definition loc_read_balancer :: "balancerinfo callback" where
  "loc_read_balancer ou d =
     (case d of
        Data x \<Rightarrow>
          (if b_balancer x = b_balancer ou
           then (APR_EEXIST, ou, Data (x\<lparr>b_id := b_id ou\<rparr>))
           else (APR_SUCCESS, ou, d))
      | _ \<Rightarrow> (UB, ou, d))"

definition read_balancer :: "balancerinfo provider \<Rightarrow> balancerinfo slotmem \<Rightarrow> balancerinfo \<Rightarrow> int option \<times> balancerinfo" where
  "read_balancer P m x =
     (let (found, x') =
            (if b_id x = 0 then
               (case doall P m loc_read_balancer (Data x) of
                  (rv, _, Data y) \<Rightarrow> (rv = APR_EEXIST, y)
                | _ \<Rightarrow> (False, x))
             else (True, x))
      in if \<not> found then (None, x')
         else if dptr P m (b_id x') = APR_SUCCESS then (Some (b_id x'), x')
         else (None, x'))"

definition get_balancer :: "balancerinfo provider \<Rightarrow> balancerinfo slotmem \<Rightarrow> int \<Rightarrow> apr_status" where
  "get_balancer P m i = dptr P m i"

text \<open>
  With \<open>id\<close> 0 the source hands \<open>doall\<close> the address of its pointer variable (\<open>&ou\<close>) where the
  callback expects the record, which the model marks \<open>PtrPtr\<close>.
\<close>

definition remove_balancer :: "balancerinfo provider \<Rightarrow> balancerinfo slotmem \<Rightarrow> balancerinfo \<Rightarrow> apr_status \<times> balancerinfo slotmem" where
  "remove_balancer P m x =
     (if b_id x \<noteq> 0 then release P m (b_id x)
      else (case doall P m loc_read_balancer PtrPtr of (rv, m', _) \<Rightarrow>
              if rv = APR_EEXIST then release P m' (b_id x) else (rv, m')))"

definition get_ids_used_balancer :: "balancerinfo provider \<Rightarrow> balancerinfo slotmem \<Rightarrow> int list" where
  "get_ids_used_balancer P m = get_ids_used P b_id m"

definition get_max_size_balancer :: "balancerinfo provider \<Rightarrow> balancerinfo slotmem \<Rightarrow> nat" where
  "get_max_size_balancer P m = num_slots P m"

abbreviation balancer_put ::
  "balancerinfo provider \<Rightarrow> apr_time \<Rightarrow> balancerinfo slotmem \<Rightarrow> balancerinfo \<Rightarrow> apr_status \<times> balancerinfo slotmem" where
  "balancer_put P now m x \<equiv> (case insert_update_balancer P m x now of (rv, m', _) \<Rightarrow> (rv, m'))"

text \<open>The health-check parameter names of \<open>ProxyHCTemplate\<close> in the balancer manager's form.\<close>

definition translate_balancer_params :: "string \<Rightarrow> string option" where
  "translate_balancer_params param =
     (if strcasecmp0 param ''hcinterval'' then Some ''w_hi''
      else if strcasecmp0 param ''hcpasses'' then Some ''w_hp''
      else if strcasecmp0 param ''hcfails'' then Some ''w_hf''
      else if strcasecmp0 param ''hcmethod'' then Some ''w_hm''
      else if strcasecmp0 param ''hcuri'' then Some ''w_hu''
      else if strcasecmp0 param ''hcexpr'' then Some ''w_he''
      else None)"


section \<open>The table keeps the contract\<close>

lemma update_balancer_search:
  "update_balancer now ou (Data x) =
     (if balancer_key ou = balancer_key x then (APR_EEXIST, balancer_merge now x ou, Data (x\<lparr>b_id := b_id ou\<rparr>)) else (APR_SUCCESS, ou, Data x))"
  by (auto simp: update_balancer_def table_defs)

locale balancer_table = slotmem_provider P
  for P :: "balancerinfo provider" +
  fixes now :: apr_time
begin

lemmas doall_update_balancer =
  doall_search [where f = "update_balancer now" and d = "Data x" and Q = "\<lambda>ou. balancer_key ou = balancer_key x"
    and g = "balancer_merge now x" and h = "\<lambda>ou. Data (x\<lparr>b_id := b_id ou\<rparr>)" for x, OF _ update_balancer_search]

lemma insert_update_balancer_hit:
  assumes "wf_slotmem m" and "first_used (\<lambda>y. balancer_key y = balancer_key x) m = Some i"
  shows "insert_update_balancer P m x now =
     (APR_SUCCESS, store m (int i) (balancer_merge now x (items m ! i)), x\<lparr>b_id := b_id (items m ! i)\<rparr>)"
  using assms(2) by (simp add: insert_update_balancer_def doall_update_balancer [OF assms(1)])

lemma insert_update_balancer_miss:
  assumes "wf_slotmem m" and "first_used (\<lambda>y. balancer_key y = balancer_key x) m = None"
  shows "insert_update_balancer P m x now =
     (case grab_store P m (balancer_fresh now x) of (rv, m') \<Rightarrow> (rv, m', x))"
  using assms(2) by (simp add: insert_update_balancer_def doall_update_balancer [OF assms(1)])

lemma balancer_put_miss:
  assumes wf: "wf_slotmem m" and none: "first_used (\<lambda>y. balancer_key y = balancer_key x) m = None"
  shows "balancer_put P now m x = grab_store P m (balancer_fresh now x)"
  by (simp add: insert_update_balancer_miss [OF wf none] split: prod.splits)

end

sublocale balancer_table \<subseteq> keyed_map P b_id balancer_key "balancer_merge now" "balancer_fresh now" "balancer_put P now"
proof
  fix m :: "balancerinfo slotmem" and x rv m'
  assume wf: "wf_slotmem m" and none: "first_used (\<lambda>y. balancer_key y = balancer_key x) m = None"
    and p: "balancer_put P now m x = (rv, m')"
  show "(rv \<noteq> APR_SUCCESS \<and> m' = m) \<or>
     (rv = APR_SUCCESS \<and> (\<exists>i < length (inuse m).
        m' = m\<lparr>items := (items m)[i := balancer_fresh now x i], inuse := (inuse m)[i := True]\<rparr>))"
    using balancer_put_miss [OF wf none] p grab_store_cases [OF wf, of "balancer_fresh now x" rv m'] by simp
qed (simp_all add: insert_update_balancer_hit balancer_put_miss, simp_all add: table_defs)

interpretation balancers: balancer_table "shm_provider z" now for z now
  by unfold_locales

lemma get_ids_used_balancer_eq:
  "slotmem_provider P \<Longrightarrow> table_ok b_id balancer_key m \<Longrightarrow>
   get_ids_used_balancer P m = map int (used_slots m)"
  by (auto simp: get_ids_used_balancer_def slotmem_provider.get_ids_used_eq table_ok_def ids_ok_def set_used_slots)

end
