(* ===== verification/Mcmp_Message.thy ===== *)
theory Mcmp_Message
  imports Node_Table Host_Table Context_Table Balancer_Table
begin

text \<open>
  Decoding of mod_cluster management messages, from \<open>mod_manager/mod_manager.c\<close>: splitting
  the body into tokens (\<open>process_buff\<close>), percent decoding with the screening of unsafe
  characters (\<open>decodeenc\<close>, \<open>mod_manager_hex2c\<close>), comma lists of aliases and contexts
  (\<open>parse_list_to_array_with_checks\<close>, \<open>process_context_alias\<close>), and the interpretation of one
  key and value of a CONFIG message (\<open>process_config_balancer\<close>, \<open>process_config_node\<close> and
  their defaults). Strings are NUL-free; a NUL written into a buffer ends the string there.
\<close>

section \<open>Messages of the module\<close>

abbreviation (input) TYPESYNTAX :: int where "TYPESYNTAX \<equiv> 1"
abbreviation (input) TYPEMEM :: int where "TYPEMEM \<equiv> 2"
abbreviation (input) HOSTALIASZ :: nat where "HOSTALIASZ \<equiv> 255"
abbreviation (input) CONTEXTSZ :: nat where "CONTEXTSZ \<equiv> 80"
abbreviation (input) COOKNAMESZ :: nat where "COOKNAMESZ \<equiv> 30"
abbreviation (input) PATHNAMESZ :: nat where "PATHNAMESZ \<equiv> 30"

definition SMESPAR :: string where
  "SMESPAR = ''SYNTAX: Can'' @ [CHR 0x27] @ ''t parse MCMP message. It might have contained illegal symbols or unknown elements.''"
definition SBALBIG :: string where "SBALBIG = ''SYNTAX: Balancer field too big''"
definition SBAFBIG :: string where "SBAFBIG = ''SYNTAX: A field is too big''"
definition SROUBIG :: string where "SROUBIG = ''SYNTAX: JVMRoute field too big''"
definition SROUBAD :: string where "SROUBAD = ''SYNTAX: JVMRoute can'' @ [CHR 0x27] @ ''t be empty''"
definition SDOMBIG :: string where "SDOMBIG = ''SYNTAX: LBGroup field too big''"
definition SHOSBIG :: string where "SHOSBIG = ''SYNTAX: Host field too big''"
definition SPORBIG :: string where "SPORBIG = ''SYNTAX: Port field too big''"
definition STYPBIG :: string where "STYPBIG = ''SYNTAX: Type field too big''"
definition SALIBIG :: string where "SALIBIG = ''SYNTAX: Alias field too big''"
definition SCONBIG :: string where "SCONBIG = ''SYNTAX: Context field too big''"
definition SFLUBAD :: string where "SFLUBAD = ''SYNTAX: Flushwait field has bad value''"
definition SPNGBAD :: string where "SPNGBAD = ''SYNTAX: Ping field has bad value''"
definition STTLBAD :: string where "STTLBAD = ''SYNTAX: TTL field has bad value''"
definition STIMBAD :: string where "STIMBAD = ''SYNTAX: Timeout field has bad value''"
definition SALIBAD :: string where "SALIBAD = ''SYNTAX: Alias without Context''"
definition SCONBAD :: string where "SCONBAD = ''SYNTAX: Context without Alias''"
definition NOCONAL :: string where "NOCONAL = ''SYNTAX: No Context and Alias in APP command''"
definition SBADFLD :: "string \<Rightarrow> string" where
  "SBADFLD f = ''SYNTAX: Invalid field '' @ [CHR 0x22] @ f @ [CHR 0x22] @ '' in message''"
definition SMISFLD :: string where "SMISFLD = ''SYNTAX: Mandatory field(s) missing in message''"
definition SCMDUNS :: string where "SCMDUNS = ''SYNTAX: Command is not supported''"
definition EMPTYALIAS :: string where "EMPTYALIAS = ''TODO: Empty Alias is not allowed''"
definition EMPTYCONTEXT :: string where "EMPTYCONTEXT = ''TODO: Empty Context is not allowed''"

text \<open>
  What a step of message processing gives: a value, an error with its type and text, or
  \<open>Undefined\<close> where the C code would read through a null pointer or past a buffer.
\<close>

datatype 'a outcome = Value 'a | Failure int string | Undefined

fun bind_outcome :: "'a outcome \<Rightarrow> ('a \<Rightarrow> 'b outcome) \<Rightarrow> 'b outcome" where
  "bind_outcome (Value x) f = f x"
| "bind_outcome (Failure t s) f = Failure t s"
| "bind_outcome Undefined f = Undefined"

lemma bind_outcome_Value: "bind_outcome x f = Value y \<longleftrightarrow> (\<exists>a. x = Value a \<and> f a = Value y)"
  by (cases x) auto

section \<open>Tokens and percent decoding\<close>

definition hex_digit :: "char \<Rightarrow> int" where
  "hex_digit ch =
     (if apr_isdigit ch then int (chr_code ch) - 48
      else if apr_isupper ch then int (chr_code ch) - (65 - 10)
      else int (chr_code ch) - (97 - 10))"

definition mod_manager_hex2c :: "char \<Rightarrow> char \<Rightarrow> int" where
  "mod_manager_hex2c x0 x1 = hex_digit x0 * 16 + hex_digit x1"

text \<open>Characters that \<open>decodeenc\<close> refuses: angle brackets, quotes, CR, LF.\<close>

definition illegal_char :: "char \<Rightarrow> bool" where
  "illegal_char ch \<longleftrightarrow>
     ch = CHR ''<'' \<or> ch = CHR ''>'' \<or> ch = CHR 0x22 \<or> ch = CHR 0x27 \<or> ch = CHR 0x0D \<or> ch = CHR 0x0A"

definition emit_char :: "char \<Rightarrow> string option \<Rightarrow> string option" where
  "emit_char ch rest = (if illegal_char ch then None else map_option ((#) ch) rest)"

fun decode_chars :: "string \<Rightarrow> string option" where
  "decode_chars [] = Some []"
| "decode_chars (c # a # b # cs) =
     (if c = CHR ''%'' \<and> apr_isxdigit a \<and> apr_isxdigit b
      then emit_char (char_of (nat (mod_manager_hex2c a b mod 256))) (decode_chars cs)
      else emit_char c (decode_chars (a # b # cs)))"
| "decode_chars (c # cs) = emit_char c (decode_chars cs)"

text \<open>The decoded bytes overwrite the token in place; a decoded NUL ends it early.\<close>

fun decodeenc :: "string list \<Rightarrow> string list option" where
  "decodeenc [] = Some []"
| "decodeenc (t # ts) =
     (case decode_chars t of
        None \<Rightarrow> None
      | Some u \<Rightarrow> map_option ((#) (truncate_at (CHR 0x00) u)) (decodeenc ts))"

fun split_buff :: "string \<Rightarrow> string list" where
  "split_buff [] = [[]]"
| "split_buff (c # cs) =
     (if c = CHR ''&'' \<or> c = CHR ''='' then [] # split_buff cs
      else (case split_buff cs of t # ts \<Rightarrow> (c # t) # ts | [] \<Rightarrow> [[c]]))"

definition process_buff :: "string \<Rightarrow> string list option" where
  "process_buff buff = decodeenc (split_buff buff)"

section \<open>Scalars\<close>

definition normalize_balancer_name :: "string \<Rightarrow> string" where
  "normalize_balancer_name s = map apr_tolower s"

definition process_boolean_parameter :: "string \<Rightarrow> int \<Rightarrow> bool \<times> int" where
  "process_boolean_parameter val parameter =
     (if strcasecmp0 val ''yes'' \<or> strcasecmp0 val ''on'' then (True, 1)
      else if strcasecmp0 val ''no'' \<or> strcasecmp0 val ''off'' then (True, 0)
      else (False, parameter))"

text \<open>\<open>atoi\<close>: leading space, an optional sign, then digits; no digits give 0.\<close>

fun digits_value :: "int \<Rightarrow> string \<Rightarrow> int" where
  "digits_value acc [] = acc"
| "digits_value acc (c # cs) =
     (if apr_isdigit c then digits_value (acc * 10 + (int (chr_code c) - 48)) cs else acc)"

definition atoi :: "string \<Rightarrow> int" where
  "atoi s = (case dropWhile c_isspace s of
       [] \<Rightarrow> 0
     | c # cs \<Rightarrow> if c = CHR ''-'' then - digits_value 0 cs
                 else if c = CHR ''+'' then digits_value 0 cs
                 else digits_value 0 (c # cs))"

text \<open>Conversion of a 64-bit value to a C \<open>int\<close>.\<close>

definition to_int32 :: "int \<Rightarrow> int" where
  "to_int32 x = sint (word_of_int x :: 32 word)"

section \<open>Comma lists\<close>

text \<open>
  The loop of \<open>parse_list_to_array_with_checks\<close>: \<open>start\<close> is the text from \<open>start\<close> to
  \<open>current\<close>, the list what follows \<open>current\<close>. After a comma both \<open>start\<close> and \<open>current\<close> move
  behind it and the loop then steps \<open>current\<close> once more, so the first character of the next
  element is neither counted nor looked at; at the end of the string that step leaves the
  buffer.
\<close>

datatype list_parse = PList "string list" | PBig | PEmpty | PUndef

fun parse_list :: "nat \<Rightarrow> nat \<Rightarrow> string list \<Rightarrow> string \<Rightarrow> string \<Rightarrow> list_parse" where
  "parse_list len_limit len arr start [] =
     (if len \<ge> len_limit then PBig
      else if len = 0 then PEmpty
      else PList (arr @ [start]))"
| "parse_list len_limit len arr start (c # cs) =
     (if c = CHR '','' then
        (if 0 \<ge> len_limit then PBig
         else (case cs of
                 [] \<Rightarrow> PUndef
               | d # cs' \<Rightarrow> parse_list len_limit 0 (arr @ [start]) [d] cs'))
      else if len + 1 \<ge> len_limit then PBig
      else parse_list len_limit (len + 1) arr (start @ [c]) cs)"

definition parse_list_to_array_with_checks :: "string \<Rightarrow> string list \<Rightarrow> nat \<Rightarrow> list_parse" where
  "parse_list_to_array_with_checks val arr len_limit = parse_list len_limit 0 arr [] val"

definition process_context_alias ::
  "string \<Rightarrow> string option \<Rightarrow> string list \<Rightarrow> string list \<Rightarrow> (string list \<times> string list) outcome" where
  "process_context_alias key val contexts aliases =
     (if strcasecmp0 key ''Alias'' then
        (case val of
           None \<Rightarrow> Undefined
         | Some v \<Rightarrow>
             (case parse_list_to_array_with_checks (map apr_tolower v) aliases HOSTALIASZ of
                PList aliases' \<Rightarrow> Value (contexts, aliases')
              | PBig \<Rightarrow> Failure TYPESYNTAX SALIBIG
              | PEmpty \<Rightarrow> Failure TYPESYNTAX EMPTYALIAS
              | PUndef \<Rightarrow> Undefined))
      else if strcasecmp0 key ''Context'' then
        (case val of
           None \<Rightarrow> Undefined
         | Some v \<Rightarrow>
             (case parse_list_to_array_with_checks v contexts CONTEXTSZ of
                PList contexts' \<Rightarrow> Value (contexts', aliases)
              | PBig \<Rightarrow> Failure TYPESYNTAX SCONBIG
              | PEmpty \<Rightarrow> Failure TYPESYNTAX EMPTYCONTEXT
              | PUndef \<Rightarrow> Undefined))
      else Value (contexts, aliases))"

section \<open>Node and balancer descriptions\<close>

text \<open>The part of the server configuration that message processing reads.\<close>

record mcmp_conf =
  balancername :: "string option"
  ajp_secret :: "string option"
  enable_ws_tunnel :: int
  ws_upgrade_header :: "string option"
  response_field_size :: int

text \<open>
  What httpd's headers define: the size of a route buffer (\<open>PROXY_WORKER_MAX_ROUTE_SIZE\<close>),
  the flush settings, and \<open>ap_timeout_parameter_parse\<close> (a value and its default unit).
\<close>

record httpd =
  JVMROUTESZ :: nat
  PROXY_FLUSH_WAIT :: int
  flush_off :: int
  flush_on :: int
  flush_auto :: int
  ap_timeout_parameter_parse :: "string \<Rightarrow> string \<Rightarrow> apr_time option"

definition default_balancer_name :: "mcmp_conf \<Rightarrow> string" where
  "default_balancer_name mconf =
     (case balancername mconf of
        Some b \<Rightarrow> strcpy_n BALANCERSZ (normalize_balancer_name b)
      | None \<Rightarrow> ''mycluster'')"

definition process_config_balancer_defaults :: "mcmp_conf \<Rightarrow> balancerinfo" where
  "process_config_balancer_defaults mconf =
     \<lparr>b_id = 0, b_balancer = default_balancer_name mconf, StickySession = 1,
      StickySessionCookie = ''JSESSIONID'', StickySessionPath = ''jsessionid'',
      StickySessionRemove = 0, StickySessionForce = 1, b_Timeout = 0, Maxattempts = 1,
      b_updatetime = 0\<rparr>"

definition process_config_node_defaults :: "httpd \<Rightarrow> mcmp_conf \<Rightarrow> nodemess" where
  "process_config_node_defaults H mconf = zero_mess\<lparr>
      n_balancer := default_balancer_name mconf,
      Host := ''localhost'', Port := ''8009'', Type := ''ajp'', Upgrade := [], AJPSecret := [],
      n_reversed := 0, n_remove := 0, flushpackets := flush_off H, flushwait := PROXY_FLUSH_WAIT H,
      n_ping := apr_time_from_sec 10, n_smax := -1, n_ttl := apr_time_from_sec 60, n_timeout := 0,
      n_id := -1, lastcleantry := 0, has_workers := 0\<rparr>"

definition process_config_balancer ::
  "string \<Rightarrow> string \<Rightarrow> balancerinfo \<Rightarrow> nodemess \<Rightarrow> (balancerinfo \<times> nodemess) outcome" where
  "process_config_balancer key val b n =
     (if strcasecmp0 key ''Balancer'' then
        (if length val \<ge> BALANCERSZ then Failure TYPESYNTAX SBALBIG
         else let v = normalize_balancer_name val in
           Value (b\<lparr>b_balancer := strcpy_n BALANCERSZ v\<rparr>, n\<lparr>n_balancer := strcpy_n BALANCERSZ v\<rparr>))
      else if strcasecmp0 key ''StickySession'' then
        Value (b\<lparr>StickySession := snd (process_boolean_parameter val (StickySession b))\<rparr>, n)
      else if strcasecmp0 key ''StickySessionCookie'' then
        (if length val \<ge> COOKNAMESZ then Failure TYPESYNTAX SBAFBIG
         else Value (b\<lparr>StickySessionCookie := val\<rparr>, n))
      else if strcasecmp0 key ''StickySessionPath'' then
        (if length val \<ge> PATHNAMESZ then Failure TYPESYNTAX SBAFBIG
         else Value (b\<lparr>StickySessionPath := val\<rparr>, n))
      else if strcasecmp0 key ''StickySessionRemove'' then
        Value (b\<lparr>StickySessionRemove := snd (process_boolean_parameter val (StickySessionRemove b))\<rparr>, n)
      else if strcasecmp0 key ''StickySessionForce'' then
        Value (b\<lparr>StickySessionForce := snd (process_boolean_parameter val (StickySessionForce b))\<rparr>, n)
      else if strcasecmp0 key ''WaitWorker'' then
        Value (b\<lparr>b_Timeout := to_int32 (apr_time_from_sec (atoi val))\<rparr>, n)
      else if strcasecmp0 key ''Maxattempts'' then Value (b\<lparr>Maxattempts := atoi val\<rparr>, n)
      else Value (b, n))"

text \<open>Removal of a \<open>%zone\<close> from a bracketed address; \<open>flag\<close> stays set once a zone began.\<close>

fun strip_zone :: "bool \<Rightarrow> string \<Rightarrow> string" where
  "strip_zone flag [] = []"
| "strip_zone flag (c # cs) =
     (if (c = CHR ''%'' \<or> flag) \<and> c \<noteq> CHR '']'' then strip_zone True cs
      else c # strip_zone flag cs)"

definition config_host :: "string \<Rightarrow> string" where
  "config_host val = (case val of c # _ \<Rightarrow> if c = CHR ''['' then strip_zone False val else val | [] \<Rightarrow> val)"

definition process_config_node ::
  "httpd \<Rightarrow> string \<Rightarrow> string \<Rightarrow> nodemess \<Rightarrow> nodemess outcome" where
  "process_config_node H key val n =
     (if strcasecmp0 key ''JVMRoute'' then
        (if length val \<ge> JVMROUTESZ H then Failure TYPESYNTAX SROUBIG else Value (n\<lparr>JVMRoute := val\<rparr>))
      else if strcasecmp0 key ''Domain'' then
        (if length val \<ge> DOMAINNDSZ then Failure TYPESYNTAX SDOMBIG else Value (n\<lparr>Domain := val\<rparr>))
      else if strcasecmp0 key ''Host'' then
        (if length val \<ge> HOSTNODESZ then Failure TYPESYNTAX SHOSBIG else Value (n\<lparr>Host := config_host val\<rparr>))
      else if strcasecmp0 key ''Port'' then
        (if length val \<ge> PORTNODESZ then Failure TYPESYNTAX SPORBIG else Value (n\<lparr>Port := val\<rparr>))
      else if strcasecmp0 key ''Type'' then
        (if length val \<ge> SCHEMENDSZ then Failure TYPESYNTAX STYPBIG else Value (n\<lparr>Type := val\<rparr>))
      else if strcasecmp0 key ''Reversed'' then
        Value (n\<lparr>n_reversed := snd (process_boolean_parameter val (n_reversed n))\<rparr>)
      else if strcasecmp0 key ''flushpackets'' then
        (case process_boolean_parameter val (flushpackets n) of
           (ok, p) \<Rightarrow> Value (n\<lparr>flushpackets := (if ok then p else if strcasecmp0 val ''auto'' then flush_auto H else p)\<rparr>))
      else if strcasecmp0 key ''flushwait'' then
        (case ap_timeout_parameter_parse H val ''ms'' of None \<Rightarrow> Failure TYPESYNTAX SFLUBAD
         | Some t \<Rightarrow> Value (n\<lparr>flushwait := to_int32 t\<rparr>))
      else if strcasecmp0 key ''ping'' then
        (case ap_timeout_parameter_parse H val ''s'' of None \<Rightarrow> Failure TYPESYNTAX SPNGBAD | Some t \<Rightarrow> Value (n\<lparr>n_ping := t\<rparr>))
      else if strcasecmp0 key ''smax'' then Value (n\<lparr>n_smax := atoi val\<rparr>)
      else if strcasecmp0 key ''ttl'' then
        (case ap_timeout_parameter_parse H val ''s'' of None \<Rightarrow> Failure TYPESYNTAX STTLBAD | Some t \<Rightarrow> Value (n\<lparr>n_ttl := t\<rparr>))
      else if strcasecmp0 key ''Timeout'' then
        (case ap_timeout_parameter_parse H val ''s'' of None \<Rightarrow> Failure TYPESYNTAX STIMBAD | Some t \<Rightarrow> Value (n\<lparr>n_timeout := t\<rparr>))
      else Value n)"

section \<open>Specifications\<close>

text \<open>The encoder a peer uses: every byte of a key or value as a percent escape.\<close>

definition hex_char :: "nat \<Rightarrow> char" where
  "hex_char n = (if n < 10 then char_of (48 + n) else char_of (55 + n))"

definition percent_encode :: "string \<Rightarrow> string" where
  "percent_encode s = concat (map (\<lambda>c. [CHR ''%'', hex_char (chr_code c div 16), hex_char (chr_code c mod 16)]) s)"

fun encode_msg :: "(string \<times> string) list \<Rightarrow> string" where
  "encode_msg [] = []"
| "encode_msg [(k, v)] = percent_encode k @ ''='' @ percent_encode v"
| "encode_msg ((k, v) # kvs) = percent_encode k @ ''='' @ percent_encode v @ ''&'' @ encode_msg kvs"

definition legal_text :: "string \<Rightarrow> bool" where
  "legal_text s \<longleftrightarrow> (\<forall>c \<in> set s. \<not> illegal_char c \<and> c \<noteq> CHR 0x00)"

fun comma_join :: "string list \<Rightarrow> string" where
  "comma_join [] = []"
| "comma_join [e] = e"
| "comma_join (e # es) = e @ CHR '','' # comma_join es"

text \<open>Every text field of a node description fits its buffer with the terminating NUL.\<close>

definition node_fits :: "httpd \<Rightarrow> nodemess \<Rightarrow> bool" where
  "node_fits H n \<longleftrightarrow>
     length (n_balancer n) < BALANCERSZ \<and> length (JVMRoute n) < JVMROUTESZ H \<and>
     length (Domain n) < DOMAINNDSZ \<and> length (Host n) < HOSTNODESZ \<and> length (Port n) < PORTNODESZ \<and>
     length (Type n) < SCHEMENDSZ \<and> length (Upgrade n) < SCHEMENDSZ \<and> length (AJPSecret n) < AJPSECRETSZ"

definition balancer_fits :: "balancerinfo \<Rightarrow> bool" where
  "balancer_fits b \<longleftrightarrow>
     length (b_balancer b) < BALANCERSZ \<and> length (StickySessionCookie b) < COOKNAMESZ \<and>
     length (StickySessionPath b) < PATHNAMESZ"

section \<open>Decoding\<close>

lemma decode_chars_legal: "decode_chars s = Some t \<Longrightarrow> c \<in> set t \<Longrightarrow> \<not> illegal_char c"
  by (induction s arbitrary: t rule: decode_chars.induct)
    (auto simp: emit_char_def split: if_splits)

lemma decode_chars_shorter: "decode_chars s = Some t \<Longrightarrow> length t \<le> length s"
proof (induction s arbitrary: t rule: decode_chars.induct)
  case (2 c a b cs)
  then show ?case by (fastforce simp: emit_char_def split: if_splits)
qed (auto simp: emit_char_def split: if_splits)

lemma decodeenc_legal:
  "decodeenc ts = Some us \<Longrightarrow> u \<in> set us \<Longrightarrow> legal_text u"
proof (induction ts arbitrary: us)
  case (Cons t ts)
  then obtain w ws where w: "decode_chars t = Some w" and ws: "decodeenc ts = Some ws"
    and us: "us = truncate_at (CHR 0x00) w # ws"
    by (auto split: option.splits)
  have "legal_text (truncate_at (CHR 0x00) w)"
    using decode_chars_legal [OF w] truncate_at_subset [of "CHR 0x00" w]
      truncate_at_no [of "CHR 0x00" w]
    unfolding legal_text_def by blast
  with Cons us ws show ?case by auto
qed simp

lemma decodeenc_length: "decodeenc ts = Some us \<Longrightarrow> length us = length ts"
  by (induction ts arbitrary: us) (auto split: option.splits)

lemma split_buff_length:
  "length (split_buff s) = 1 + length (filter (\<lambda>c. c = CHR ''&'' \<or> c = CHR ''='') s)"
proof (induction s)
  case (Cons c cs)
  then show ?case by (cases "split_buff cs") auto
qed simp

lemma split_buff_plain:
  "CHR ''&'' \<notin> set xs \<Longrightarrow> CHR ''='' \<notin> set xs \<Longrightarrow> split_buff xs = [xs]"
  by (induction xs) auto

lemma split_buff_sep:
  "CHR ''&'' \<notin> set xs \<Longrightarrow> CHR ''='' \<notin> set xs \<Longrightarrow> c = CHR ''&'' \<or> c = CHR ''='' \<Longrightarrow>
   split_buff (xs @ c # ys) = xs # split_buff ys"
  by (induction xs) auto

text \<open>A hexadecimal digit written by the encoder is recognised and has its value.\<close>

lemma hex_char_code: "n < 16 \<Longrightarrow> chr_code (hex_char n) = (if n < 10 then 48 + n else 55 + n)"
  by (simp add: hex_char_def)

lemma hex_char_xdigit: "n < 16 \<Longrightarrow> apr_isxdigit (hex_char n)"
  by (simp add: apr_isxdigit_def apr_isdigit_def hex_char_code)

lemma hex_digit_hex_char: "n < 16 \<Longrightarrow> hex_digit (hex_char n) = int n"
  by (simp add: hex_digit_def apr_isdigit_def apr_isupper_def hex_char_code)

lemma hex2c_hex_char:
  "n < 256 \<Longrightarrow> mod_manager_hex2c (hex_char (n div 16)) (hex_char (n mod 16)) = int n"
proof -
  assume "n < 256"
  then have "n div 16 < 16" by simp
  then show ?thesis
    by (simp add: mod_manager_hex2c_def hex_digit_hex_char flip: of_nat_mult of_nat_add) presburger
qed

lemma chr_code_less: "chr_code c < 256"
  by (rule nat_of_char_less_256)

lemma decode_percent:
  "decode_chars (CHR ''%'' # hex_char (chr_code c div 16) # hex_char (chr_code c mod 16) # cs)
     = emit_char c (decode_chars cs)"
proof -
  have "chr_code c div 16 < 16" using chr_code_less [of c] by (simp add: div_less_iff_less_mult)
  then show ?thesis
    using hex2c_hex_char [OF chr_code_less [of c]] chr_code_less [of c]
    by (simp add: hex_char_xdigit)
qed

lemma decode_encode: "legal_text s \<Longrightarrow> decode_chars (percent_encode s) = Some s"
proof (induction s)
  case (Cons c cs)
  then have "\<not> illegal_char c" and "legal_text cs" by (simp_all add: legal_text_def)
  with Cons.IH show ?case
    by (simp add: percent_encode_def decode_percent emit_char_def del: decode_chars.simps)
qed (simp add: percent_encode_def)

lemma percent_encode_chars:
  assumes "x \<in> set (percent_encode s)"
  shows "x \<noteq> CHR ''&'' \<and> x \<noteq> CHR ''=''"
proof -
  have nib: "hex_char n \<noteq> CHR ''&'' \<and> hex_char n \<noteq> CHR ''=''" if "n < 16" for n
    using hex_char_code [OF that] that by (auto split: if_splits)
  from assms obtain c where
    "x = CHR ''%'' \<or> x = hex_char (chr_code c div 16) \<or> x = hex_char (chr_code c mod 16)"
    by (auto simp: percent_encode_def split: if_splits)
  moreover have "chr_code c div 16 < 16"
    using chr_code_less [of c] by (simp add: div_less_iff_less_mult)
  ultimately show ?thesis using nib [of "chr_code c div 16"] nib [of "chr_code c mod 16"] by auto
qed

lemma truncate_legal: "legal_text s \<Longrightarrow> truncate_at (CHR 0x00) s = s"
  by (simp add: truncate_at_def legal_text_def takeWhile_eq_all_conv)

lemma split_encode_msg:
  assumes "kvs \<noteq> []"
  shows "split_buff (encode_msg kvs) = concat (map (\<lambda>(k, v). [percent_encode k, percent_encode v]) kvs)"
  using assms
proof (induction kvs rule: encode_msg.induct)
  case (2 k v)
  have "CHR ''&'' \<notin> set (percent_encode s)" "CHR ''='' \<notin> set (percent_encode s)" for s
    using percent_encode_chars by blast+
  then show ?case by (simp add: split_buff_sep split_buff_plain)
next
  case (3 k v kv kvs)
  have "CHR ''&'' \<notin> set (percent_encode s)" "CHR ''='' \<notin> set (percent_encode s)" for s
    using percent_encode_chars by blast+
  with 3 show ?case by (cases kv) (simp add: split_buff_sep)
qed simp

lemma decodeenc_encoded:
  "(\<forall>(k, v) \<in> set kvs. legal_text k \<and> legal_text v) \<Longrightarrow>
   decodeenc (concat (map (\<lambda>(k, v). [percent_encode k, percent_encode v]) kvs))
     = Some (concat (map (\<lambda>(k, v). [k, v]) kvs))"
  by (induction kvs) (auto simp: decode_encode truncate_legal)

section \<open>Comma lists\<close>

lemma parse_list_last:
  "CHR '','' \<notin> set cs \<Longrightarrow> len < L \<Longrightarrow>
   parse_list L len arr start cs =
     (if len + length cs \<ge> L then PBig else if len + length cs = 0 then PEmpty
      else PList (arr @ [start @ cs]))"
  by (induction cs arbitrary: len start) auto

lemma parse_list_comma:
  "CHR '','' \<notin> set cs \<Longrightarrow> len + length cs < L \<Longrightarrow>
   parse_list L len arr start (cs @ CHR '','' # d # rest) = parse_list L 0 (arr @ [start @ cs]) [d] rest"
  by (induction cs arbitrary: len start) auto

lemma parse_list_trailing:
  "CHR '','' \<notin> set cs \<Longrightarrow> len + length cs < L \<Longrightarrow> parse_list L len arr start (cs @ [CHR '','']) = PUndef"
  by (induction cs arbitrary: len start) auto

lemma parse_list_rest:
  assumes "es \<noteq> []" and "\<forall>e \<in> set es. CHR '','' \<notin> set e \<and> 2 \<le> length e \<and> length e \<le> L"
    and "comma_join es = d # cs" and "0 < L"
  shows "parse_list L 0 arr [d] cs = PList (arr @ es)"
  using assms
proof (induction es arbitrary: arr d cs rule: comma_join.induct)
  case (2 e)
  then show ?case by (auto simp: parse_list_last)
next
  case (3 e e' es)
  obtain e1 where e: "e = d # e1" using 3 by (cases e) auto
  obtain d' cs' where j: "comma_join (e' # es) = d' # cs'"
    using 3 by (cases "comma_join (e' # es)"; cases es; cases e') auto
  have "cs = e1 @ CHR '','' # d' # cs'" using 3 e j by simp
  then have "parse_list L 0 arr [d] cs = parse_list L 0 (arr @ [e]) [d'] cs'"
    using 3 e by (simp add: parse_list_comma)
  also have "\<dots> = PList ((arr @ [e]) @ e' # es)"
    using 3 j by (intro "3.IH") auto
  finally show ?case by simp
qed simp

lemma parse_list_join:
  assumes "\<forall>x \<in> set (e # es). CHR '','' \<notin> set x" and "e \<noteq> []" and "length e < L"
    and "\<forall>x \<in> set es. 2 \<le> length x \<and> length x \<le> L"
  shows "parse_list_to_array_with_checks (comma_join (e # es)) arr L = PList (arr @ e # es)"
proof (cases es)
  case Nil
  with assms show ?thesis by (simp add: parse_list_to_array_with_checks_def parse_list_last)
next
  case (Cons e' es')
  obtain d cs where j: "comma_join es = d # cs"
    using assms Cons by (cases "comma_join es"; cases es'; cases e') auto
  have "comma_join (e # es) = e @ CHR '','' # d # cs" using Cons j by simp
  then have "parse_list_to_array_with_checks (comma_join (e # es)) arr L
      = parse_list L 0 (arr @ [e]) [d] cs"
    using assms by (simp add: parse_list_to_array_with_checks_def parse_list_comma)
  also have "\<dots> = PList ((arr @ [e]) @ es)"
    using assms Cons j by (intro parse_list_rest) auto
  finally show ?thesis by simp
qed

section \<open>Fields stay within their buffers\<close>

lemma strip_zone_length: "length (strip_zone flag s) \<le> length s"
  by (induction flag s rule: strip_zone.induct) (auto simp: le_Suc_eq)

lemma config_host_length: "length (config_host s) \<le> length s"
  using strip_zone_length [of False s] by (auto simp: config_host_def split: list.splits)

lemma strip_zone_no_percent: "CHR ''%'' \<notin> set (strip_zone flag s)"
  by (induction flag s rule: strip_zone.induct) auto

lemma default_balancer_name_length: "length (default_balancer_name mconf) < BALANCERSZ"
  using strcpy_n_length [of BALANCERSZ] by (simp add: default_balancer_name_def split: option.splits)

lemma node_defaults_fit: "0 < JVMROUTESZ H \<Longrightarrow> node_fits H (process_config_node_defaults H mconf)"
  using default_balancer_name_length [of mconf]
  by (simp add: node_fits_def process_config_node_defaults_def zero_mess_def)

lemma balancer_defaults_fit: "balancer_fits (process_config_balancer_defaults mconf)"
  using default_balancer_name_length [of mconf]
  by (simp add: balancer_fits_def process_config_balancer_defaults_def)

lemma process_config_node_fits:
  assumes "node_fits H n" and "process_config_node H key val n = Value n'"
  shows "node_fits H n'"
  using assms config_host_length [of val]
  by (auto simp: process_config_node_def node_fits_def split: if_splits option.splits prod.splits)

lemma process_config_balancer_fits:
  assumes "balancer_fits b" and "node_fits H n"
    and "process_config_balancer key val b n = Value (b', n')"
  shows "balancer_fits b' \<and> node_fits H n'"
  using assms by (auto simp: process_config_balancer_def balancer_fits_def node_fits_def
      normalize_balancer_name_def Let_def split: if_splits)

section \<open>Properties\<close>

text \<open>C6: Round trip of the wire format: a non-empty list of fields whose keys and values contain none
  of the refused characters, percent-encoded and joined with \<open>=\<close> and \<open>&\<close>, is read back by
  \<open>process_buff\<close> as the same keys and values in order.\<close>

theorem process_buff_roundtrip:
  assumes "kvs \<noteq> []" and "\<forall>(k, v) \<in> set kvs. legal_text k \<and> legal_text v"
  shows "process_buff (encode_msg kvs) = Some (concat (map (\<lambda>(k, v). [k, v]) kvs))"
  using assms by (simp add: process_buff_def split_encode_msg decodeenc_encoded)

theorem process_buff_roundtrip_witness:
  "process_buff (encode_msg [(''JVMRoute'', ''a&b''), (''Alias'', ''x=y'')])
     = Some [''JVMRoute'', ''a&b'', ''Alias'', ''x=y'']"
  using process_buff_roundtrip [of "[(''JVMRoute'', ''a&b''), (''Alias'', ''x=y'')]"]
  by (simp add: legal_text_def illegal_char_def)

text \<open>C7: Nothing dangerous gets through: whatever bytes a client sends, encoded or not, a token that
  \<open>process_buff\<close> hands on contains no angle bracket, quote, CR, LF or NUL, and there is one token
  more than there are separators.\<close>

theorem process_buff_safe:
  assumes "process_buff buff = Some ptr"
  shows "(\<forall>t \<in> set ptr. legal_text t) \<and> length ptr = Suc (length (filter (\<lambda>c. c = CHR ''&'' \<or> c = CHR ''='') buff))"
  using assms decodeenc_legal [of "split_buff buff" ptr] decodeenc_length [of "split_buff buff" ptr]
    split_buff_length [of buff]
  by (auto simp: process_buff_def)

theorem process_buff_safe_witness:
  "process_buff ''Alias=a%20b'' = Some [''Alias'', ''a b''] \<and> legal_text ''a b''"
proof -
  have r: "process_buff ''Alias=a%20b'' = Some [''Alias'', ''a b'']" by code_simp
  from process_buff_safe [OF r] r show ?thesis by simp
qed

text \<open>A comma list of aliases or contexts is split at its commas: with no comma inside an element,
  a non-empty first element shorter than the limit and later elements of 2 up to limit characters,
  the parser returns exactly the elements, appended to what the array held.\<close>

theorem parse_list_elements:
  assumes "\<forall>x \<in> set (e # es). CHR '','' \<notin> set x" and "e \<noteq> []" and "length e < len_limit"
    and "\<forall>x \<in> set es. 2 \<le> length x \<and> length x \<le> len_limit"
  shows "parse_list_to_array_with_checks (comma_join (e # es)) arr len_limit = PList (arr @ e # es)"
  by (rule parse_list_join [OF assms])

theorem parse_list_elements_witness:
  "parse_list_to_array_with_checks ''/a,/bc'' [] CONTEXTSZ = PList [''/a'', ''/bc'']"
  using parse_list_elements [of "''/a''" "[''/bc'']" CONTEXTSZ "[]"] by simp

text \<open>The parser does not split correctly in general: a later element of one character is
  refused as empty, so the two applications \<open>/app\<close> and \<open>/\<close> cannot be named in one message, and a
  trailing comma makes the loop step behind the end of the string.\<close>

theorem parse_list_short_element:
  assumes "CHR '','' \<notin> set e" and "e \<noteq> []" and "length e < len_limit"
  shows "parse_list_to_array_with_checks (e @ [CHR '','', d]) arr len_limit = PEmpty \<and>
     parse_list_to_array_with_checks (e @ [CHR '','']) arr len_limit = PUndef"
  using assms parse_list_comma [of e 0 len_limit arr "[]" d "[]"] parse_list_trailing [of e 0 len_limit arr "[]"]
  by (simp add: parse_list_to_array_with_checks_def)

theorem parse_list_short_element_witness:
  "parse_list_to_array_with_checks ''/app,/'' [] CONTEXTSZ = PEmpty"
  using parse_list_short_element [of "''/app''" CONTEXTSZ "CHR ''/''" "[]"] by simp

end
