(* ===== verification/Domain_Table.thy ===== *)
theory Domain_Table
  imports Slotmem
begin

text \<open>
  The domain table, \<open>mod_manager/domain.c\<close> and \<open>include/domain.h\<close>: the load-balancing group
  of nodes that were removed, by route and balancer.
\<close>

record domaininfo =
  d_id :: int
  d_domain :: string
  d_JVMRoute :: string
  d_balancer :: string
  d_updatetime :: apr_time

definition domain_key :: "domaininfo \<Rightarrow> string \<times> string" where
  [table_defs]: "domain_key x = (d_JVMRoute x, d_balancer x)"

section \<open>Operations\<close>

definition create_attach_mem_domain ::
  "domaininfo provider \<Rightarrow> string \<Rightarrow> nat \<Rightarrow> int \<Rightarrow> bool \<Rightarrow> domaininfo mem_t option" where
  "create_attach_mem_domain P string n type cr = create_attach_mem P string ''.domain'' n type cr"

definition get_mem_domain :: "domaininfo provider \<Rightarrow> string \<Rightarrow> nat \<Rightarrow> domaininfo mem_t option" where
  "get_mem_domain P string n = create_attach_mem_domain P string n 0 False"

definition create_mem_domain :: "domaininfo provider \<Rightarrow> string \<Rightarrow> nat \<Rightarrow> int \<Rightarrow> domaininfo mem_t option" where
  "create_mem_domain P string n persist = create_attach_mem_domain P string n persist True"

text \<open>What the update callback leaves in the slot, and what an insertion stores.\<close>

definition domain_merge :: "apr_time \<Rightarrow> domaininfo \<Rightarrow> domaininfo \<Rightarrow> domaininfo" where
  [table_defs]: "domain_merge now x ou = x\<lparr>d_id := d_id ou, d_updatetime := apr_time_sec now\<rparr>"

definition domain_fresh :: "apr_time \<Rightarrow> domaininfo \<Rightarrow> nat \<Rightarrow> domaininfo" where
  [table_defs]: "domain_fresh now x i = x\<lparr>d_id := int i, d_updatetime := apr_time_sec now\<rparr>"

definition update_domain :: "apr_time \<Rightarrow> domaininfo callback" where
  "update_domain now ou d =
     (case d of
        Data x \<Rightarrow>
          (if d_JVMRoute x = d_JVMRoute ou \<and> d_balancer x = d_balancer ou
           then (APR_EEXIST, x\<lparr>d_id := d_id ou, d_updatetime := apr_time_sec now\<rparr>, Data (x\<lparr>d_id := d_id ou\<rparr>))
           else (APR_SUCCESS, ou, d))
      | _ \<Rightarrow> (UB, ou, d))"

text \<open>
  The caller's record is returned too: the update callback writes the slot's \<open>id\<close> into it.
\<close>

definition insert_update_domain ::
  "domaininfo provider \<Rightarrow> domaininfo slotmem \<Rightarrow> domaininfo \<Rightarrow> apr_time \<Rightarrow> apr_status \<times> domaininfo slotmem \<times> domaininfo" where
  "insert_update_domain P m x now =
     (case doall P m (update_domain now) (Data x) of (rv, m1, d) \<Rightarrow>
        let x' = (case d of Data y \<Rightarrow> y | _ \<Rightarrow> x) in
        if rv = APR_EEXIST then (APR_SUCCESS, m1, x')
        else (case grab_store P m1 (domain_fresh now x') of (rv', m2) \<Rightarrow> (rv', m2, x')))"

definition loc_read_domain :: "domaininfo callback" where
  "loc_read_domain ou d =
     (case d of
        Data x \<Rightarrow>
          (if d_JVMRoute x = d_JVMRoute ou \<and> d_balancer x = d_balancer ou
           then (APR_EEXIST, ou, Data (x\<lparr>d_id := d_id ou\<rparr>))
           else (APR_SUCCESS, ou, d))
      | _ \<Rightarrow> (UB, ou, d))"

definition read_domain :: "domaininfo provider \<Rightarrow> domaininfo slotmem \<Rightarrow> domaininfo \<Rightarrow> int option \<times> domaininfo" where
  "read_domain P m x =
     (let (found, x') =
            (if d_id x = 0 then
               (case doall P m loc_read_domain (Data x) of
                  (rv, _, Data y) \<Rightarrow> (rv = APR_EEXIST, y)
                | _ \<Rightarrow> (False, x))
             else (True, x))
      in if \<not> found then (None, x')
         else if dptr P m (d_id x') = APR_SUCCESS then (Some (d_id x'), x')
         else (None, x'))"

definition get_domain :: "domaininfo provider \<Rightarrow> domaininfo slotmem \<Rightarrow> int \<Rightarrow> apr_status" where
  "get_domain P m i = dptr P m i"

text \<open>
  With \<open>id\<close> 0 the source hands \<open>doall\<close> the address of its pointer variable (\<open>&ou\<close>) where the
  callback expects the record, which the model marks \<open>PtrPtr\<close>.
\<close>

definition remove_domain :: "domaininfo provider \<Rightarrow> domaininfo slotmem \<Rightarrow> domaininfo \<Rightarrow> apr_status \<times> domaininfo slotmem" where
  "remove_domain P m x =
     (if d_id x \<noteq> 0 then release P m (d_id x)
      else (case doall P m loc_read_domain PtrPtr of (rv, m', _) \<Rightarrow>
              if rv = APR_EEXIST then release P m' (d_id x) else (rv, m')))"

definition get_ids_used_domain :: "domaininfo provider \<Rightarrow> domaininfo slotmem \<Rightarrow> int list" where
  "get_ids_used_domain P m = get_ids_used P d_id m"

definition get_max_size_domain :: "domaininfo provider \<Rightarrow> domaininfo slotmem \<Rightarrow> nat" where
  "get_max_size_domain P m = num_slots P m"

abbreviation domain_put ::
  "domaininfo provider \<Rightarrow> apr_time \<Rightarrow> domaininfo slotmem \<Rightarrow> domaininfo \<Rightarrow> apr_status \<times> domaininfo slotmem" where
  "domain_put P now m x \<equiv> (case insert_update_domain P m x now of (rv, m', _) \<Rightarrow> (rv, m'))"

text \<open>
  \<open>find_domain\<close> fills a local record with the truncated route and balancer, but passes the
  address of the caller's pointer to \<open>doall\<close>; a hit would then read the local record's
  \<open>id\<close>, which nothing has written.
\<close>

definition find_domain :: "domaininfo provider \<Rightarrow> domaininfo slotmem \<Rightarrow> string \<Rightarrow> string \<Rightarrow> apr_status" where
  "find_domain P m route balancer =
     (case doall P m loc_read_domain PtrPtr of (rv, _, _) \<Rightarrow>
        if rv = APR_EEXIST then UB
        else if rv = APR_SUCCESS then APR_NOTFOUND
        else rv)"


section \<open>The table keeps the contract\<close>

lemma update_domain_search:
  "update_domain now ou (Data x) =
     (if domain_key ou = domain_key x then (APR_EEXIST, domain_merge now x ou, Data (x\<lparr>d_id := d_id ou\<rparr>)) else (APR_SUCCESS, ou, Data x))"
  by (auto simp: update_domain_def table_defs)

locale domain_table = slotmem_provider P
  for P :: "domaininfo provider" +
  fixes now :: apr_time
begin

lemmas doall_update_domain =
  doall_search [where f = "update_domain now" and d = "Data x" and Q = "\<lambda>ou. domain_key ou = domain_key x"
    and g = "domain_merge now x" and h = "\<lambda>ou. Data (x\<lparr>d_id := d_id ou\<rparr>)" for x, OF _ update_domain_search]

lemma insert_update_domain_hit:
  assumes "wf_slotmem m" and "first_used (\<lambda>y. domain_key y = domain_key x) m = Some i"
  shows "insert_update_domain P m x now =
     (APR_SUCCESS, store m (int i) (domain_merge now x (items m ! i)), x\<lparr>d_id := d_id (items m ! i)\<rparr>)"
  using assms(2) by (simp add: insert_update_domain_def doall_update_domain [OF assms(1)])

lemma insert_update_domain_miss:
  assumes "wf_slotmem m" and "first_used (\<lambda>y. domain_key y = domain_key x) m = None"
  shows "insert_update_domain P m x now =
     (case grab_store P m (domain_fresh now x) of (rv, m') \<Rightarrow> (rv, m', x))"
  using assms(2) by (simp add: insert_update_domain_def doall_update_domain [OF assms(1)])

lemma domain_put_miss:
  assumes wf: "wf_slotmem m" and none: "first_used (\<lambda>y. domain_key y = domain_key x) m = None"
  shows "domain_put P now m x = grab_store P m (domain_fresh now x)"
  by (simp add: insert_update_domain_miss [OF wf none] split: prod.splits)

end

sublocale domain_table \<subseteq> keyed_map P d_id domain_key "domain_merge now" "domain_fresh now" "domain_put P now"
proof
  fix m :: "domaininfo slotmem" and x rv m'
  assume wf: "wf_slotmem m" and none: "first_used (\<lambda>y. domain_key y = domain_key x) m = None"
    and p: "domain_put P now m x = (rv, m')"
  show "(rv \<noteq> APR_SUCCESS \<and> m' = m) \<or>
     (rv = APR_SUCCESS \<and> (\<exists>i < length (inuse m).
        m' = m\<lparr>items := (items m)[i := domain_fresh now x i], inuse := (inuse m)[i := True]\<rparr>))"
    using domain_put_miss [OF wf none] p grab_store_cases [OF wf, of "domain_fresh now x" rv m'] by simp
qed (simp_all add: insert_update_domain_hit domain_put_miss, simp_all add: table_defs)

interpretation domains: domain_table "shm_provider z" now for z now
  by unfold_locales

lemma get_ids_used_domain_eq:
  "slotmem_provider P \<Longrightarrow> table_ok d_id domain_key m \<Longrightarrow>
   get_ids_used_domain P m = map int (used_slots m)"
  by (auto simp: get_ids_used_domain_def slotmem_provider.get_ids_used_eq table_ok_def ids_ok_def set_used_slots)

end
