(* ===== verification/Sessionid_Table.thy ===== *)
theory Sessionid_Table
  imports Slotmem
begin

text \<open>
  The session identifier table, \<open>mod_manager/sessionid.c\<close> and \<open>include/sessionid.h\<close>: the
  route each known session belongs to.
\<close>

record sessionidinfo =
  s_id :: int
  s_sessionid :: string
  s_JVMRoute :: string
  s_updatetime :: apr_time

definition sessionid_key :: "sessionidinfo \<Rightarrow> string" where
  [table_defs]: "sessionid_key x = s_sessionid x"

section \<open>Operations\<close>

definition create_attach_mem_sessionid ::
  "sessionidinfo provider \<Rightarrow> string \<Rightarrow> nat \<Rightarrow> int \<Rightarrow> bool \<Rightarrow> sessionidinfo mem_t option" where
  "create_attach_mem_sessionid P string n type cr = create_attach_mem P string ''.sessionid'' n type cr"

definition get_mem_sessionid :: "sessionidinfo provider \<Rightarrow> string \<Rightarrow> nat \<Rightarrow> sessionidinfo mem_t option" where
  "get_mem_sessionid P string n = create_attach_mem_sessionid P string n 0 False"

definition create_mem_sessionid :: "sessionidinfo provider \<Rightarrow> string \<Rightarrow> nat \<Rightarrow> int \<Rightarrow> sessionidinfo mem_t option" where
  "create_mem_sessionid P string n persist = create_attach_mem_sessionid P string n persist True"

text \<open>What the update callback leaves in the slot, and what an insertion stores.\<close>

definition sessionid_merge :: "apr_time \<Rightarrow> sessionidinfo \<Rightarrow> sessionidinfo \<Rightarrow> sessionidinfo" where
  [table_defs]: "sessionid_merge now x ou = x\<lparr>s_id := s_id ou, s_updatetime := apr_time_sec now\<rparr>"

definition sessionid_fresh :: "apr_time \<Rightarrow> sessionidinfo \<Rightarrow> nat \<Rightarrow> sessionidinfo" where
  [table_defs]: "sessionid_fresh now x i = x\<lparr>s_id := int i, s_updatetime := apr_time_sec now\<rparr>"

definition update_sessionid :: "apr_time \<Rightarrow> sessionidinfo callback" where
  "update_sessionid now ou d =
     (case d of
        Data x \<Rightarrow>
          (if s_sessionid x = s_sessionid ou
           then (APR_EEXIST, x\<lparr>s_id := s_id ou, s_updatetime := apr_time_sec now\<rparr>, Data (x\<lparr>s_id := s_id ou\<rparr>))
           else (APR_SUCCESS, ou, d))
      | _ \<Rightarrow> (UB, ou, d))"

text \<open>
  The caller's record is returned too: the update callback writes the slot's \<open>id\<close> into it.
\<close>

definition insert_update_sessionid ::
  "sessionidinfo provider \<Rightarrow> sessionidinfo slotmem \<Rightarrow> sessionidinfo \<Rightarrow> apr_time \<Rightarrow> apr_status \<times> sessionidinfo slotmem \<times> sessionidinfo" where
  "insert_update_sessionid P m x now =
     (case doall P m (update_sessionid now) (Data x) of (rv, m1, d) \<Rightarrow>
        let x' = (case d of Data y \<Rightarrow> y | _ \<Rightarrow> x) in
        if rv = APR_EEXIST then (APR_SUCCESS, m1, x')
        else (case grab_store P m1 (sessionid_fresh now x') of (rv', m2) \<Rightarrow> (rv', m2, x')))"

definition loc_read_sessionid :: "sessionidinfo callback" where
  "loc_read_sessionid ou d =
     (case d of
        Data x \<Rightarrow>
          (if s_sessionid x = s_sessionid ou
           then (APR_EEXIST, ou, Data (x\<lparr>s_id := s_id ou\<rparr>))
           else (APR_SUCCESS, ou, d))
      | _ \<Rightarrow> (UB, ou, d))"

definition read_sessionid :: "sessionidinfo provider \<Rightarrow> sessionidinfo slotmem \<Rightarrow> sessionidinfo \<Rightarrow> int option \<times> sessionidinfo" where
  "read_sessionid P m x =
     (let (found, x') =
            (if s_id x = 0 then
               (case doall P m loc_read_sessionid (Data x) of
                  (rv, _, Data y) \<Rightarrow> (rv = APR_EEXIST, y)
                | _ \<Rightarrow> (False, x))
             else (True, x))
      in if \<not> found then (None, x')
         else if dptr P m (s_id x') = APR_SUCCESS then (Some (s_id x'), x')
         else (None, x'))"

definition get_sessionid :: "sessionidinfo provider \<Rightarrow> sessionidinfo slotmem \<Rightarrow> int \<Rightarrow> apr_status" where
  "get_sessionid P m i = dptr P m i"

text \<open>
  With \<open>id\<close> 0 the source hands \<open>doall\<close> the address of its pointer variable (\<open>&ou\<close>) where the
  callback expects the record, which the model marks \<open>PtrPtr\<close>.
\<close>

definition remove_sessionid :: "sessionidinfo provider \<Rightarrow> sessionidinfo slotmem \<Rightarrow> sessionidinfo \<Rightarrow> apr_status \<times> sessionidinfo slotmem" where
  "remove_sessionid P m x =
     (if s_id x \<noteq> 0 then release P m (s_id x)
      else (case doall P m loc_read_sessionid PtrPtr of (rv, m', _) \<Rightarrow>
              if rv = APR_EEXIST then release P m' (s_id x) else (rv, m')))"

definition get_ids_used_sessionid :: "sessionidinfo provider \<Rightarrow> sessionidinfo slotmem \<Rightarrow> int list" where
  "get_ids_used_sessionid P m = get_ids_used P s_id m"

definition get_max_size_sessionid :: "sessionidinfo provider \<Rightarrow> sessionidinfo slotmem \<Rightarrow> nat" where
  "get_max_size_sessionid P m = num_slots P m"

abbreviation sessionid_put ::
  "sessionidinfo provider \<Rightarrow> apr_time \<Rightarrow> sessionidinfo slotmem \<Rightarrow> sessionidinfo \<Rightarrow> apr_status \<times> sessionidinfo slotmem" where
  "sessionid_put P now m x \<equiv> (case insert_update_sessionid P m x now of (rv, m', _) \<Rightarrow> (rv, m'))"



section \<open>The table keeps the contract\<close>

lemma update_sessionid_search:
  "update_sessionid now ou (Data x) =
     (if sessionid_key ou = sessionid_key x then (APR_EEXIST, sessionid_merge now x ou, Data (x\<lparr>s_id := s_id ou\<rparr>)) else (APR_SUCCESS, ou, Data x))"
  by (auto simp: update_sessionid_def table_defs)

locale sessionid_table = slotmem_provider P
  for P :: "sessionidinfo provider" +
  fixes now :: apr_time
begin

lemmas doall_update_sessionid =
  doall_search [where f = "update_sessionid now" and d = "Data x" and Q = "\<lambda>ou. sessionid_key ou = sessionid_key x"
    and g = "sessionid_merge now x" and h = "\<lambda>ou. Data (x\<lparr>s_id := s_id ou\<rparr>)" for x, OF _ update_sessionid_search]

lemma insert_update_sessionid_hit:
  assumes "wf_slotmem m" and "first_used (\<lambda>y. sessionid_key y = sessionid_key x) m = Some i"
  shows "insert_update_sessionid P m x now =
     (APR_SUCCESS, store m (int i) (sessionid_merge now x (items m ! i)), x\<lparr>s_id := s_id (items m ! i)\<rparr>)"
  using assms(2) by (simp add: insert_update_sessionid_def doall_update_sessionid [OF assms(1)])

lemma insert_update_sessionid_miss:
  assumes "wf_slotmem m" and "first_used (\<lambda>y. sessionid_key y = sessionid_key x) m = None"
  shows "insert_update_sessionid P m x now =
     (case grab_store P m (sessionid_fresh now x) of (rv, m') \<Rightarrow> (rv, m', x))"
  using assms(2) by (simp add: insert_update_sessionid_def doall_update_sessionid [OF assms(1)])

lemma sessionid_put_miss:
  assumes wf: "wf_slotmem m" and none: "first_used (\<lambda>y. sessionid_key y = sessionid_key x) m = None"
  shows "sessionid_put P now m x = grab_store P m (sessionid_fresh now x)"
  by (simp add: insert_update_sessionid_miss [OF wf none] split: prod.splits)

end

sublocale sessionid_table \<subseteq> keyed_map P s_id sessionid_key "sessionid_merge now" "sessionid_fresh now" "sessionid_put P now"
proof
  fix m :: "sessionidinfo slotmem" and x rv m'
  assume wf: "wf_slotmem m" and none: "first_used (\<lambda>y. sessionid_key y = sessionid_key x) m = None"
    and p: "sessionid_put P now m x = (rv, m')"
  show "(rv \<noteq> APR_SUCCESS \<and> m' = m) \<or>
     (rv = APR_SUCCESS \<and> (\<exists>i < length (inuse m).
        m' = m\<lparr>items := (items m)[i := sessionid_fresh now x i], inuse := (inuse m)[i := True]\<rparr>))"
    using sessionid_put_miss [OF wf none] p grab_store_cases [OF wf, of "sessionid_fresh now x" rv m'] by simp
qed (simp_all add: insert_update_sessionid_hit sessionid_put_miss, simp_all add: table_defs)

interpretation sessionids: sessionid_table "shm_provider z" now for z now
  by unfold_locales

lemma get_ids_used_sessionid_eq:
  "slotmem_provider P \<Longrightarrow> table_ok s_id sessionid_key m \<Longrightarrow>
   get_ids_used_sessionid P m = map int (used_slots m)"
  by (auto simp: get_ids_used_sessionid_def slotmem_provider.get_ids_used_eq table_ok_def ids_ok_def set_used_slots)

end
