(* ===== verification/Manager_State.thy ===== *)
theory Manager_State
  imports Mcmp_Message Domain_Table Sessionid_Table
begin

text \<open>
  The state \<open>mod_manager.c\<close> keeps in shared memory and the routines it exports to the proxy
  side (\<open>node_storage_method\<close>, \<open>host_storage_method\<close>, \<open>context_storage_method\<close>,
  \<open>balancer_storage_method\<close>, \<open>sessionid_storage_method\<close>, \<open>domain_storage_method\<close>), the version
  counter of the node table and the removal of a node's hosts and contexts. The state is that
  of a manager whose \<open>manager_init\<close> succeeded: the tables exist, the session table only when
  \<open>Maxsessionid\<close> asked for it.
\<close>

section \<open>State\<close>

text \<open>The one provider of httpd, at the six record types it is used with.\<close>

record storage =
  st_node :: "nodeinfo provider"
  st_host :: "hostinfo provider"
  st_context :: "contextinfo provider"
  st_balancer :: "balancerinfo provider"
  st_sessionid :: "sessionidinfo provider"
  st_domain :: "domaininfo provider"

text \<open>
  \<open>node_lock\<close> counts \<open>loc_lock_nodes\<close> minus \<open>loc_unlock_nodes\<close>; \<open>managed\<close> collects the parameter
  tables handed to mod_proxy_balancer's \<open>balancer_manage\<close>.
\<close>

record manager =
  nodestatsmem :: "nodeinfo slotmem"
  hoststatsmem :: "hostinfo slotmem"
  contextstatsmem :: "contextinfo slotmem"
  balancerstatsmem :: "balancerinfo slotmem"
  sessionidstatsmem :: "sessionidinfo slotmem option"
  domainstatsmem :: "domaininfo slotmem"
  version_counter :: "64 word"
  tableversion :: "32 word"
  node_lock :: int
  managed :: "(string \<times> string) list list"

section \<open>Storage methods\<close>

definition mgr_read_node :: "storage \<Rightarrow> manager \<Rightarrow> int \<Rightarrow> apr_status" where
  [manager_defs]: "mgr_read_node S M i = get_node (st_node S) (nodestatsmem M) i"

definition loc_get_ids_used_node :: "storage \<Rightarrow> manager \<Rightarrow> int list" where
  [manager_defs]: "loc_get_ids_used_node S M = get_ids_used_node (st_node S) (nodestatsmem M)"

definition loc_get_max_size_node :: "storage \<Rightarrow> manager \<Rightarrow> nat" where
  [manager_defs]: "loc_get_max_size_node S M = get_max_size_node (st_node S) (nodestatsmem M)"

definition loc_remove_node :: "storage \<Rightarrow> manager \<Rightarrow> int \<Rightarrow> apr_status \<times> manager" where
  "loc_remove_node S M i =
     (case remove_node (st_node S) (nodestatsmem M) i of (rv, m) \<Rightarrow> (rv, M\<lparr>nodestatsmem := m\<rparr>))"

definition loc_find_node :: "storage \<Rightarrow> httpd \<Rightarrow> manager \<Rightarrow> string \<Rightarrow> apr_status \<times> int" where
  "loc_find_node S H M route = find_node (st_node S) (JVMROUTESZ H) (nodestatsmem M) route"

definition inc_version_node :: "manager \<Rightarrow> manager" where
  "inc_version_node M = M\<lparr>version_counter := version_counter M + 1\<rparr>"

definition get_version_node :: "manager \<Rightarrow> 64 word" where
  "get_version_node M = version_counter M"

definition set_version_node :: "64 word \<Rightarrow> manager \<Rightarrow> manager" where
  "set_version_node val M = M\<lparr>version_counter := val\<rparr>"

text \<open>The 64-bit counter is assigned to an \<open>unsigned\<close>, and 0 stands for "no update".\<close>

definition loc_worker_nodes_need_update :: "storage \<Rightarrow> manager \<Rightarrow> 32 word" where
  "loc_worker_nodes_need_update S M =
     (if loc_get_max_size_node S M = 0 then 0
      else let last = ucast (get_version_node M) in
        if last \<noteq> tableversion M then last else 0)"

definition loc_worker_nodes_are_updated :: "32 word \<Rightarrow> manager \<Rightarrow> manager" where
  "loc_worker_nodes_are_updated v M = M\<lparr>tableversion := v\<rparr>"

definition loc_lock_nodes :: "manager \<Rightarrow> manager" where
  [manager_defs]: "loc_lock_nodes M = M\<lparr>node_lock := node_lock M + 1\<rparr>"

definition loc_unlock_nodes :: "manager \<Rightarrow> manager" where
  [manager_defs]: "loc_unlock_nodes M = M\<lparr>node_lock := node_lock M - 1\<rparr>"

definition loc_get_max_size_context :: "storage \<Rightarrow> manager \<Rightarrow> nat" where
  [manager_defs]: "loc_get_max_size_context S M = get_max_size_context (st_context S) (contextstatsmem M)"

definition loc_get_max_size_host :: "storage \<Rightarrow> manager \<Rightarrow> nat" where
  [manager_defs]: "loc_get_max_size_host S M = get_max_size_host (st_host S) (hoststatsmem M)"

definition loc_remove_host_context :: "storage \<Rightarrow> int \<Rightarrow> manager \<Rightarrow> manager" where
  "loc_remove_host_context S node M =
     (if loc_get_max_size_host S M = 0 then M
      else
        let hosts = release_where (st_host S) h_id (\<lambda>ou. h_node ou = node)
                      (get_ids_used_host (st_host S) (hoststatsmem M)) (hoststatsmem M);
            contexts = release_where (st_context S) c_id (\<lambda>c. c_node c = node)
                      (get_ids_used_context (st_context S) (contextstatsmem M)) (contextstatsmem M)
        in M\<lparr>hoststatsmem := hosts, contextstatsmem := contexts\<rparr>)"

definition mgr_read_context :: "storage \<Rightarrow> manager \<Rightarrow> int \<Rightarrow> apr_status" where
  [manager_defs]: "mgr_read_context S M i = get_context (st_context S) (contextstatsmem M) i"

definition loc_get_ids_used_context :: "storage \<Rightarrow> manager \<Rightarrow> int list" where
  [manager_defs]: "loc_get_ids_used_context S M = get_ids_used_context (st_context S) (contextstatsmem M)"

definition mgr_read_host :: "storage \<Rightarrow> manager \<Rightarrow> int \<Rightarrow> apr_status" where
  [manager_defs]: "mgr_read_host S M i = get_host (st_host S) (hoststatsmem M) i"

definition loc_get_ids_used_host :: "storage \<Rightarrow> manager \<Rightarrow> int list" where
  [manager_defs]: "loc_get_ids_used_host S M = get_ids_used_host (st_host S) (hoststatsmem M)"

definition mgr_read_balancer :: "storage \<Rightarrow> manager \<Rightarrow> int \<Rightarrow> apr_status" where
  [manager_defs]: "mgr_read_balancer S M i = get_balancer (st_balancer S) (balancerstatsmem M) i"

definition loc_get_ids_used_balancer :: "storage \<Rightarrow> manager \<Rightarrow> int list" where
  [manager_defs]: "loc_get_ids_used_balancer S M = get_ids_used_balancer (st_balancer S) (balancerstatsmem M)"

definition loc_get_max_size_balancer :: "storage \<Rightarrow> manager \<Rightarrow> nat" where
  [manager_defs]: "loc_get_max_size_balancer S M = get_max_size_balancer (st_balancer S) (balancerstatsmem M)"

text \<open>The session methods dereference the table; without one the behaviour is undefined.\<close>

definition mgr_read_sessionid :: "storage \<Rightarrow> manager \<Rightarrow> int \<Rightarrow> apr_status" where
  [manager_defs]: "mgr_read_sessionid S M i =
     (case sessionidstatsmem M of None \<Rightarrow> UB | Some m \<Rightarrow> get_sessionid (st_sessionid S) m i)"

definition loc_get_ids_used_sessionid :: "storage \<Rightarrow> manager \<Rightarrow> int list option" where
  [manager_defs]: "loc_get_ids_used_sessionid S M =
     map_option (get_ids_used_sessionid (st_sessionid S)) (sessionidstatsmem M)"

definition loc_get_max_size_sessionid :: "storage \<Rightarrow> manager \<Rightarrow> nat" where
  [manager_defs]: "loc_get_max_size_sessionid S M =
     (case sessionidstatsmem M of None \<Rightarrow> 0 | Some m \<Rightarrow> get_max_size_sessionid (st_sessionid S) m)"

definition loc_remove_sessionid :: "storage \<Rightarrow> manager \<Rightarrow> sessionidinfo \<Rightarrow> apr_status \<times> manager" where
  "loc_remove_sessionid S M x =
     (case sessionidstatsmem M of
        None \<Rightarrow> (UB, M)
      | Some m \<Rightarrow> (case remove_sessionid (st_sessionid S) m x of
                     (rv, m') \<Rightarrow> (rv, M\<lparr>sessionidstatsmem := Some m'\<rparr>)))"

definition loc_insert_update_sessionid ::
  "storage \<Rightarrow> manager \<Rightarrow> sessionidinfo \<Rightarrow> apr_time \<Rightarrow> apr_status \<times> manager" where
  "loc_insert_update_sessionid S M x now =
     (case sessionidstatsmem M of
        None \<Rightarrow> (UB, M)
      | Some m \<Rightarrow> (case insert_update_sessionid (st_sessionid S) m x now of
                     (rv, m', _) \<Rightarrow> (rv, M\<lparr>sessionidstatsmem := Some m'\<rparr>)))"

definition mgr_read_domain :: "storage \<Rightarrow> manager \<Rightarrow> int \<Rightarrow> apr_status" where
  [manager_defs]: "mgr_read_domain S M i = get_domain (st_domain S) (domainstatsmem M) i"

definition loc_get_ids_used_domain :: "storage \<Rightarrow> manager \<Rightarrow> int list" where
  [manager_defs]: "loc_get_ids_used_domain S M = get_ids_used_domain (st_domain S) (domainstatsmem M)"

definition loc_get_max_size_domain :: "storage \<Rightarrow> manager \<Rightarrow> nat" where
  [manager_defs]: "loc_get_max_size_domain S M = get_max_size_domain (st_domain S) (domainstatsmem M)"

definition loc_remove_domain :: "storage \<Rightarrow> manager \<Rightarrow> domaininfo \<Rightarrow> apr_status \<times> manager" where
  "loc_remove_domain S M x =
     (case remove_domain (st_domain S) (domainstatsmem M) x of (rv, m) \<Rightarrow> (rv, M\<lparr>domainstatsmem := m\<rparr>))"

definition loc_insert_update_domain ::
  "storage \<Rightarrow> manager \<Rightarrow> domaininfo \<Rightarrow> apr_time \<Rightarrow> apr_status \<times> manager" where
  "loc_insert_update_domain S M x now =
     (case insert_update_domain (st_domain S) (domainstatsmem M) x now of
        (rv, m, _) \<Rightarrow> (rv, M\<lparr>domainstatsmem := m\<rparr>))"

definition loc_find_domain :: "storage \<Rightarrow> manager \<Rightarrow> string \<Rightarrow> string \<Rightarrow> apr_status" where
  "loc_find_domain S M route balancer = find_domain (st_domain S) (domainstatsmem M) route balancer"

section \<open>Invariants\<close>

text \<open>
  A node slot in use holds its own number. Routes are unique only among the nodes that are not
  being removed: every removed node carries the route \<open>REMOVED\<close> until its slot is freed.
\<close>

definition nodes_ok :: "nodeinfo slotmem \<Rightarrow> bool" where
  "nodes_ok nm \<longleftrightarrow> wf_slotmem nm \<and> ids_ok node_ident nm"

definition live_routes_ok :: "nodeinfo slotmem \<Rightarrow> bool" where
  "live_routes_ok nm \<longleftrightarrow>
     (\<forall>i < length (inuse nm). \<forall>j < length (inuse nm). inuse nm ! i \<longrightarrow> inuse nm ! j \<longrightarrow>
        node_key (items nm ! i) = node_key (items nm ! j) \<longrightarrow> node_key (items nm ! i) \<noteq> ''REMOVED'' \<longrightarrow> i = j)"

definition tables_ok :: "manager \<Rightarrow> bool" where
  "tables_ok M \<longleftrightarrow>
     nodes_ok (nodestatsmem M) \<and>
     table_ok h_id host_key (hoststatsmem M) \<and>
     table_ok c_id context_key (contextstatsmem M) \<and>
     table_ok b_id balancer_key (balancerstatsmem M)"

text \<open>
  References between the tables: a virtual host belongs to a node slot in use, and an
  application to a virtual host of its own node that is in use.
\<close>

definition hosts_ref :: "nodeinfo slotmem \<Rightarrow> hostinfo slotmem \<Rightarrow> bool" where
  "hosts_ref nm hm \<longleftrightarrow> (\<forall>i < length (inuse hm). inuse hm ! i \<longrightarrow> used nm (h_node (items hm ! i)))"

definition contexts_ref :: "hostinfo slotmem \<Rightarrow> contextinfo slotmem \<Rightarrow> bool" where
  "contexts_ref hm cm \<longleftrightarrow>
     (\<forall>i < length (inuse cm). inuse cm ! i \<longrightarrow>
        (\<exists>j < length (inuse hm). inuse hm ! j \<and>
           h_vhost (items hm ! j) = c_vhost (items cm ! i) \<and> h_node (items hm ! j) = c_node (items cm ! i)))"

definition refs_ok :: "manager \<Rightarrow> bool" where
  "refs_ok M \<longleftrightarrow> hosts_ref (nodestatsmem M) (hoststatsmem M) \<and> contexts_ref (hoststatsmem M) (contextstatsmem M)"

definition manager_ok :: "manager \<Rightarrow> bool" where
  "manager_ok M \<longleftrightarrow> tables_ok M \<and> refs_ok M"

section \<open>The storage contract\<close>

locale manager_storage =
  sn: slotmem_provider "st_node S" + sh: slotmem_provider "st_host S" +
  sc: slotmem_provider "st_context S" + sb: slotmem_provider "st_balancer S" +
  ss: slotmem_provider "st_sessionid S" + sd: slotmem_provider "st_domain S"
  for S :: storage
begin

lemma hosts_eq: "table_ok h_id host_key m \<Longrightarrow> get_ids_used_host (st_host S) m = map int (used_slots m)"
  by (rule get_ids_used_host_eq [OF sh.slotmem_provider_axioms])

lemma contexts_eq:
  "table_ok c_id context_key m \<Longrightarrow> get_ids_used_context (st_context S) m = map int (used_slots m)"
  by (rule get_ids_used_context_eq [OF sc.slotmem_provider_axioms])

lemma remove_host_context_tables:
  assumes "tables_ok M" and "loc_get_max_size_host S M \<noteq> 0"
  shows "loc_remove_host_context S node M = M\<lparr>
     hoststatsmem := (hoststatsmem M)\<lparr>inuse :=
        map (\<lambda>i. inuse (hoststatsmem M) ! i \<and> h_node (items (hoststatsmem M) ! i) \<noteq> node)
          [0..<length (inuse (hoststatsmem M))]\<rparr>,
     contextstatsmem := (contextstatsmem M)\<lparr>inuse :=
        map (\<lambda>i. inuse (contextstatsmem M) ! i \<and> c_node (items (contextstatsmem M) ! i) \<noteq> node)
          [0..<length (inuse (contextstatsmem M))]\<rparr>\<rparr>"
  using assms sh.release_where_all [of h_id host_key "hoststatsmem M" "\<lambda>ou. h_node ou = node"]
    sc.release_where_all [of c_id context_key "contextstatsmem M" "\<lambda>c. c_node c = node"]
  by (simp add: loc_remove_host_context_def tables_ok_def get_ids_used_host_def get_ids_used_context_def)

text \<open>Without a host table there is nothing a context could refer to, so nothing is left over.\<close>

lemma no_hosts_no_contexts:
  assumes "tables_ok M" "refs_ok M" and "loc_get_max_size_host S M = 0"
  shows "i < length (inuse (contextstatsmem M)) \<Longrightarrow> \<not> inuse (contextstatsmem M) ! i"
    and "inuse (hoststatsmem M) = []"
proof -
  have "length (items (hoststatsmem M)) = 0" and len: "length (items (hoststatsmem M)) = length (inuse (hoststatsmem M))"
    using assms sh.num_slots_length [of "hoststatsmem M"]
    by (simp_all add: tables_ok_def table_ok_def manager_defs get_max_size_host_def wf_slotmem_def)
  then show "inuse (hoststatsmem M) = []" by simp
  then show "i < length (inuse (contextstatsmem M)) \<Longrightarrow> \<not> inuse (contextstatsmem M) ! i"
    using assms(2) by (auto simp: refs_ok_def contexts_ref_def)
qed

lemma remove_host_context_ok:
  assumes "manager_ok M"
  shows "manager_ok (loc_remove_host_context S node M)"
proof (cases "loc_get_max_size_host S M = 0")
  case True
  with assms show ?thesis by (simp add: loc_remove_host_context_def)
next
  case False
  have t: "tables_ok M" and r: "refs_ok M" using assms by (simp_all add: manager_ok_def)
  let ?M = "loc_remove_host_context S node M"
  note eq = remove_host_context_tables [OF t False, of node]
  have "tables_ok ?M"
    using t unfolding eq by (auto simp: tables_ok_def intro!: table_ok_subset)
  moreover have "refs_ok ?M"
    using r unfolding eq refs_ok_def hosts_ref_def contexts_ref_def by force
  ultimately show ?thesis by (simp add: manager_ok_def)
qed

end

sublocale manager_storage \<subseteq> hosts: host_table "st_host S" now for now
  by unfold_locales

sublocale manager_storage \<subseteq> contexts: context_table "st_context S" now for now
  by unfold_locales

sublocale manager_storage \<subseteq> balancers: balancer_table "st_balancer S" now for now
  by unfold_locales

sublocale manager_storage \<subseteq> nodes: node_table "st_node S" i clean now0 now1 for i clean now0 now1
  by unfold_locales

section \<open>Steps that keep the references\<close>

definition host_row :: "hostinfo slotmem \<Rightarrow> int \<Rightarrow> int \<Rightarrow> bool" where
  "host_row hm vhost node \<longleftrightarrow>
     (\<exists>j < length (inuse hm). inuse hm ! j \<and> h_vhost (items hm ! j) = vhost \<and> h_node (items hm ! j) = node)"

lemma contexts_ref_row:
  "contexts_ref hm cm \<longleftrightarrow>
     (\<forall>i < length (inuse cm). inuse cm ! i \<longrightarrow> host_row hm (c_vhost (items cm ! i)) (c_node (items cm ! i)))"
  by (simp add: contexts_ref_def host_row_def)

text \<open>Filling a slot with a row whose reference is good keeps all references good.\<close>

lemma hosts_ref_update:
  assumes "hosts_ref nm hm" and "wf_slotmem hm" and "used nm (h_node x)"
  shows "hosts_ref nm (hm\<lparr>items := (items hm)[i := x], inuse := (inuse hm)[i := True]\<rparr>)"
  using assms by (auto simp: hosts_ref_def wf_slotmem_def nth_update_if split: if_splits)

lemma contexts_ref_update:
  assumes "contexts_ref hm cm" and "wf_slotmem cm" and "host_row hm (c_vhost x) (c_node x)"
  shows "contexts_ref hm (cm\<lparr>items := (items cm)[i := x], inuse := (inuse cm)[i := True]\<rparr>)"
  using assms by (auto simp: contexts_ref_row wf_slotmem_def nth_update_if split: if_splits)

lemma host_row_update:
  assumes "host_row hm v n" and "wf_slotmem hm"
    and "i < length (inuse hm) \<Longrightarrow> inuse hm ! i \<Longrightarrow> h_vhost x = h_vhost (items hm ! i) \<and> h_node x = h_node (items hm ! i)"
  shows "host_row (hm\<lparr>items := (items hm)[i := x], inuse := (inuse hm)[i := True]\<rparr>) v n"
proof -
  obtain j where "j < length (inuse hm)" "inuse hm ! j" "h_vhost (items hm ! j) = v" "h_node (items hm ! j) = n"
    using assms(1) by (auto simp: host_row_def)
  with assms(2,3) show ?thesis
    by (auto simp: host_row_def wf_slotmem_def nth_update_if intro!: exI [of _ j])
qed

lemma hosts_ref_mono:
  "hosts_ref nm hm \<Longrightarrow> (\<And>j. used nm j \<Longrightarrow> used nm' j) \<Longrightarrow> hosts_ref nm' hm"
  by (simp add: hosts_ref_def)

lemma nodes_ok_store:
  assumes "nodes_ok nm" and "n_id (mess y) = n_id (mess (slot nm i))"
  shows "nodes_ok (store nm i y)"
  using assms
  by (cases "nat i < length (items nm)")
    (auto simp: nodes_ok_def ids_ok_def store_items slot_def node_ident_def wf_slotmem_def nth_list_update)

context manager_storage
begin

lemma host_step:
  assumes ok: "table_ok h_id host_key hm" and refs: "hosts_ref nm hm" "contexts_ref hm cm"
    and n: "used nm (h_node x)" and p: "insert_update_host (st_host S) hm x now = (rv, hm', x')"
  shows "table_ok h_id host_key hm'" and "hosts_ref nm hm'" and "contexts_ref hm' cm"
    and "host_row hm v k \<Longrightarrow> host_row hm' v k"
    and "rv = APR_SUCCESS \<Longrightarrow> host_row hm' (h_vhost x) (h_node x)"
    and "h_vhost x' = h_vhost x \<and> h_node x' = h_node x \<and> h_host x' = h_host x"
proof -
  have wf: "wf_slotmem hm" using ok by (simp add: table_ok_def)
  have put: "host_put (st_host S) now hm x = (rv, hm')" using p by simp
  show "table_ok h_id host_key hm'" using hosts.put_table_ok [OF ok, of x now] p by simp
  let ?goal = "hosts_ref nm hm' \<and> (\<forall>v k. host_row hm v k \<longrightarrow> host_row hm' v k) \<and>
     (rv = APR_SUCCESS \<longrightarrow> host_row hm' (h_vhost x) (h_node x))"
  have up: ?goal if m': "hm' = hm\<lparr>items := (items hm)[i := y], inuse := (inuse hm)[i := True]\<rparr>"
    and y: "h_vhost y = h_vhost x" "h_node y = h_node x" and i: "i < length (inuse hm)"
    and same: "inuse hm ! i \<Longrightarrow> h_vhost y = h_vhost (items hm ! i) \<and> h_node y = h_node (items hm ! i)" for i y
  proof (intro conjI allI impI)
    show "hosts_ref nm hm'" unfolding m' using refs(1) wf n y by (intro hosts_ref_update) simp_all
    show "host_row hm' v k" if "host_row hm v k" for v k
      unfolding m' using that wf same by (intro host_row_update) simp_all
    show "host_row hm' (h_vhost x) (h_node x)"
      unfolding m' host_row_def using i y wf by (intro exI [of _ i]) (simp add: wf_slotmem_def)
  qed
  from wf put have goal: ?goal
  proof (cases rule: hosts.put_map_cases)
    case (hit i)
    then show ?thesis
      by (intro up [of i "host_merge now x (items hm ! i)"]) (simp_all add: table_defs)
  next
    case (miss i)
    then show ?thesis by (intro up [of i "host_fresh now x i"]) (simp_all add: table_defs)
  qed (use refs in simp)
  then have keep: "\<And>v k. host_row hm v k \<Longrightarrow> host_row hm' v k" by blast
  show "hosts_ref nm hm'" using goal by blast
  show "host_row hm v k \<Longrightarrow> host_row hm' v k" by (rule keep)
  show "rv = APR_SUCCESS \<Longrightarrow> host_row hm' (h_vhost x) (h_node x)" using goal by blast
  show "contexts_ref hm' cm" using refs(2) keep by (auto simp: contexts_ref_row)
  show "h_vhost x' = h_vhost x \<and> h_node x' = h_node x \<and> h_host x' = h_host x"
    using p hosts.insert_update_host_hit [OF wf, of x] hosts.insert_update_host_miss [OF wf, of x]
    by (cases "first_used (\<lambda>y. host_key y = host_key x) hm") (auto split: prod.splits)
qed

lemma context_step:
  assumes ok: "table_ok c_id context_key cm" and refs: "contexts_ref hm cm"
    and row: "host_row hm (c_vhost x) (c_node x)"
    and p: "insert_update_context (st_context S) cm x now = (rv, cm', x')"
  shows "table_ok c_id context_key cm'" and "contexts_ref hm cm'"
proof -
  have wf: "wf_slotmem cm" using ok by (simp add: table_ok_def)
  have put: "context_put (st_context S) now cm x = (rv, cm')" using p by simp
  show "table_ok c_id context_key cm'" using contexts.put_table_ok [OF ok, of x now] p by simp
  from wf put show "contexts_ref hm cm'"
  proof (cases rule: contexts.put_map_cases)
    case (hit i)
    then have "host_row hm (c_vhost (items cm ! i)) (c_node (items cm ! i))"
      using row by (simp add: table_defs)
    then show ?thesis
      unfolding hit using refs wf by (intro contexts_ref_update) (simp_all add: table_defs)
  next
    case (miss i)
    show ?thesis
      unfolding miss using refs wf row by (intro contexts_ref_update) (simp_all add: table_defs)
  qed (use refs in simp)
qed

lemma context_remove_step:
  assumes ok: "table_ok c_id context_key cm" and refs: "contexts_ref hm cm"
  shows "table_ok c_id context_key (snd (remove_context (st_context S) cm i))"
    and "contexts_ref hm (snd (remove_context (st_context S) cm i))"
proof -
  have wf: "wf_slotmem cm" using ok by (simp add: table_ok_def)
  show "table_ok c_id context_key (snd (remove_context (st_context S) cm i))"
    using sc.release_table_ok [OF ok] by (simp add: remove_context_def)
  show "contexts_ref hm (snd (remove_context (st_context S) cm i))"
    using refs sc.release_used [OF wf, of i] sc.release_unused [OF wf, of i]
    by (cases "used cm i") (auto simp: remove_context_def contexts_ref_row nth_update_False)
qed

text \<open>A slot is filled: the node table stays well formed and no slot is given up.\<close>

lemma nodes_ok_update:
  assumes "nodes_ok nm" and "node_ident y = int i"
  shows "nodes_ok (nm\<lparr>items := (items nm)[i := y], inuse := (inuse nm)[i := True]\<rparr>)"
  using assms by (auto simp: nodes_ok_def wf_slotmem_def ids_ok_def nth_update_if split: if_splits)

lemma node_step:
  assumes ok: "nodes_ok nm"
    and p: "insert_update_node (st_node S) nm x i clean now0 now1 = (rv, nm', x', i')"
  shows "nodes_ok nm'" and "used nm j \<Longrightarrow> used nm' j" and "rv \<noteq> APR_SUCCESS \<Longrightarrow> nm' = nm"
    and "rv = APR_SUCCESS \<Longrightarrow> used nm' i' \<and> mess (slot nm' i') = (mess x)\<lparr>n_id := i'\<rparr>"
    and "rv = APR_SUCCESS \<Longrightarrow> 0 \<le> j \<Longrightarrow> j \<noteq> i' \<Longrightarrow> slot nm' j = slot nm j"
    and "\<exists>k. x' = set_node_id k x"
proof -
  have wf: "wf_slotmem nm" and ids: "ids_ok node_ident nm" using ok by (simp_all add: nodes_ok_def)
  let ?goal = "nodes_ok nm' \<and> (\<forall>j. used nm j \<longrightarrow> used nm' j) \<and> used nm' i' \<and>
     mess (slot nm' i') = (mess x)\<lparr>n_id := i'\<rparr> \<and> (\<forall>j. 0 \<le> j \<longrightarrow> j \<noteq> i' \<longrightarrow> slot nm' j = slot nm j)"
  have up: ?goal if m': "nm' = nm\<lparr>items := (items nm)[nat i' := y], inuse := (inuse nm)[nat i' := True]\<rparr>"
    and y: "mess y = (mess x)\<lparr>n_id := i'\<rparr>" and i: "0 \<le> i'" "nat i' < length (inuse nm)" for y
    using nodes_ok_update [OF ok, of y "nat i'"] i y wf
    by (auto simp: m' node_ident_def used_def in_range_def slot_def wf_slotmem_def nth_update_if eq_nat_nat_iff)
  have main: "(rv \<noteq> APR_SUCCESS \<and> nm' = nm \<or> rv = APR_SUCCESS \<and> ?goal) \<and> (\<exists>k. x' = set_node_id k x)"
  proof (cases "first_used (\<lambda>y. node_key y = node_key x) nm")
    case (Some k)
    then have k: "k < length (inuse nm)" "inuse nm ! k" by (simp_all add: first_used_Some)
    then have idk: "node_ident (items nm ! k) = int k" using ids by (simp add: ids_ok_def)
    have eq: "rv = APR_SUCCESS" "nm' = store nm (int k) (node_merge now1 x (items nm ! k))"
      "x' = set_node_id (int k) x" "i' = int k"
      using p [unfolded nodes.insert_update_node_hit [OF wf Some] idk] by auto
    have "?goal"
      by (rule up [of "node_merge now1 x (items nm ! k)"])
        (use eq k idk nodes.store_as_update [of k nm] in \<open>simp_all add: table_defs\<close>)
    with eq show ?thesis by blast
  next
    case None
    have x': "x' = x" using p nodes.doall_update_node [OF wf] None
      by (auto simp: insert_update_node_def Let_def split: prod.splits if_splits)
    have "x = set_node_id (n_id (mess x)) x" by (simp add: table_defs)
    with x' have "\<exists>k. x' = set_node_id k x" by metis
    moreover from nodes.insert_update_node_miss [OF wf None p]
    have "rv \<noteq> APR_SUCCESS \<and> nm' = nm \<or> rv = APR_SUCCESS \<and> ?goal"
      using up [of "node_fresh now0 clean x (nat i')"] by (auto simp: table_defs)
    ultimately show ?thesis by blast
  qed
  show "nodes_ok nm'" using main ok by blast
  show "used nm j \<Longrightarrow> used nm' j" using main by blast
  show "rv \<noteq> APR_SUCCESS \<Longrightarrow> nm' = nm" using main by blast
  show "rv = APR_SUCCESS \<Longrightarrow> used nm' i' \<and> mess (slot nm' i') = (mess x)\<lparr>n_id := i'\<rparr>" using main by blast
  show "rv = APR_SUCCESS \<Longrightarrow> 0 \<le> j \<Longrightarrow> j \<noteq> i' \<Longrightarrow> slot nm' j = slot nm j" using main by blast
  show "\<exists>k. x' = set_node_id k x" using main by blast
qed

end

definition shm_storage :: storage where
  "shm_storage = \<lparr>st_node = shm_provider zero_node,
     st_host = shm_provider \<lparr>h_id = 0, h_host = [], h_vhost = 0, h_node = 0, h_updatetime = 0\<rparr>,
     st_context = shm_provider \<lparr>c_id = 0, c_context = [], c_vhost = 0, c_node = 0, c_status = 0,
        c_nbrequests = 0, c_updatetime = 0\<rparr>,
     st_balancer = shm_provider \<lparr>b_id = 0, b_balancer = [], StickySession = 0, StickySessionCookie = [],
        StickySessionPath = [], StickySessionRemove = 0, StickySessionForce = 0, b_Timeout = 0,
        Maxattempts = 0, b_updatetime = 0\<rparr>,
     st_sessionid = shm_provider \<lparr>s_id = 0, s_sessionid = [], s_JVMRoute = [], s_updatetime = 0\<rparr>,
     st_domain = shm_provider \<lparr>d_id = 0, d_domain = [], d_JVMRoute = [], d_balancer = [], d_updatetime = 0\<rparr>\<rparr>"

interpretation shm_mgr: manager_storage shm_storage
  by (simp add: manager_storage_def shm_storage_def shm.slotmem_provider_axioms)

end
