(* ===== verification/Config_Command.thy ===== *)
theory Config_Command
  imports Manager_State
begin

text \<open>
  The CONFIG command, \<open>process_config\<close> of \<open>mod_manager.c\<close>, cut at the comments of its body:
  reading the message, completing the node description, finding the slot the node belongs to,
  inserting balancer and node, inserting aliases and contexts. \<open>bm\<close> is the module's
  \<open>balancerhandler\<close> (the table of function pointers mod_proxy_cluster registers, NULL when that
  module is absent), \<open>manage\<close> mod_proxy_balancer's \<open>balancer_manage\<close>. \<open>now\<close> is the time
  \<open>apr_time_now()\<close> reads while the command runs. A failed \<open>ap_assert\<close> aborts the process and
  is \<open>Undefined\<close> here.
\<close>

section \<open>Helpers\<close>

record balancer_method =
  bm_node_isup :: "manager \<Rightarrow> int \<Rightarrow> int \<Rightarrow> int \<times> manager"
  bm_host_isup :: "string \<Rightarrow> string \<Rightarrow> string \<Rightarrow> int"
  bm_node_getid :: "string \<Rightarrow> string \<Rightarrow> string \<Rightarrow> string \<Rightarrow> (worker_shared \<times> int) option"
  bm_reenable :: "nodeinfo \<Rightarrow> nodeinfo \<Rightarrow> nodeinfo"
  bm_get_free_id :: "nodeinfo slotmem \<Rightarrow> nat \<Rightarrow> int"

definition quoted :: "string \<Rightarrow> string" where
  "quoted s = [CHR 0x22] @ s @ [CHR 0x22]"

definition MNODEUI :: "string \<Rightarrow> string" where
  "MNODEUI r = ''MEM: Can'' @ [CHR 0x27] @ ''t update or insert node with '' @ quoted r @ '' JVMRoute''"
definition MBALAUI :: "string \<Rightarrow> string" where
  "MBALAUI r = ''MEM: Can'' @ [CHR 0x27] @ ''t update or insert balancer for node with '' @ quoted r @ '' JVMRoute''"
definition MNODERD :: "string \<Rightarrow> string" where
  "MNODERD r = ''MEM: Can'' @ [CHR 0x27] @ ''t read node with '' @ quoted r @ '' JVMRoute''"
definition MHOSTUI :: "string \<Rightarrow> string" where
  "MHOSTUI r = ''MEM: Can'' @ [CHR 0x27] @ ''t update or insert host alias for node with '' @ quoted r @ '' JVMRoute''"
definition MCONTUI :: "string \<Rightarrow> string" where
  "MCONTUI r = ''MEM: Can'' @ [CHR 0x27] @ ''t update or insert context for node with '' @ quoted r @ '' JVMRoute''"
definition MNODEET :: string where "MNODEET = ''MEM: Another for the same worker already exist''"
definition MNODEEX :: "string \<Rightarrow> string" where
  "MNODEEX r = ''MEM: Node with '' @ quoted r @ '' JVMRoute already exists''"

definition insert_update_host_helper ::
  "storage \<Rightarrow> hostinfo slotmem \<Rightarrow> hostinfo \<Rightarrow> string \<Rightarrow> apr_time \<Rightarrow> apr_status \<times> hostinfo slotmem \<times> hostinfo" where
  "insert_update_host_helper S m info alias now =
     insert_update_host (st_host S) m (info\<lparr>h_host := strcpy_n (HOSTALIASZ + 1) alias\<rparr>) now"

definition read_remove_context :: "storage \<Rightarrow> contextinfo slotmem \<Rightarrow> contextinfo \<Rightarrow> contextinfo slotmem" where
  "read_remove_context S m c =
     (case fst (read_context (st_context S) m c) of
        None \<Rightarrow> m
      | Some i \<Rightarrow> snd (remove_context (st_context S) m (c_id (slot m i))))"

definition insert_update_context_helper ::
  "storage \<Rightarrow> contextinfo slotmem \<Rightarrow> contextinfo \<Rightarrow> string \<Rightarrow> int \<Rightarrow> apr_time \<Rightarrow> apr_status \<times> contextinfo slotmem" where
  "insert_update_context_helper S m info0 context status now =
     (let info = info0\<lparr>c_id := 0, c_context := strcpy_n (CONTEXTSZ + 1) context\<rparr> in
      if status = REMOVE then (APR_SUCCESS, read_remove_context S m info)
      else (case insert_update_context (st_context S) m info now of (rv, m', _) \<Rightarrow> (rv, m')))"

definition is_same_node :: "nodeinfo \<Rightarrow> nodeinfo \<Rightarrow> bool" where
  "is_same_node a b \<longleftrightarrow>
     n_balancer (mess a) = n_balancer (mess b) \<and> Host (mess a) = Host (mess b) \<and>
     Port (mess a) = Port (mess b) \<and> Type (mess a) = Type (mess b) \<and>
     n_reversed (mess a) = n_reversed (mess b) \<and> n_smax (mess a) = n_smax (mess b) \<and>
     n_ttl (mess a) = n_ttl (mess b)"

fun same_worker_loop :: "storage \<Rightarrow> manager \<Rightarrow> nodeinfo \<Rightarrow> int list \<Rightarrow> bool" where
  "same_worker_loop S M node [] = False"
| "same_worker_loop S M node (i # is) =
     (if get_node (st_node S) (nodestatsmem M) i \<noteq> APR_SUCCESS then same_worker_loop S M node is
      else let ou = slot (nodestatsmem M) i in
        if is_same_node ou node then
          (if JVMRoute (mess ou) = JVMRoute (mess node) then False
           else if n_remove (mess ou) \<noteq> 0 \<and> JVMRoute (mess ou) = ''REMOVED'' then False
           else True)
        else same_worker_loop S M node is)"

definition is_same_worker_existing :: "storage \<Rightarrow> manager \<Rightarrow> nodeinfo \<Rightarrow> bool" where
  "is_same_worker_existing S M node =
     (if loc_get_max_size_node S M = 0 then False
      else same_worker_loop S M node (get_ids_used_node (st_node S) (nodestatsmem M)))"

text \<open>\<open>apr_table_set\<close>: replace the value of a key, compared without case, or append it.\<close>

fun apr_table_set :: "(string \<times> string) list \<Rightarrow> string \<Rightarrow> string \<Rightarrow> (string \<times> string) list" where
  "apr_table_set [] k v = [(k, v)]"
| "apr_table_set ((k', v') # t) k v =
     (if strcasecmp0 k' k then (k', v) # filter (\<lambda>e. \<not> strcasecmp0 (fst e) k) t
      else (k', v') # apr_table_set t k v)"

fun show_nat :: "nat \<Rightarrow> string" where
  "show_nat n = (if n < 10 then [char_of (48 + n)] else show_nat (n div 10) @ [char_of (48 + n mod 10)])"

declare show_nat.simps [simp del]

definition show_int :: "int \<Rightarrow> string" where
  "show_int i = (if i < 0 then ''-'' @ show_nat (nat (- i)) else show_nat (nat i))"

definition worker_url :: "nodemess \<Rightarrow> string" where
  "worker_url n = Type n @ ''://'' @ Host n @ '':'' @ Port n"

fun hc_params :: "(string \<times> string) list \<Rightarrow> (string \<times> string) list \<Rightarrow> (string \<times> string) list" where
  "hc_params [] params = params"
| "hc_params ((k, v) # es) params =
     hc_params es (case translate_balancer_params k of None \<Rightarrow> params | Some key \<Rightarrow> apr_table_set params key v)"

text \<open>\<open>hct\<close> is the \<open>proxyhctemplate\<close> table. The parameter tables of the calls are returned.\<close>

definition mod_manager_manage_worker ::
  "((string \<times> string) list \<Rightarrow> apr_status) \<Rightarrow> (string \<times> string) list \<Rightarrow> nodemess \<Rightarrow> balancerinfo
     \<Rightarrow> apr_status \<times> (string \<times> string) list list" where
  "mod_manager_manage_worker manage hct n b =
     (let p1 = [(''b'', n_balancer n), (''b_lbm'', ''cluster''), (''b_tmo'', show_int (b_Timeout b)),
                (''b_max'', show_int (Maxattempts b)),
                (''b_ss'', StickySessionCookie b @ ''|'' @ StickySessionPath b),
                (''b_wyes'', ''1''), (''b_nwrkr'', worker_url n)];
          rv = manage p1
      in if rv \<noteq> APR_SUCCESS then (rv, [p1])
         else let p2 = hc_params hct
                [(''b'', n_balancer n), (''w'', worker_url n), (''w_wr'', JVMRoute n), (''w_status_D'', ''0''),
                 (''w_hm'', if Type n \<noteq> ''ajp'' then ''OPTIONS'' else ''CPING''), (''w_hi'', ''10000'')]
              in (manage p2, [p1, p2]))"

section \<open>Reading the message\<close>

fun config_loop ::
  "httpd \<Rightarrow> string list \<Rightarrow> balancerinfo \<times> nodemess \<times> string list \<times> string list
     \<Rightarrow> (balancerinfo \<times> nodemess \<times> string list \<times> string list) outcome" where
  "config_loop H [] acc = Value acc"
| "config_loop H [k] acc = Failure TYPESYNTAX SMESPAR"
| "config_loop H (k # v # rest) (b, n, contexts, aliases) =
     (if v = [] then Failure TYPESYNTAX SMESPAR
      else bind_outcome (process_config_balancer k v b n) (\<lambda>(b', n').
           bind_outcome (process_config_node H k v n') (\<lambda>n''.
           bind_outcome (process_context_alias k (Some v) contexts aliases) (\<lambda>(contexts', aliases').
             config_loop H rest (b', n'', contexts', aliases')))))"

text \<open>AJP secret, WebSocket upgrade and response field size, by connector type.\<close>

definition config_connector :: "mcmp_conf \<Rightarrow> nodemess \<Rightarrow> nodemess" where
  "config_connector mconf n =
     (let n1 =
        (if Type n = ''ajp'' then
           (case ajp_secret mconf of
              Some secret \<Rightarrow> n\<lparr>AJPSecret := strcpy_n AJPSECRETSZ secret\<rparr>
            | None \<Rightarrow> n)
         else if enable_ws_tunnel mconf \<noteq> 0 then
           n\<lparr>Type := (if Type n = ''http'' then ''ws'' else if Type n = ''https'' then ''wss'' else Type n),
             Upgrade := (case ws_upgrade_header mconf of
                           Some h \<Rightarrow> strcpy_n SCHEMENDSZ h | None \<Rightarrow> ''websocket'')\<rparr>
         else n)
      in if Type n1 \<noteq> ''ajp'' \<and> response_field_size mconf \<noteq> 0
         then n1\<lparr>ResponseFieldSize := response_field_size mconf\<rparr> else n1)"

definition config_message ::
  "httpd \<Rightarrow> mcmp_conf \<Rightarrow> string list \<Rightarrow> (balancerinfo \<times> nodemess \<times> string list \<times> string list) outcome" where
  "config_message H mconf ptr =
     bind_outcome
       (config_loop H ptr (process_config_balancer_defaults mconf, process_config_node_defaults H mconf, [], []))
       (\<lambda>(b, n, contexts, aliases).
          if JVMRoute n = [] then Failure TYPESYNTAX SROUBAD
          else if aliases \<noteq> [] \<and> contexts = [] then Failure TYPESYNTAX SALIBAD
          else if aliases = [] \<and> contexts \<noteq> [] then Failure TYPESYNTAX SCONBAD
          else Value (b, config_connector mconf n, contexts, aliases))"

section \<open>Finding the slot\<close>

definition read_node_by_id :: "storage \<Rightarrow> manager \<Rightarrow> int \<Rightarrow> int option" where
  "read_node_by_id S M i =
     read_node (st_node S) (nodestatsmem M) (zero_node\<lparr>mess := zero_mess\<lparr>n_id := i\<rparr>\<rparr>)"

definition update_node_slot :: "int \<Rightarrow> (nodeinfo \<Rightarrow> nodeinfo) \<Rightarrow> manager \<Rightarrow> manager" where
  [manager_defs]: "update_node_slot i f M =
     M\<lparr>nodestatsmem := store (nodestatsmem M) i (f (slot (nodestatsmem M) i))\<rparr>"

definition mark_node_removed :: "storage \<Rightarrow> int \<Rightarrow> apr_time \<Rightarrow> manager \<Rightarrow> manager" where
  "mark_node_removed S i now M =
     (case read_node_by_id S M i of
        None \<Rightarrow> M
      | Some k \<Rightarrow> update_node_slot k (\<lambda>x. x\<lparr>mess := (mess x)\<lparr>JVMRoute := ''REMOVED'', n_remove := 1,
                                              num_remove_check := 0\<rparr>, n_updatetime := now\<rparr>) M)"

text \<open>
  The outcome of looking for the slot: the slot number or -1, whether the worker status is
  to be blanked, the slot of a removed node that is being taken over or -1, and the node to
  insert (with the status of an existing worker copied behind it).
\<close>

record slot_choice =
  sc_id :: int
  sc_clean :: bool
  sc_removed :: int
  sc_node :: nodeinfo

definition config_existing_worker ::
  "storage \<Rightarrow> manager \<Rightarrow> nodeinfo \<Rightarrow> int option \<Rightarrow> worker_shared \<Rightarrow> int \<Rightarrow> manager \<times> slot_choice outcome" where
  "config_existing_worker S M info node worker i =
     (if (case node of Some k \<Rightarrow> n_id (mess (slot (nodestatsmem M) k)) = i | None \<Rightarrow> False)
      then (M, Value \<lparr>sc_id = i, sc_clean = True, sc_removed = -1, sc_node = info\<rparr>)
      else
        let taken =
          (if node \<noteq> None then Value (M, -1)
           else (case read_node_by_id S M i of
                   None \<Rightarrow> Value (M, -1)
                 | Some k \<Rightarrow>
                     let r = JVMRoute (mess (slot (nodestatsmem M) k)) in
                     if r = ''REMOVED'' then
                       Value (update_node_slot k (\<lambda>x. x\<lparr>mess := (mess x)\<lparr>JVMRoute := JVMRoute (mess info)\<rparr>\<rparr>) M, i)
                     else if r \<noteq> [] \<and> r \<noteq> JVMRoute (mess info) then Failure TYPEMEM MNODEET
                     else Value (M, i)))
        in case taken of
             Value (M', removed) \<Rightarrow>
               (M', if ws_port worker = 0 then Undefined
                    else Value \<lparr>sc_id = i, sc_clean = False, sc_removed = removed,
                                sc_node = info\<lparr>stat := worker\<rparr>\<rparr>)
           | Failure t s \<Rightarrow> (loc_unlock_nodes M, Failure t s)
           | Undefined \<Rightarrow> (M, Undefined))"

definition config_no_worker ::
  "storage \<Rightarrow> balancer_method option \<Rightarrow> manager \<Rightarrow> nodeinfo \<Rightarrow> manager \<times> slot_choice outcome" where
  "config_no_worker S bm M info =
     (let (M', i) =
        (case find_node_byhostport (st_node S) (nodestatsmem M) (Host (mess info)) (Port (mess info)) of
           (rv, k) \<Rightarrow>
             if rv = APR_SUCCESS then
               (let w = slot (nodestatsmem M) k in
                (if JVMRoute (mess w) = ''REMOVED''
                 then update_node_slot k (\<lambda>x. x\<lparr>mess := (mess x)\<lparr>JVMRoute := JVMRoute (mess info),
                        n_remove := 0, num_remove_check := 0\<rparr>\<rparr>) M
                 else M, n_id (mess w)))
             else (M, -1));
          i' = (if i = -1 then (case bm of Some b \<Rightarrow> bm_get_free_id b (nodestatsmem M') (loc_get_max_size_node S M')
                                | None \<Rightarrow> -1) else i)
      in (M', Value \<lparr>sc_id = i', sc_clean = True, sc_removed = -1, sc_node = info\<rparr>))"

definition config_find_slot ::
  "storage \<Rightarrow> balancer_method option \<Rightarrow> manager \<Rightarrow> nodeinfo \<Rightarrow> manager \<times> slot_choice outcome" where
  "config_find_slot S bm M info =
     (let node = read_node (st_node S) (nodestatsmem M) info in
      if (case node of Some k \<Rightarrow> \<not> is_same_node (slot (nodestatsmem M) k) info | None \<Rightarrow> False)
      then (loc_unlock_nodes M,
            Failure TYPEMEM (MNODEEX (JVMRoute (mess (slot (nodestatsmem M) (the node))))))
      else if is_same_worker_existing S M info then (loc_unlock_nodes M, Failure TYPEMEM MNODEET)
      else (case (case bm of Some b \<Rightarrow> bm_node_getid b (n_balancer (mess info)) (Type (mess info))
                                         (Host (mess info)) (Port (mess info))
                  | None \<Rightarrow> None) of
              Some (worker, i) \<Rightarrow>
                if i \<noteq> -1 then config_existing_worker S M info node worker i
                else config_no_worker S bm M info
            | None \<Rightarrow> config_no_worker S bm M info))"

section \<open>Inserting\<close>

definition config_reenable ::
  "storage \<Rightarrow> balancer_method option \<Rightarrow> manager \<Rightarrow> nodeinfo \<Rightarrow> int \<Rightarrow> manager outcome" where
  "config_reenable S bm M info i =
     (case read_node_by_id S M i of
        None \<Rightarrow> Undefined
      | Some k \<Rightarrow>
          if n_id (mess (slot (nodestatsmem M) k)) \<noteq> i then Undefined
          else Value (case bm of None \<Rightarrow> M | Some b \<Rightarrow> update_node_slot k (\<lambda>x. bm_reenable b x info) M))"

definition config_insert ::
  "storage \<Rightarrow> balancer_method option \<Rightarrow> apr_time \<Rightarrow> manager \<Rightarrow> balancerinfo \<Rightarrow> slot_choice
     \<Rightarrow> manager \<times> (balancerinfo \<times> nodeinfo \<times> int) outcome" where
  "config_insert S bm now M0 b0 c =
     (let M = loc_lock_nodes M0;
          (old, b) = read_balancer (st_balancer S) (balancerstatsmem M) b0;
          route = JVMRoute (mess (sc_node c))
      in case insert_update_balancer (st_balancer S) (balancerstatsmem M) b now of
           (rv, bmem, b') \<Rightarrow>
             let M1 = M\<lparr>balancerstatsmem := bmem\<rparr> in
             if rv \<noteq> APR_SUCCESS then (loc_unlock_nodes M1, Failure TYPEMEM (MBALAUI route))
             else (case insert_update_node (st_node S) (nodestatsmem M1) (sc_node c) (sc_id c) (sc_clean c) now now of
                (rv', nmem, info, i) \<Rightarrow>
                  let M2 = M1\<lparr>nodestatsmem := nmem\<rparr> in
                  if rv' \<noteq> APR_SUCCESS then
                    (let M3 = (if sc_removed c \<noteq> -1 then mark_node_removed S (sc_removed c) now M2 else M2);
                         M4 = (case old of
                                 Some k \<Rightarrow> M3\<lparr>balancerstatsmem :=
                                   fst (snd (insert_update_balancer (st_balancer S) (balancerstatsmem M3)
                                               (slot (balancerstatsmem M) k) now))\<rparr>
                               | None \<Rightarrow> M3)
                     in (loc_unlock_nodes M4, Failure TYPEMEM (MNODEUI route)))
                  else
                    (case (if sc_clean c then Value M2 else config_reenable S bm M2 info i) of
                       Value M3 \<Rightarrow> (inc_version_node M3, Value (b', info, i))
                     | Failure t s \<Rightarrow> (M2, Failure t s)
                     | Undefined \<Rightarrow> (M2, Undefined))))"

fun config_contexts ::
  "storage \<Rightarrow> apr_time \<Rightarrow> string \<Rightarrow> hostinfo \<Rightarrow> string \<Rightarrow> string list \<Rightarrow> contextinfo slotmem \<Rightarrow> string list
     \<Rightarrow> contextinfo slotmem \<times> string list" where
  "config_contexts S now route hinfo alias [] m errs = (m, errs)"
| "config_contexts S now route hinfo alias (c # cs) m errs =
     (let cinfo = \<lparr>c_id = 0, c_context = [], c_vhost = h_vhost hinfo, c_node = h_node hinfo,
                   c_status = STOPPED, c_nbrequests = 0, c_updatetime = 0\<rparr>
      in case insert_update_context_helper S m cinfo c STOPPED now of
           (rv, m') \<Rightarrow>
             config_contexts S now route hinfo alias cs m'
               (if rv \<noteq> APR_SUCCESS
                then errs @ [MCONTUI route @ '' ('' @ c @ '' and alias: '' @ alias @ '')'']
                else errs))"

fun config_aliases ::
  "storage \<Rightarrow> apr_time \<Rightarrow> string \<Rightarrow> int \<Rightarrow> string list \<Rightarrow> int \<Rightarrow> string list
     \<Rightarrow> manager \<Rightarrow> string list \<Rightarrow> manager \<times> string list" where
  "config_aliases S now route i contexts vid [] M errs = (M, errs)"
| "config_aliases S now route i contexts vid (a # as) M errs =
     (let hinfo = \<lparr>h_id = 0, h_host = [], h_vhost = vid, h_node = i, h_updatetime = 0\<rparr>
      in case insert_update_host_helper S (hoststatsmem M) hinfo a now of
           (rv, hm, hinfo') \<Rightarrow>
             if rv \<noteq> APR_SUCCESS
             then config_aliases S now route i contexts vid as (M\<lparr>hoststatsmem := hm\<rparr>)
                    (errs @ [MHOSTUI route @ '' ('' @ a @ '')''])
             else (case config_contexts S now route hinfo' a contexts (contextstatsmem M) errs of
                     (cm, errs') \<Rightarrow>
                       config_aliases S now route i contexts (vid + 1) as
                         (M\<lparr>hoststatsmem := hm, contextstatsmem := cm\<rparr>) errs'))"

fun join_errors :: "string list \<Rightarrow> string" where
  "join_errors [] = []"
| "join_errors [e] = e"
| "join_errors (e # es) = e @ '', '' @ join_errors es"

text \<open>The calls of \<open>balancer_manage\<close> are recorded; the module only logs their result.\<close>

definition manage_worker ::
  "((string \<times> string) list \<Rightarrow> apr_status) option \<Rightarrow> (string \<times> string) list \<Rightarrow> nodemess \<Rightarrow> balancerinfo
     \<Rightarrow> manager \<Rightarrow> manager" where
  "manage_worker manage hct n b M =
     (case manage of
        None \<Rightarrow> M
      | Some f \<Rightarrow> M\<lparr>managed := managed M @ snd (mod_manager_manage_worker f hct n b)\<rparr>)"

text \<open>The module's environment while a command runs.\<close>

record menv =
  env_storage :: storage
  env_httpd :: httpd
  env_conf :: mcmp_conf
  env_bm :: "balancer_method option"
  env_manage :: "((string \<times> string) list \<Rightarrow> apr_status) option"
  env_hct :: "(string \<times> string) list"

definition config_store ::
  "menv \<Rightarrow> apr_time \<Rightarrow> manager \<Rightarrow> balancerinfo \<times> nodemess \<times> string list \<times> string list
     \<Rightarrow> manager \<times> string outcome" where
  "config_store E now M msg =
     (case msg of (b, n, contexts, aliases) \<Rightarrow>
        let S = env_storage E; bm = env_bm E;
            info0 = \<lparr>mess = n, n_updatetime = 0, stat = zero_shared\<rparr>
        in (case config_find_slot S bm M info0 of
             (M1, Value c) \<Rightarrow>
               (case config_insert S bm now M1 b c of
                  (M2, Value (b', info, i)) \<Rightarrow>
                    if aliases = [] \<and> contexts = []
                    then (loc_unlock_nodes (manage_worker (env_manage E) (env_hct E) (mess info) b' M2), Value [])
                    else (case config_aliases S now (JVMRoute (mess info)) i contexts 1 aliases M2 [] of
                            (M3, errs) \<Rightarrow>
                              (loc_unlock_nodes (manage_worker (env_manage E) (env_hct E) (mess info) b' M3),
                               if errs = [] then Value [] else Failure 0 (join_errors errs)))
                | (M2, Failure t s) \<Rightarrow> (M2, Failure t s)
                | (M2, Undefined) \<Rightarrow> (M2, Undefined))
           | (M1, Failure t s) \<Rightarrow> (M1, Failure t s)
           | (M1, Undefined) \<Rightarrow> (M1, Undefined)))"

definition process_config :: "menv \<Rightarrow> apr_time \<Rightarrow> manager \<Rightarrow> string list \<Rightarrow> manager \<times> string outcome" where
  "process_config E now M ptr =
     (case config_message (env_httpd E) (env_conf E) ptr of
        Value msg \<Rightarrow> config_store E now M msg
      | Failure t s \<Rightarrow> (M, Failure t s)
      | Undefined \<Rightarrow> (M, Undefined))"

section \<open>What a message that was read satisfies\<close>

lemma config_loop_fits:
  assumes "config_loop H ptr (b, n, cs, as) = Value (b', n', cs', as')"
    and "balancer_fits b" and "node_fits H n"
  shows "balancer_fits b' \<and> node_fits H n'"
  using assms
proof (induction H ptr "(b, n, cs, as)" arbitrary: b n cs as rule: config_loop.induct)
  case (3 H k v rest b n cs as)
  then have v: "v \<noteq> []" by (auto split: if_splits)
  with 3 obtain b1 n1 where pb: "process_config_balancer k v b n = Value (b1, n1)"
    by (cases "process_config_balancer k v b n") auto
  with 3 v obtain n2 where pn: "process_config_node H k v n1 = Value n2"
    by (cases "process_config_node H k v n1") auto
  with 3 v pb obtain cs1 as1 where pa: "process_context_alias k (Some v) cs as = Value (cs1, as1)"
    by (cases "process_context_alias k (Some v) cs as") auto
  have "balancer_fits b1" "node_fits H n1" using process_config_balancer_fits [OF 3(3,4) pb] by simp_all
  then show ?case
    using 3(1) [OF v] pb pn pa 3(2) v process_config_node_fits [of H n1 k v n2] by simp
qed simp_all

lemma config_connector_fits:
  "node_fits H n \<Longrightarrow> node_fits H (config_connector mconf n)"
  using strcpy_n_length [of AJPSECRETSZ] strcpy_n_length [of SCHEMENDSZ]
  by (auto simp: node_fits_def config_connector_def Let_def split: option.splits)

section \<open>What the steps keep\<close>

text \<open>
  The contract with the proxy module: bringing a worker back changes the worker status behind
  the node description, never the description; testing a node may also count the workers made
  for it, and touches nothing but the node table.
\<close>

definition same_desc :: "nodeinfo \<Rightarrow> nodeinfo \<Rightarrow> bool" where
  "same_desc x y \<longleftrightarrow> mess y = (mess x)\<lparr>has_workers := has_workers (mess y)\<rparr>"

definition worker_only :: "manager \<Rightarrow> manager \<Rightarrow> bool" where
  "worker_only M M' \<longleftrightarrow> M' = M\<lparr>nodestatsmem := nodestatsmem M'\<rparr> \<and>
     inuse (nodestatsmem M') = inuse (nodestatsmem M) \<and>
     list_all2 same_desc (items (nodestatsmem M)) (items (nodestatsmem M'))"

locale balancer_provider =
  fixes b :: balancer_method
  assumes reenable_mess: "mess (bm_reenable b x info) = mess x"
    and isup_worker: "bm_node_isup b M i load = (rv, M') \<Longrightarrow> worker_only M M'"

definition bm_ok :: "balancer_method option \<Rightarrow> bool" where
  "bm_ok bm \<longleftrightarrow> (\<forall>b. bm = Some b \<longrightarrow> balancer_provider b)"

lemma update_node_slot_simps [simp]:
  "hoststatsmem (update_node_slot i f M) = hoststatsmem M"
  "contextstatsmem (update_node_slot i f M) = contextstatsmem M"
  "balancerstatsmem (update_node_slot i f M) = balancerstatsmem M"
  "version_counter (update_node_slot i f M) = version_counter M"
  "node_lock (update_node_slot i f M) = node_lock M"
  "used (nodestatsmem (update_node_slot i f M)) j = used (nodestatsmem M) j"
  by (simp_all add: update_node_slot_def)

lemma update_node_slot_ok:
  assumes "manager_ok M" and "\<And>x. n_id (mess (f x)) = n_id (mess x)"
  shows "manager_ok (update_node_slot i f M)"
proof -
  have "nodes_ok (nodestatsmem (update_node_slot i f M))"
    using assms nodes_ok_store [of "nodestatsmem M"]
    by (simp add: update_node_slot_def manager_ok_def tables_ok_def)
  with assms(1) show ?thesis
    by (simp add: manager_ok_def tables_ok_def refs_ok_def hosts_ref_def)
qed

lemma update_node_slot_mess:
  assumes "\<And>x. mess (f x) = mess x"
  shows "mess (slot (nodestatsmem (update_node_slot k f M)) j) = mess (slot (nodestatsmem M) j)"
  using assms by (cases "nat k < length (items (nodestatsmem M))"; cases "nat j = nat k")
    (simp_all add: update_node_slot_def slot_def store_def list_update_beyond)

lemma lock_simps [simp]:
  "nodestatsmem (loc_lock_nodes M) = nodestatsmem M" "nodestatsmem (loc_unlock_nodes M) = nodestatsmem M"
  "hoststatsmem (loc_lock_nodes M) = hoststatsmem M" "hoststatsmem (loc_unlock_nodes M) = hoststatsmem M"
  "contextstatsmem (loc_lock_nodes M) = contextstatsmem M" "contextstatsmem (loc_unlock_nodes M) = contextstatsmem M"
  "balancerstatsmem (loc_lock_nodes M) = balancerstatsmem M" "balancerstatsmem (loc_unlock_nodes M) = balancerstatsmem M"
  "version_counter (loc_lock_nodes M) = version_counter M" "version_counter (loc_unlock_nodes M) = version_counter M"
  "node_lock (loc_lock_nodes M) = node_lock M + 1" "node_lock (loc_unlock_nodes M) = node_lock M - 1"
  by (simp_all add: manager_defs)

lemma manage_worker_simps [simp]:
  "nodestatsmem (manage_worker f h n b M) = nodestatsmem M" "hoststatsmem (manage_worker f h n b M) = hoststatsmem M"
  "contextstatsmem (manage_worker f h n b M) = contextstatsmem M"
  "balancerstatsmem (manage_worker f h n b M) = balancerstatsmem M"
  "version_counter (manage_worker f h n b M) = version_counter M" "node_lock (manage_worker f h n b M) = node_lock M"
  by (simp_all add: manage_worker_def split: option.splits)

lemma inc_version_simps [simp]:
  "nodestatsmem (inc_version_node M) = nodestatsmem M" "hoststatsmem (inc_version_node M) = hoststatsmem M"
  "contextstatsmem (inc_version_node M) = contextstatsmem M" "balancerstatsmem (inc_version_node M) = balancerstatsmem M"
  "version_counter (inc_version_node M) = version_counter M + 1" "node_lock (inc_version_node M) = node_lock M"
  by (simp_all add: inc_version_node_def)

lemma manager_ok_cong:
  "nodestatsmem M' = nodestatsmem M \<Longrightarrow> hoststatsmem M' = hoststatsmem M \<Longrightarrow>
   contextstatsmem M' = contextstatsmem M \<Longrightarrow> balancerstatsmem M' = balancerstatsmem M \<Longrightarrow>
   manager_ok M' \<longleftrightarrow> manager_ok M"
  by (simp add: manager_ok_def tables_ok_def refs_ok_def)

lemma worker_only_refl [simp]: "worker_only M M"
  by (simp add: worker_only_def same_desc_def list_all2_refl)

lemma worker_only_slot:
  assumes "worker_only M M'" and "nat i < length (items (nodestatsmem M))"
  shows "same_desc (slot (nodestatsmem M) i) (slot (nodestatsmem M') i)"
  using assms by (auto simp: worker_only_def slot_def list_all2_conv_all_nth)

lemma worker_only_ok:
  assumes "manager_ok M" and "worker_only M M'"
  shows "manager_ok M'"
proof -
  have len: "length (items (nodestatsmem M')) = length (items (nodestatsmem M))"
    and iu: "inuse (nodestatsmem M') = inuse (nodestatsmem M)" and M': "M' = M\<lparr>nodestatsmem := nodestatsmem M'\<rparr>"
    using assms(2) by (auto simp: worker_only_def dest: list_all2_lengthD)
  have id: "node_ident (items (nodestatsmem M') ! j) = node_ident (items (nodestatsmem M) ! j)"
    if "j < length (items (nodestatsmem M))" for j
    using worker_only_slot [OF assms(2), of "int j"] that
    by (auto simp: same_desc_def slot_def node_ident_def) (metis nodemess.select_convs(1) nodemess.surjective nodemess.update_convs(13))
  have "nodes_ok (nodestatsmem M')" and "used (nodestatsmem M') j = used (nodestatsmem M) j" for j
    using assms(1) len iu id
    by (auto simp: manager_ok_def tables_ok_def nodes_ok_def wf_slotmem_def ids_ok_def used_def in_range_def)
  moreover have "hoststatsmem M' = hoststatsmem M" "contextstatsmem M' = contextstatsmem M"
    "balancerstatsmem M' = balancerstatsmem M" by (subst M', simp)+
  ultimately show ?thesis using assms(1) by (simp add: manager_ok_def tables_ok_def refs_ok_def hosts_ref_def)
qed

lemma manager_ok_simps [simp]:
  "manager_ok (loc_lock_nodes M) = manager_ok M"
  "manager_ok (loc_unlock_nodes M) = manager_ok M"
  "manager_ok (inc_version_node M) = manager_ok M"
  "manager_ok (manage_worker manage hct n b M) = manager_ok M"
  by (rule manager_ok_cong; simp)+

text \<open>Looking for the slot may hand a removed node's slot to the new route, and nothing else.\<close>

lemma config_existing_worker_ok:
  assumes "manager_ok M" and "config_existing_worker S M info node worker i = (M', r)"
  shows "manager_ok M'" and "version_counter M' = version_counter M"
    and "r = Value c \<Longrightarrow> node_lock M' = node_lock M \<and> mess (sc_node c) = mess info"
  using assms
  by (auto simp: config_existing_worker_def Let_def update_node_slot_ok
      split: if_splits option.splits outcome.splits)

lemma config_no_worker_ok:
  assumes "manager_ok M" and "config_no_worker S bm M info = (M', r)"
  shows "manager_ok M'" and "version_counter M' = version_counter M"
    and "r = Value c \<Longrightarrow> node_lock M' = node_lock M \<and> mess (sc_node c) = mess info"
  using assms
  by (auto simp: config_no_worker_def Let_def update_node_slot_ok split: if_splits prod.splits)

lemma config_find_slot_ok:
  assumes "manager_ok M" and "config_find_slot S bm M info = (M', r)"
  shows "manager_ok M'" and "version_counter M' = version_counter M"
    and "r = Value c \<Longrightarrow> node_lock M' = node_lock M \<and> mess (sc_node c) = mess info"
proof -
  have "(manager_ok M' \<and> version_counter M' = version_counter M) \<and>
      (r = Value c \<longrightarrow> node_lock M' = node_lock M \<and> mess (sc_node c) = mess info)"
    using assms config_existing_worker_ok [OF assms(1), of S info _ _ _ M' r]
      config_no_worker_ok [OF assms(1), of S bm info M' r]
    by (auto simp: config_find_slot_def Let_def split: if_splits option.splits prod.splits)
  then show "manager_ok M'" "version_counter M' = version_counter M"
    "r = Value c \<Longrightarrow> node_lock M' = node_lock M \<and> mess (sc_node c) = mess info" by simp_all
qed

text \<open>An application is present with a status; an alias is present.\<close>

definition context_has :: "int \<Rightarrow> contextinfo slotmem \<Rightarrow> string \<times> int \<times> int \<Rightarrow> bool" where
  "context_has s cm k \<longleftrightarrow> (\<exists>y. tbl_map context_key cm k = Some y \<and> c_status y = s)"

definition host_has :: "hostinfo slotmem \<Rightarrow> string \<times> int \<times> int \<Rightarrow> bool" where
  "host_has hm k \<longleftrightarrow> tbl_map host_key hm k \<noteq> None"

text \<open>The steps after the message was read never report a syntax error.\<close>

lemma config_find_slot_type:
  "config_find_slot S bm M info = (M', Failure t s) \<Longrightarrow> t = TYPEMEM"
  by (auto simp: config_find_slot_def config_existing_worker_def config_no_worker_def Let_def
      split: if_splits option.splits prod.splits outcome.splits)

lemma config_insert_type:
  "config_insert S bm now M b c = (M', Failure t s) \<Longrightarrow> t = TYPEMEM"
  by (auto simp: config_insert_def config_reenable_def Let_def
      split: if_splits option.splits prod.splits outcome.splits)

context manager_storage
begin

lemma context_has_step:
  assumes ok: "table_ok c_id context_key cm"
    and p: "insert_update_context (st_context S) cm x now = (rv, cm', x')"
  shows "context_has (c_status x) cm k \<Longrightarrow> context_has (c_status x) cm' k"
    and "rv = APR_SUCCESS \<Longrightarrow> context_has (c_status x) cm' (context_key x)"
proof -
  have put: "context_put (st_context S) now cm x = (rv, cm')" using p by simp
  show new: "context_has (c_status x) cm' (context_key x)" if "rv = APR_SUCCESS"
    using contexts.put_lookup [OF ok put [unfolded that]]
    by (cases "tbl_map context_key cm (context_key x)")
      (auto simp: context_has_def context_merge_def context_fresh_def,
       metis contextinfo.select_convs(5) contextinfo.surjective contextinfo.update_convs(1,6,7))
  show "context_has (c_status x) cm' k" if "context_has (c_status x) cm k"
  proof (cases "k = context_key x")
    case False
    with contexts.put_frame [OF ok False, of now] put that show ?thesis by (simp add: context_has_def)
  next
    case True
    have wf: "wf_slotmem cm" using ok by (simp add: table_ok_def)
    have "rv = APR_SUCCESS"
      using that True contexts.put_fails_iff [OF wf, of x now] put
      by (auto simp: context_has_def tbl_map_def)
    with new True show ?thesis by simp
  qed
qed

lemma host_has_step:
  assumes ok: "table_ok h_id host_key hm"
    and p: "insert_update_host (st_host S) hm x now = (rv, hm', x')"
  shows "host_has hm k \<Longrightarrow> host_has hm' k" and "rv = APR_SUCCESS \<Longrightarrow> host_has hm' (host_key x)"
proof -
  have put: "host_put (st_host S) now hm x = (rv, hm')" using p by simp
  show new: "host_has hm' (host_key x)" if "rv = APR_SUCCESS"
    using hosts.put_lookup [OF ok put [unfolded that]] by (auto simp: host_has_def)
  show "host_has hm' k" if "host_has hm k"
  proof (cases "k = host_key x")
    case False
    with hosts.put_frame [OF ok False, of now] put that show ?thesis by (simp add: host_has_def)
  next
    case True
    have wf: "wf_slotmem hm" using ok by (simp add: table_ok_def)
    have "rv = APR_SUCCESS"
      using that True hosts.put_fails_iff [OF wf, of x now] put by (auto simp: host_has_def tbl_map_def)
    with new True show ?thesis by simp
  qed
qed

lemma config_contexts_ok:
  assumes "table_ok c_id context_key cm" and "contexts_ref hm cm"
    and "host_row hm (h_vhost hinfo) (h_node hinfo)"
    and "config_contexts S now route hinfo alias cs cm errs = (cm', errs')"
  shows "table_ok c_id context_key cm' \<and> contexts_ref hm cm' \<and>
     (\<forall>k. context_has STOPPED cm k \<longrightarrow> context_has STOPPED cm' k) \<and>
     (errs' = [] \<longrightarrow> errs = [] \<and>
       (\<forall>c \<in> set cs. context_has STOPPED cm' (strcpy_n (CONTEXTSZ + 1) c, h_vhost hinfo, h_node hinfo)))"
  using assms
proof (induction cs arbitrary: cm errs)
  case (Cons c cs)
  let ?x = "\<lparr>c_id = 0, c_context = strcpy_n (CONTEXTSZ + 1) c, c_vhost = h_vhost hinfo, c_node = h_node hinfo,
     c_status = STOPPED, c_nbrequests = 0, c_updatetime = 0\<rparr>"
  obtain rv cm1 x' where ic: "insert_update_context (st_context S) cm ?x now = (rv, cm1, x')"
    using prod_cases3 by blast
  define errs1 where "errs1 = (if rv \<noteq> APR_SUCCESS
     then errs @ [MCONTUI route @ '' ('' @ c @ '' and alias: '' @ alias @ '')''] else errs)"
  have rest: "config_contexts S now route hinfo alias cs cm1 errs1 = (cm', errs')"
    using Cons.prems(4) ic by (simp add: insert_update_context_helper_def errs1_def)
  have ok1: "table_ok c_id context_key cm1" "contexts_ref hm cm1"
    using context_step [OF Cons.prems(1,2) _ ic] Cons.prems(3) by simp_all
  note IH = Cons.IH [OF ok1 Cons.prems(3) rest]
  have "errs1 = [] \<Longrightarrow> errs = [] \<and> rv = APR_SUCCESS" by (auto simp: errs1_def split: if_splits)
  with IH context_has_step [OF Cons.prems(1) ic] show ?case by (auto simp: context_key_def)
qed simp

lemma manager_ok_vhosts:
  assumes "manager_ok M" and "table_ok h_id host_key hm" and "table_ok c_id context_key cm"
    and "hosts_ref (nodestatsmem M) hm" and "contexts_ref hm cm"
  shows "manager_ok (M\<lparr>hoststatsmem := hm, contextstatsmem := cm\<rparr>)"
  using assms by (simp add: manager_ok_def tables_ok_def refs_ok_def)

lemma config_aliases_ok:
  assumes "manager_ok M" and "used (nodestatsmem M) i"
    and "config_aliases S now route i contexts vid aliases M errs = (M', errs')"
  shows "manager_ok M' \<and> nodestatsmem M' = nodestatsmem M \<and> balancerstatsmem M' = balancerstatsmem M \<and>
     version_counter M' = version_counter M \<and> node_lock M' = node_lock M \<and>
     (\<forall>k. context_has STOPPED (contextstatsmem M) k \<longrightarrow> context_has STOPPED (contextstatsmem M') k) \<and>
     (\<forall>k. host_has (hoststatsmem M) k \<longrightarrow> host_has (hoststatsmem M') k) \<and>
     (errs' = [] \<longrightarrow> errs = [] \<and> (\<forall>a \<in> set aliases. \<exists>v.
        host_has (hoststatsmem M') (strcpy_n (HOSTALIASZ + 1) a, v, i) \<and>
        (\<forall>c \<in> set contexts. context_has STOPPED (contextstatsmem M') (strcpy_n (CONTEXTSZ + 1) c, v, i))))"
  using assms
proof (induction aliases arbitrary: M vid errs)
  case (Cons a as)
  let ?x = "\<lparr>h_id = 0, h_host = strcpy_n (HOSTALIASZ + 1) a, h_vhost = vid, h_node = i, h_updatetime = 0\<rparr>"
  obtain rv hm x' where ih: "insert_update_host (st_host S) (hoststatsmem M) ?x now = (rv, hm, x')"
    using prod_cases3 by blast
  have t: "table_ok h_id host_key (hoststatsmem M)" "table_ok c_id context_key (contextstatsmem M)"
    and r: "hosts_ref (nodestatsmem M) (hoststatsmem M)" "contexts_ref (hoststatsmem M) (contextstatsmem M)"
    using Cons.prems(1) by (simp_all add: manager_ok_def tables_ok_def refs_ok_def)
  have n: "used (nodestatsmem M) (h_node ?x)" using Cons.prems(2) by simp
  note hs = host_step [OF t(1) r n ih]
  note hh = host_has_step [OF t(1) ih]
  show ?case
  proof (cases "rv = APR_SUCCESS")
    case False
    let ?M1 = "M\<lparr>hoststatsmem := hm\<rparr>"
    have "manager_ok ?M1" using manager_ok_vhosts [OF Cons.prems(1) hs(1) t(2) hs(2,3)] by simp
    moreover have "config_aliases S now route i contexts vid as ?M1 (errs @ [MHOSTUI route @ '' ('' @ a @ '')'']) = (M', errs')"
      using Cons.prems(3) ih False by (simp add: insert_update_host_helper_def)
    ultimately show ?thesis
      using Cons.IH [of ?M1 vid "errs @ [MHOSTUI route @ '' ('' @ a @ '')'']"] Cons.prems(2) hh(1) by simp
  next
    case True
    obtain cm errs1 where cc: "config_contexts S now route x' a contexts (contextstatsmem M) errs = (cm, errs1)"
      by fastforce
    have x': "h_vhost x' = vid" "h_node x' = i" using hs(6) by simp_all
    have "host_row hm (h_vhost x') (h_node x')" using hs(5) [OF True] x' by simp
    note ccok = config_contexts_ok [OF t(2) hs(3) this cc]
    let ?M1 = "M\<lparr>hoststatsmem := hm, contextstatsmem := cm\<rparr>"
    have "manager_ok ?M1" using manager_ok_vhosts [OF Cons.prems(1) hs(1) _ hs(2)] ccok by blast
    moreover have "config_aliases S now route i contexts (vid + 1) as ?M1 errs1 = (M', errs')"
      using Cons.prems(3) ih True cc by (simp add: insert_update_host_helper_def)
    ultimately have IH: "manager_ok M' \<and> nodestatsmem M' = nodestatsmem M \<and> balancerstatsmem M' = balancerstatsmem M \<and>
       version_counter M' = version_counter M \<and> node_lock M' = node_lock M \<and>
       (\<forall>k. context_has STOPPED cm k \<longrightarrow> context_has STOPPED (contextstatsmem M') k) \<and>
       (\<forall>k. host_has hm k \<longrightarrow> host_has (hoststatsmem M') k) \<and>
       (errs' = [] \<longrightarrow> errs1 = [] \<and> (\<forall>a \<in> set as. \<exists>v.
          host_has (hoststatsmem M') (strcpy_n (HOSTALIASZ + 1) a, v, i) \<and>
          (\<forall>c \<in> set contexts. context_has STOPPED (contextstatsmem M') (strcpy_n (CONTEXTSZ + 1) c, v, i))))"
      using Cons.IH [of ?M1 "vid + 1" errs1] Cons.prems(2) by simp
    have "host_has hm (strcpy_n (HOSTALIASZ + 1) a, vid, i)" using hh(2) [OF True] by (simp add: host_key_def)
    then have "errs' = [] \<Longrightarrow> \<exists>v. host_has (hoststatsmem M') (strcpy_n (HOSTALIASZ + 1) a, v, i) \<and>
        (\<forall>c \<in> set contexts. context_has STOPPED (contextstatsmem M') (strcpy_n (CONTEXTSZ + 1) c, v, i))"
      using IH ccok unfolding x' by (intro exI [of _ vid]) simp
    with IH ccok hh(1) show ?thesis by simp
  qed
qed simp

lemma balancer_step_ok:
  assumes "manager_ok M"
  shows "manager_ok (M\<lparr>balancerstatsmem := fst (snd (insert_update_balancer (st_balancer S) (balancerstatsmem M) b now))\<rparr>)"
  using assms balancers.put_table_ok [of "balancerstatsmem M" b now]
  by (auto simp: manager_ok_def tables_ok_def refs_ok_def split: prod.splits)

lemma node_step_ok:
  assumes "manager_ok M"
    and "insert_update_node (st_node S) (nodestatsmem M) x i clean now0 now1 = (rv, nm', x', i')"
  shows "manager_ok (M\<lparr>nodestatsmem := nm'\<rparr>)"
  using assms(1) node_step [OF _ assms(2)]
  by (auto simp: manager_ok_def tables_ok_def refs_ok_def elim: hosts_ref_mono)

lemma config_reenable_ok:
  assumes "manager_ok M" and "bm_ok bm" and "config_reenable S bm M info i = Value M'"
  shows "manager_ok M' \<and> version_counter M' = version_counter M \<and> node_lock M' = node_lock M \<and>
     balancerstatsmem M' = balancerstatsmem M \<and>
     (\<forall>j. used (nodestatsmem M') j = used (nodestatsmem M) j) \<and>
     (\<forall>j. used (nodestatsmem M) j \<longrightarrow> mess (slot (nodestatsmem M') j) = mess (slot (nodestatsmem M) j))"
proof -
  have keep: "mess (bm_reenable b x info) = mess x" if "bm = Some b" for b x
    using assms(2) that balancer_provider.reenable_mess [of b x info] by (simp add: bm_ok_def)
  have up: ?thesis if "M' = update_node_slot k f M" and "\<And>x. mess (f x) = mess x" for k f
    using that assms(1) update_node_slot_ok [OF assms(1), of f k] update_node_slot_mess [of f k M] by simp
  show ?thesis
  proof (cases bm)
    case None
    with assms(1,3) show ?thesis by (auto simp: config_reenable_def split: option.splits if_splits)
  next
    case (Some b)
    with assms(3) obtain k where "M' = update_node_slot k (\<lambda>x. bm_reenable b x info) M"
      by (auto simp: config_reenable_def split: option.splits if_splits)
    with keep [OF Some] show ?thesis by (rule up [rotated])
  qed
qed

lemma read_balancer_record:
  assumes "wf_slotmem m" and "read_balancer (st_balancer S) m b = (r, b')"
  shows "b' = b\<lparr>b_id := b_id b'\<rparr>"
proof -
  have *: "\<And>ou. loc_read_balancer ou (Data b) = (if b_balancer ou = b_balancer b
       then (APR_EEXIST, ou, Data (b\<lparr>b_id := b_id ou\<rparr>)) else (APR_SUCCESS, ou, Data b))"
    by (simp add: loc_read_balancer_def)
  show ?thesis
    using assms(2) sb.doall_search [where f = loc_read_balancer and d = "Data b" and g = "\<lambda>ou. ou"
        and Q = "\<lambda>ou. b_balancer ou = b_balancer b" and h = "\<lambda>ou. Data (b\<lparr>b_id := b_id ou\<rparr>)", OF assms(1) *]
    by (auto simp: read_balancer_def Let_def split: if_splits option.splits)
qed

lemma balancer_stored:
  assumes ok: "table_ok b_id balancer_key m"
    and p: "insert_update_balancer (st_balancer S) m b now = (APR_SUCCESS, m', b')"
  shows "\<exists>k t. tbl_map balancer_key m' (b_balancer b) = Some (b\<lparr>b_id := k, b_updatetime := t\<rparr>)"
proof -
  have "balancer_put (st_balancer S) now m b = (APR_SUCCESS, m')" using p by simp
  from balancers.put_lookup [OF ok this] show ?thesis
    by (cases "tbl_map balancer_key m (b_balancer b)")
      (auto simp: balancer_key_def balancer_merge_def balancer_fresh_def, metis)
qed

lemma mark_node_removed_ok: "manager_ok M \<Longrightarrow> manager_ok (mark_node_removed S i now M)"
  by (simp add: mark_node_removed_def update_node_slot_ok split: option.splits)

lemma config_insert_ok:
  assumes ok: "manager_ok M" and bm: "bm_ok bm" and p: "config_insert S bm now M b c = (M', r)"
  shows "manager_ok M' \<and> (\<forall>b' info i. r = Value (b', info, i) \<longrightarrow>
     used (nodestatsmem M') i \<and> mess (slot (nodestatsmem M') i) = (mess (sc_node c))\<lparr>n_id := i\<rparr> \<and>
     JVMRoute (mess info) = JVMRoute (mess (sc_node c)) \<and>
     version_counter M' = version_counter M + 1 \<and> node_lock M' = node_lock M + 1 \<and>
     (\<exists>k t. tbl_map balancer_key (balancerstatsmem M') (b_balancer b) = Some (b\<lparr>b_id := k, b_updatetime := t\<rparr>)))"
proof -
  let ?L = "loc_lock_nodes M"
  obtain old b1 where rb: "read_balancer (st_balancer S) (balancerstatsmem ?L) b = (old, b1)" by fastforce
  obtain rv bmem b' where ib: "insert_update_balancer (st_balancer S) (balancerstatsmem ?L) b1 now = (rv, bmem, b')"
    using prod_cases3 by blast
  let ?M1 = "?L\<lparr>balancerstatsmem := bmem\<rparr>"
  have ok1: "manager_ok ?M1" using balancer_step_ok [of ?L b1 now] ok ib by simp
  show ?thesis
  proof (cases "rv = APR_SUCCESS")
    case False
    with p rb ib ok1 show ?thesis by (auto simp: config_insert_def)
  next
    case rv: True
    obtain rv' nmem info i where im: "insert_update_node (st_node S) (nodestatsmem ?M1) (sc_node c) (sc_id c)
        (sc_clean c) now now = (rv', nmem, info, i)" using prod_cases4 by blast
    let ?M2 = "?M1\<lparr>nodestatsmem := nmem\<rparr>"
    have ok2: "manager_ok ?M2" by (rule node_step_ok [OF ok1 im])
    show ?thesis
    proof (cases "rv' = APR_SUCCESS")
      case False
      let ?M3 = "if sc_removed c \<noteq> -1 then mark_node_removed S (sc_removed c) now ?M2 else ?M2"
      have ok3: "manager_ok ?M3" using ok2 mark_node_removed_ok by simp
      have "manager_ok M' \<and> (\<exists>t s. r = Failure t s)"
        using p rb ib rv im False ok3 balancer_step_ok [OF ok3]
        by (cases old) (auto simp: config_insert_def Let_def)
      then show ?thesis by auto
    next
      case rv': True
      have "nodes_ok (nodestatsmem ?M1)" using ok1 by (simp add: manager_ok_def tables_ok_def)
      note ns = node_step [OF this im]
      obtain k where b1: "b1 = b\<lparr>b_id := k\<rparr>"
        using read_balancer_record [OF _ rb] ok by (simp add: manager_ok_def tables_ok_def table_ok_def)
      have bal: "\<exists>k t. tbl_map balancer_key bmem (b_balancer b) = Some (b\<lparr>b_id := k, b_updatetime := t\<rparr>)"
        using balancer_stored [OF _ ib [unfolded rv]] ok unfolding b1
        by (auto simp: manager_ok_def tables_ok_def)
      have res: "(M', r) = (case (if sc_clean c then Value ?M2 else config_reenable S bm ?M2 info i) of
           Value M3 \<Rightarrow> (inc_version_node M3, Value (b', info, i))
         | Failure t s \<Rightarrow> (?M2, Failure t s) | Undefined \<Rightarrow> (?M2, Undefined))"
        using p rb ib rv im rv' by (simp add: config_insert_def Let_def)
      show ?thesis
      proof (cases "if sc_clean c then Value ?M2 else config_reenable S bm ?M2 info i")
        case (Value M3)
        then have "manager_ok M3 \<and> version_counter M3 = version_counter ?M2 \<and> node_lock M3 = node_lock ?M2 \<and>
            balancerstatsmem M3 = balancerstatsmem ?M2 \<and>
            (\<forall>j. used (nodestatsmem M3) j = used (nodestatsmem ?M2) j) \<and>
            (\<forall>j. used (nodestatsmem ?M2) j \<longrightarrow> mess (slot (nodestatsmem M3) j) = mess (slot (nodestatsmem ?M2) j))"
          using ok2 config_reenable_ok [OF ok2 bm, of info i M3] by (auto split: if_splits)
        moreover have "JVMRoute (mess info) = JVMRoute (mess (sc_node c))"
          using ns(6) by (auto simp: set_node_id_def)
        ultimately show ?thesis using res Value ns(4) [OF rv'] bal by auto
      qed (use res ok2 in auto)
    qed
  qed
qed

lemma config_store_ok:
  assumes ok: "manager_ok M" and bm: "bm_ok (env_bm E)" and S: "env_storage E = S"
    and p: "config_store E now M (b, n, contexts, aliases) = (M', r)"
  shows "manager_ok M' \<and> (\<forall>s. r \<noteq> Failure TYPESYNTAX s) \<and> (\<forall>out. r = Value out \<longrightarrow>
     version_counter M' = version_counter M + 1 \<and> node_lock M' = node_lock M \<and>
     (\<exists>k t. tbl_map balancer_key (balancerstatsmem M') (b_balancer b) = Some (b\<lparr>b_id := k, b_updatetime := t\<rparr>)) \<and>
     (\<exists>i. used (nodestatsmem M') i \<and> mess (slot (nodestatsmem M') i) = n\<lparr>n_id := i\<rparr> \<and>
        (\<forall>a \<in> set aliases. \<exists>v. host_has (hoststatsmem M') (strcpy_n (HOSTALIASZ + 1) a, v, i) \<and>
           (\<forall>c \<in> set contexts. context_has STOPPED (contextstatsmem M') (strcpy_n (CONTEXTSZ + 1) c, v, i)))))"
proof -
  let ?info = "\<lparr>mess = n, n_updatetime = 0, stat = zero_shared\<rparr>"
  obtain M1 fs where fs: "config_find_slot S (env_bm E) M ?info = (M1, fs)" by fastforce
  note fsok = config_find_slot_ok [OF ok fs]
  show ?thesis
  proof (cases fs)
    case (Failure t s)
    with fs fsok(1) p S show ?thesis
      using config_find_slot_type [of S "env_bm E" M ?info M1 t s] by (auto simp: config_store_def)
  next
    case Undefined
    with fs fsok(1) p S show ?thesis by (auto simp: config_store_def)
  next
    case (Value c)
    obtain M2 ir where ir: "config_insert S (env_bm E) now M1 b c = (M2, ir)" by fastforce
    note irok = config_insert_ok [OF fsok(1) bm ir]
    show ?thesis
    proof (cases ir)
      case (Failure t s)
      with fs Value ir irok p S show ?thesis
        using config_insert_type [of S "env_bm E" now M1 b c M2 t s] by (auto simp: config_store_def)
    next
      case Undefined
      with fs Value ir irok p S show ?thesis by (auto simp: config_store_def)
    next
      case res: (Value x)
      obtain b' info i where x: "x = (b', info, i)" by (cases x)
      have fr: "node_lock M1 = node_lock M" "mess (sc_node c) = n" using fsok(3) [OF Value] by simp_all
      obtain M3 errs where al: "config_aliases S now (JVMRoute (mess info)) i contexts 1 aliases M2 [] = (M3, errs)"
        by fastforce
      have i: "used (nodestatsmem M2) i" and ok2: "manager_ok M2" using irok res x by auto
      note alok = config_aliases_ok [OF ok2 i al]
      have "(aliases = [] \<and> contexts = [] \<longrightarrow> M3 = M2 \<and> errs = [])" using al by auto
      then have "M' = loc_unlock_nodes (manage_worker (env_manage E) (env_hct E) (mess info) b' M3) \<and>
          r = (if errs = [] then Value [] else Failure 0 (join_errors errs))"
        using p fs Value ir res x al S by (auto simp: config_store_def split: if_splits)
      then show ?thesis using alok irok res x fr fsok(2) by (auto split: if_splits)
    qed
  qed
qed

lemma process_config_ok:
  assumes "manager_ok M" and "bm_ok (env_bm E)" and "env_storage E = S"
  shows "manager_ok (fst (process_config E now M ptr))"
proof (cases "config_message (env_httpd E) (env_conf E) ptr")
  case (Value msg)
  obtain b n contexts aliases where "msg = (b, n, contexts, aliases)" by (cases msg)
  with Value show ?thesis
    using config_store_ok [OF assms, of now b n contexts aliases]
    by (cases "config_store E now M msg") (auto simp: process_config_def)
qed (use assms in \<open>simp_all add: process_config_def\<close>)

end

section \<open>Properties\<close>

text \<open>A small manager and environment to apply the theorems to.\<close>

definition blank_slots :: "nat \<Rightarrow> 'a \<Rightarrow> 'a slotmem" where
  "blank_slots n z = \<lparr>items = replicate n z, inuse = replicate n False\<rparr>"

definition small_manager :: manager where
  "small_manager = \<lparr>nodestatsmem = blank_slots 2 zero_node,
     hoststatsmem = blank_slots 2 \<lparr>h_id = 0, h_host = [], h_vhost = 0, h_node = 0, h_updatetime = 0\<rparr>,
     contextstatsmem = blank_slots 2 \<lparr>c_id = 0, c_context = [], c_vhost = 0, c_node = 0, c_status = 0,
        c_nbrequests = 0, c_updatetime = 0\<rparr>,
     balancerstatsmem = blank_slots 2 \<lparr>b_id = 0, b_balancer = [], StickySession = 0, StickySessionCookie = [],
        StickySessionPath = [], StickySessionRemove = 0, StickySessionForce = 0, b_Timeout = 0,
        Maxattempts = 0, b_updatetime = 0\<rparr>,
     sessionidstatsmem = None,
     domainstatsmem = blank_slots 2 \<lparr>d_id = 0, d_domain = [], d_JVMRoute = [], d_balancer = [], d_updatetime = 0\<rparr>,
     version_counter = 0, tableversion = 0, node_lock = 0, managed = []\<rparr>"

definition small_env :: menv where
  "small_env = \<lparr>env_storage = shm_storage,
     env_httpd = \<lparr>JVMROUTESZ = 96, PROXY_FLUSH_WAIT = 10000, flush_off = 0, flush_on = 1, flush_auto = 2,
       ap_timeout_parameter_parse = (\<lambda>_ _. None)\<rparr>,
     env_conf = \<lparr>balancername = None, ajp_secret = None, enable_ws_tunnel = 0, ws_upgrade_header = None,
       response_field_size = 0\<rparr>,
     env_bm = None, env_manage = None, env_hct = []\<rparr>"

lemma small_manager_ok: "manager_ok small_manager"
  by (simp add: manager_ok_def tables_ok_def refs_ok_def nodes_ok_def table_ok_def wf_slotmem_def ids_ok_def
      keys_ok_def hosts_ref_def contexts_ref_def small_manager_def blank_slots_def)

lemma small_env_ok: "manager_storage (env_storage small_env)" "bm_ok (env_bm small_env)"
  using shm_mgr.manager_storage_axioms by (simp_all add: small_env_def bm_ok_def)

text \<open>C5: Buffer safety of CONFIG: whatever the message, the text fields of the node and of the
  balancer it produces fit their fixed-size buffers together with the terminating NUL.\<close>

theorem config_message_fits:
  assumes "0 < JVMROUTESZ H" and "config_message H mconf ptr = Value (b, n, contexts, aliases)"
  shows "balancer_fits b \<and> node_fits H n \<and> JVMRoute n \<noteq> []"
proof -
  obtain n0 where loop: "config_loop H ptr (process_config_balancer_defaults mconf,
      process_config_node_defaults H mconf, [], []) = Value (b, n0, contexts, aliases)"
    and n: "n = config_connector mconf n0" and r: "JVMRoute n0 \<noteq> []"
    using assms(2) by (cases "config_loop H ptr (process_config_balancer_defaults mconf,
      process_config_node_defaults H mconf, [], [])") (auto simp: config_message_def split: if_splits)
  have "JVMRoute n = JVMRoute n0" using n by (simp add: config_connector_def Let_def split: option.splits)
  with config_loop_fits [OF loop balancer_defaults_fit node_defaults_fit [OF assms(1)]] config_connector_fits r n
  show ?thesis by simp
qed

theorem config_message_fits_witness:
  "\<exists>b n c a. config_message (env_httpd small_env) (env_conf small_env) [''JVMRoute'', ''n1''] = Value (b, n, c, a) \<and>
     node_fits (env_httpd small_env) n"
proof -
  have "case config_message (env_httpd small_env) (env_conf small_env) [''JVMRoute'', ''n1''] of
      Value _ \<Rightarrow> True | _ \<Rightarrow> False" by code_simp
  then obtain b n c a where "config_message (env_httpd small_env) (env_conf small_env) [''JVMRoute'', ''n1''] =
      Value (b, n, c, a)" by (auto split: outcome.splits)
  moreover have "0 < JVMROUTESZ (env_httpd small_env)" by (simp add: small_env_def)
  ultimately show ?thesis using config_message_fits by blast
qed



text \<open>C3: A CONFIG command that succeeds registers the node: some slot in use holds exactly the
  description of the message, the balancer is stored under its name, every alias is present on that
  node and under it every application, stopped; the version counter has moved by one and the lock is
  released.\<close>

theorem process_config_registers:
  assumes "manager_storage (env_storage E)" and "bm_ok (env_bm E)" and "manager_ok M"
    and "config_message (env_httpd E) (env_conf E) ptr = Value (b, n, contexts, aliases)"
    and "process_config E now M ptr = (M', Value out)"
  shows "version_counter M' = version_counter M + 1 \<and> node_lock M' = node_lock M \<and>
     (\<exists>k t. tbl_map balancer_key (balancerstatsmem M') (b_balancer b) = Some (b\<lparr>b_id := k, b_updatetime := t\<rparr>)) \<and>
     (\<exists>i. used (nodestatsmem M') i \<and> mess (slot (nodestatsmem M') i) = n\<lparr>n_id := i\<rparr> \<and>
        (\<forall>a \<in> set aliases. \<exists>v. host_has (hoststatsmem M') (strcpy_n (HOSTALIASZ + 1) a, v, i) \<and>
           (\<forall>c \<in> set contexts. context_has STOPPED (contextstatsmem M') (strcpy_n (CONTEXTSZ + 1) c, v, i))))"
proof -
  have "config_store E now M (b, n, contexts, aliases) = (M', Value out)"
    using assms(4,5) by (simp add: process_config_def)
  from manager_storage.config_store_ok [OF assms(1,3,2) refl this] show ?thesis by simp
qed

theorem process_config_registers_witness:
  "\<exists>M'. process_config small_env 7 small_manager [''JVMRoute'', ''n1''] = (M', Value []) \<and> version_counter M' = 1 \<and>
     (\<exists>i. used (nodestatsmem M') i \<and> JVMRoute (mess (slot (nodestatsmem M') i)) = ''n1'')"
proof -
  have "case config_message (env_httpd small_env) (env_conf small_env) [''JVMRoute'', ''n1''] of
      Value (b, n, c, a) \<Rightarrow> JVMRoute n = ''n1'' | _ \<Rightarrow> False" by code_simp
  then obtain b n c a where msg: "config_message (env_httpd small_env) (env_conf small_env) [''JVMRoute'', ''n1''] =
      Value (b, n, c, a)" and n: "JVMRoute n = ''n1''" by (auto split: outcome.splits)
  have "snd (process_config small_env 7 small_manager [''JVMRoute'', ''n1'']) = Value []" by code_simp
  then obtain M' where r: "process_config small_env 7 small_manager [''JVMRoute'', ''n1''] = (M', Value [])"
    by (cases "process_config small_env 7 small_manager [''JVMRoute'', ''n1'']") auto
  from process_config_registers [OF small_env_ok small_manager_ok msg r] r n show ?thesis
    by (auto simp: small_manager_def)
qed

text \<open>C4: A CONFIG message that is refused as a syntax error changes nothing.\<close>

theorem process_config_syntax_error:
  assumes "manager_storage (env_storage E)" and "bm_ok (env_bm E)" and "manager_ok M"
    and "process_config E now M ptr = (M', Failure TYPESYNTAX err)"
  shows "M' = M"
proof (cases "config_message (env_httpd E) (env_conf E) ptr")
  case (Value msg)
  obtain b n contexts aliases where "msg = (b, n, contexts, aliases)" by (cases msg)
  with Value assms(4) have "config_store E now M (b, n, contexts, aliases) = (M', Failure TYPESYNTAX err)"
    by (simp add: process_config_def)
  from manager_storage.config_store_ok [OF assms(1,3,2) refl this] show ?thesis by simp
qed (use assms in \<open>simp_all add: process_config_def\<close>)

theorem process_config_syntax_error_witness:
  "fst (process_config small_env 7 small_manager [''Balancer'', ''b'']) = small_manager"
proof -
  have "snd (process_config small_env 7 small_manager [''Balancer'', ''b'']) = Failure TYPESYNTAX SROUBAD"
    by code_simp
  then obtain M' where r: "process_config small_env 7 small_manager [''Balancer'', ''b''] = (M', Failure TYPESYNTAX SROUBAD)"
    by (cases "process_config small_env 7 small_manager [''Balancer'', ''b'']") auto
  from process_config_syntax_error [OF small_env_ok small_manager_ok r] r show ?thesis by simp
qed

end
