(* ===== verification/App_Command.thy ===== *)
theory App_Command
  imports Config_Command
begin

text \<open>
  The application commands of \<open>mod_manager.c\<close>: \<open>process_app_cmd\<close> behind ENABLE-APP,
  DISABLE-APP, STOP-APP and REMOVE-APP, with \<open>process_node_cmd\<close> for a whole node, and the text
  of the answer. A command works on the record of the node it found, named here by its slot
  number. The loop of ENABLE-APP that only logs contexts known to another balancer has no effect
  and is left out.
\<close>

section \<open>Commands on a whole node\<close>

fun node_cmd_contexts ::
  "storage \<Rightarrow> apr_time \<Rightarrow> int \<Rightarrow> hostinfo \<Rightarrow> int list \<Rightarrow> contextinfo slotmem \<Rightarrow> contextinfo slotmem" where
  "node_cmd_contexts S now status ou [] cm = cm"
| "node_cmd_contexts S now status ou (i # is) cm =
     (if get_context (st_context S) cm i \<noteq> APR_SUCCESS then node_cmd_contexts S now status ou is cm
      else let context = slot cm i in
        if c_vhost context = h_vhost ou \<and> c_node context = h_node ou then
          node_cmd_contexts S now status ou is
            (if status \<noteq> REMOVE
             then fst (snd (insert_update_context (st_context S) (store cm i (context\<lparr>c_status := status\<rparr>))
                              (context\<lparr>c_status := status\<rparr>) now))
             else snd (remove_context (st_context S) cm (c_id context)))
        else node_cmd_contexts S now status ou is cm)"

fun node_cmd_hosts ::
  "storage \<Rightarrow> apr_time \<Rightarrow> int \<Rightarrow> int \<Rightarrow> int list \<Rightarrow> hostinfo slotmem \<times> contextinfo slotmem
     \<Rightarrow> hostinfo slotmem \<times> contextinfo slotmem" where
  "node_cmd_hosts S now status node [] t = t"
| "node_cmd_hosts S now status node (i # is) (hm, cm) =
     (if get_host (st_host S) hm i \<noteq> APR_SUCCESS then node_cmd_hosts S now status node is (hm, cm)
      else let ou = slot hm i in
        if h_node ou \<noteq> node then node_cmd_hosts S now status node is (hm, cm)
        else node_cmd_hosts S now status node is
          (if status = REMOVE then snd (remove_host (st_host S) hm (h_id ou)) else hm,
           node_cmd_contexts S now status ou (get_ids_used_context (st_context S) cm) cm))"

text \<open>
  The final \<open>insert_update_node\<close> finds the node's own record again; the slot number it is handed
  is never read.
\<close>

definition process_node_cmd :: "storage \<Rightarrow> apr_time \<Rightarrow> int \<Rightarrow> int \<Rightarrow> manager \<Rightarrow> manager" where
  "process_node_cmd S now status k M =
     (if loc_get_max_size_host S M = 0 then M
      else let node = n_id (mess (slot (nodestatsmem M) k));
               (hm, cm) = node_cmd_hosts S now status node (get_ids_used_host (st_host S) (hoststatsmem M))
                            (hoststatsmem M, contextstatsmem M);
               M1 = M\<lparr>hoststatsmem := hm, contextstatsmem := cm\<rparr>
           in if status \<noteq> REMOVE then M1
              else let M2 = update_node_slot k (\<lambda>x. x\<lparr>mess := (mess x)\<lparr>n_remove := 1\<rparr>\<rparr>) M1 in
                M2\<lparr>nodestatsmem := fst (snd (insert_update_node (st_node S) (nodestatsmem M2)
                     (slot (nodestatsmem M2) k) (-1) False now now))\<rparr>)"

section \<open>Commands on applications\<close>

fun app_loop ::
  "httpd \<Rightarrow> string list \<Rightarrow> string \<times> string list \<times> string list \<Rightarrow> (string \<times> string list \<times> string list) outcome" where
  "app_loop H [] acc = Value acc"
| "app_loop H [k] acc = Undefined"
| "app_loop H (k # v # rest) (route, contexts, aliases) =
     (if strcasecmp0 k ''JVMRoute'' \<and> length v \<ge> JVMROUTESZ H then Failure TYPESYNTAX SROUBIG
      else bind_outcome (process_context_alias k (Some v) contexts aliases) (\<lambda>(contexts', aliases').
             app_loop H rest (if strcasecmp0 k ''JVMRoute'' then v else route, contexts', aliases')))"

definition app_message ::
  "httpd \<Rightarrow> bool \<Rightarrow> string list \<Rightarrow> (string \<times> string list \<times> string list) outcome" where
  "app_message H global ptr =
     bind_outcome (app_loop H ptr ([], [], [])) (\<lambda>(route, contexts, aliases).
       if route = [] then Failure TYPESYNTAX SROUBAD
       else if \<not> global \<and> contexts = [] \<and> aliases = [] then Failure TYPESYNTAX NOCONAL
       else if \<not> global \<and> contexts = [] \<and> aliases \<noteq> [] then Failure TYPESYNTAX SALIBAD
       else if \<not> global \<and> contexts \<noteq> [] \<and> aliases = [] then Failure TYPESYNTAX SCONBAD
       else Value (route, contexts, aliases))"

text \<open>The largest virtual host number of the node, starting from \<open>vid\<close>.\<close>

fun max_vhost :: "storage \<Rightarrow> hostinfo slotmem \<Rightarrow> int \<Rightarrow> int list \<Rightarrow> int \<Rightarrow> int" where
  "max_vhost S hm node [] vid = vid"
| "max_vhost S hm node (i # is) vid =
     (if get_host (st_host S) hm i \<noteq> APR_SUCCESS then max_vhost S hm node is vid
      else let ou = slot hm i in
        max_vhost S hm node is (if h_node ou = node \<and> h_vhost ou > vid then h_vhost ou else vid))"

text \<open>The virtual host of an alias, created unless the command is REMOVE-APP; the slot of its record.\<close>

definition app_host ::
  "storage \<Rightarrow> apr_time \<Rightarrow> int \<Rightarrow> int \<Rightarrow> string \<Rightarrow> int \<Rightarrow> hostinfo slotmem \<Rightarrow> hostinfo slotmem \<times> int \<times> int option" where
  "app_host S now cmd node alias vid hm =
     (let hostinfo = \<lparr>h_id = 0, h_host = strcpy_n (HOSTALIASZ + 1) alias, h_vhost = 0, h_node = node, h_updatetime = 0\<rparr>
      in case read_host (st_host S) hm hostinfo of
           (Some k, _) \<Rightarrow> (hm, vid, Some k)
         | (None, hostinfo1) \<Rightarrow>
             if cmd = REMOVE then (hm, vid, None)
             else let vid' = max_vhost S hm node (get_ids_used_host (st_host S) hm) vid + 1
                  in (case insert_update_host (st_host S) hm (hostinfo1\<lparr>h_vhost := vid'\<rparr>) now of
                        (rv, hm', hostinfo2) \<Rightarrow>
                          if rv \<noteq> APR_SUCCESS then (hm', vid', None)
                          else (hm', vid', fst (read_host (st_host S) hm' hostinfo2))))"

fun app_contexts ::
  "storage \<Rightarrow> apr_time \<Rightarrow> int \<Rightarrow> int \<Rightarrow> int \<Rightarrow> string list \<Rightarrow> contextinfo slotmem \<Rightarrow> contextinfo slotmem \<times> bool list" where
  "app_contexts S now cmd node vhost [] cm = (cm, [])"
| "app_contexts S now cmd node vhost (c # cs) cm =
     (let info = \<lparr>c_id = 0, c_context = [], c_vhost = vhost, c_node = node, c_status = cmd, c_nbrequests = 0,
                  c_updatetime = 0\<rparr>
      in case insert_update_context_helper S cm info c cmd now of
           (rv, cm') \<Rightarrow>
             (case app_contexts S now cmd node vhost cs cm' of
                (cm'', row) \<Rightarrow> (cm'', (rv = APR_SUCCESS) # row)))"

text \<open>REMOVE-APP drops the virtual host when none of its applications is left.\<close>

fun vhost_has_context :: "storage \<Rightarrow> contextinfo slotmem \<Rightarrow> int \<Rightarrow> int \<Rightarrow> int list \<Rightarrow> bool" where
  "vhost_has_context S cm vhost node [] = False"
| "vhost_has_context S cm vhost node (i # is) =
     (if get_context (st_context S) cm i \<noteq> APR_SUCCESS then vhost_has_context S cm vhost node is
      else let ou = slot cm i in
        if c_vhost ou = vhost \<and> c_node ou = node then True else vhost_has_context S cm vhost node is)"

definition app_remove_host ::
  "storage \<Rightarrow> int \<Rightarrow> int \<Rightarrow> contextinfo slotmem \<Rightarrow> hostinfo slotmem \<Rightarrow> hostinfo slotmem" where
  "app_remove_host S vhost node cm hm =
     (if vhost_has_context S cm vhost node (get_ids_used_context (st_context S) cm) then hm
      else release_where (st_host S) h_id (\<lambda>ou. h_vhost ou = vhost \<and> h_node ou = node)
             (get_ids_used_host (st_host S) hm) hm)"

text \<open>One row of \<open>updated_aliases_contexts\<close> per alias: which contexts were processed.\<close>

fun app_aliases ::
  "storage \<Rightarrow> apr_time \<Rightarrow> int \<Rightarrow> int \<Rightarrow> string list \<Rightarrow> int \<Rightarrow> string list
     \<Rightarrow> hostinfo slotmem \<times> contextinfo slotmem \<Rightarrow> (hostinfo slotmem \<times> contextinfo slotmem) \<times> bool list list" where
  "app_aliases S now cmd node contexts vid [] t = (t, [])"
| "app_aliases S now cmd node contexts vid (a # as) (hm, cm) =
     (case app_host S now cmd node a vid hm of
        (hm1, vid1, None) \<Rightarrow>
          (case app_aliases S now cmd node contexts vid1 as (hm1, cm) of
             (t, rows) \<Rightarrow> (t, replicate (length contexts) False # rows))
      | (hm1, vid1, Some k) \<Rightarrow>
          let vhost = h_vhost (slot hm1 k) in
          (case app_contexts S now cmd node vhost contexts cm of
             (cm1, row) \<Rightarrow>
               (case app_aliases S now cmd node contexts vid1 as
                       (if cmd = REMOVE then app_remove_host S vhost node cm1 hm1 else hm1, cm1) of
                  (t, rows) \<Rightarrow> (t, row # rows))))"

section \<open>The answer\<close>

definition nl :: string where "nl = [CHR 0x0A]"

definition app_rsp_type :: "int \<Rightarrow> string" where
  "app_rsp_type cmd =
     (if cmd = ENABLED then ''Type=ENABLE-APP-RSP'' else if cmd = STOPPED then ''Type=STOP-APP-RSP''
      else if cmd = DISABLED then ''Type=DISABLE-APP-RSP'' else ''Type=REMOVE-APP-RSP'')"

fun print_row :: "string \<Rightarrow> (string \<times> bool) list \<Rightarrow> string \<times> string" where
  "print_row str [] = (str, [])"
| "print_row str ((c, touched) # r) =
     (if touched then (case print_row '','' r of (str', out) \<Rightarrow> (str', str @ c @ out)) else print_row str r)"

fun print_rows :: "string list \<Rightarrow> string list \<Rightarrow> bool list list \<Rightarrow> string" where
  "print_rows contexts (a # as) (row # rows) =
     (case print_row (nl @ ''Alias='' @ take HOSTALIASZ a @ '' Contexts='') (zip contexts row) of
        (str, out) \<Rightarrow> out @ (if take 1 str = '','' then nl else []) @ print_rows contexts as rows)"
| "print_rows contexts _ _ = []"

definition print_app_cmd_response ::
  "httpd \<Rightarrow> int \<Rightarrow> string \<Rightarrow> bool list list \<Rightarrow> string list \<Rightarrow> string list \<Rightarrow> string" where
  "print_app_cmd_response H cmd route updated aliases contexts =
     app_rsp_type cmd @ nl @ ''JvmRoute='' @ take (JVMROUTESZ H) route @ print_rows contexts aliases updated @ nl"

section \<open>The command\<close>

definition NODE_COMMAND :: string where "NODE_COMMAND = ''/NODE_COMMAND''"

definition process_app_cmd ::
  "menv \<Rightarrow> apr_time \<Rightarrow> string \<Rightarrow> int \<Rightarrow> manager \<Rightarrow> string list \<Rightarrow> manager \<times> string outcome" where
  "process_app_cmd E now filename cmd M ptr =
     (let S = env_storage E; global = (filename = NODE_COMMAND) in
      case app_message (env_httpd E) global ptr of
        Failure t s \<Rightarrow> (M, Failure t s)
      | Undefined \<Rightarrow> (M, Undefined)
      | Value (route, contexts, aliases) \<Rightarrow>
          (let M1 = loc_lock_nodes M in
           case read_node (st_node S) (nodestatsmem M1)
                  (zero_node\<lparr>mess := zero_mess\<lparr>JVMRoute := route, n_id := -1\<rparr>\<rparr>) of
             None \<Rightarrow> (loc_unlock_nodes M1, Failure TYPEMEM (MNODERD route))
           | Some k \<Rightarrow>
               (if n_remove (mess (slot (nodestatsmem M1) k)) \<noteq> 0
                then (loc_unlock_nodes M1, Failure TYPEMEM (MNODERD route))
                else let M2 = inc_version_node M1 in
                  if global then (loc_unlock_nodes (process_node_cmd S now cmd k M2), Value [])
                  else (case app_aliases S now cmd (n_id (mess (slot (nodestatsmem M2) k))) contexts 0 aliases
                               (hoststatsmem M2, contextstatsmem M2) of
                          ((hm, cm), updated) \<Rightarrow>
                            (loc_unlock_nodes (M2\<lparr>hoststatsmem := hm, contextstatsmem := cm\<rparr>),
                             Value (print_app_cmd_response (env_httpd E) cmd route updated aliases contexts))))))"

definition process_enable :: "menv \<Rightarrow> apr_time \<Rightarrow> string \<Rightarrow> manager \<Rightarrow> string list \<Rightarrow> manager \<times> string outcome" where
  "process_enable E now filename M ptr = process_app_cmd E now filename ENABLED M ptr"

definition process_disable :: "menv \<Rightarrow> apr_time \<Rightarrow> string \<Rightarrow> manager \<Rightarrow> string list \<Rightarrow> manager \<times> string outcome" where
  "process_disable E now filename M ptr = process_app_cmd E now filename DISABLED M ptr"

definition process_stop :: "menv \<Rightarrow> apr_time \<Rightarrow> string \<Rightarrow> manager \<Rightarrow> string list \<Rightarrow> manager \<times> string outcome" where
  "process_stop E now filename M ptr = process_app_cmd E now filename STOPPED M ptr"

definition process_remove :: "menv \<Rightarrow> apr_time \<Rightarrow> string \<Rightarrow> manager \<Rightarrow> string list \<Rightarrow> manager \<times> string outcome" where
  "process_remove E now filename M ptr = process_app_cmd E now filename REMOVE M ptr"

section \<open>What the steps keep\<close>

definition vhosts_ok :: "nodeinfo slotmem \<Rightarrow> hostinfo slotmem \<Rightarrow> contextinfo slotmem \<Rightarrow> bool" where
  "vhosts_ok nm hm cm \<longleftrightarrow> table_ok h_id host_key hm \<and> table_ok c_id context_key cm \<and>
     hosts_ref nm hm \<and> contexts_ref hm cm"

lemma manager_ok_vhosts_ok: "manager_ok M \<longleftrightarrow> nodes_ok (nodestatsmem M) \<and>
    vhosts_ok (nodestatsmem M) (hoststatsmem M) (contextstatsmem M) \<and> table_ok b_id balancer_key (balancerstatsmem M)"
  by (auto simp: manager_ok_def tables_ok_def refs_ok_def vhosts_ok_def)

lemma used_row:
  "wf_slotmem hm \<Longrightarrow> used hm k \<Longrightarrow> host_row hm (h_vhost (slot hm k)) (h_node (slot hm k))"
  by (auto simp: host_row_def used_def in_range_def slot_def wf_slotmem_def intro!: exI [of _ "nat k"])

lemma loc_read_host_search:
  "loc_read_host ou (Data x) = (if h_host ou = h_host x \<and> h_node ou = h_node x
     then (APR_EEXIST, ou, Data (x\<lparr>h_id := h_id ou\<rparr>)) else (APR_SUCCESS, ou, Data x))"
  by (auto simp: loc_read_host_def)

lemma loc_read_context_search:
  "loc_read_context ou (Data x) = (if context_key ou = context_key x
     then (APR_EEXIST, ou, Data (x\<lparr>c_id := c_id ou\<rparr>)) else (APR_SUCCESS, ou, Data x))"
  by (auto simp: loc_read_context_def context_key_def)

text \<open>Commands on a whole node, in closed form.\<close>

definition at_host :: "hostinfo \<Rightarrow> contextinfo \<Rightarrow> bool" where
  "at_host ou c \<longleftrightarrow> c_vhost c = h_vhost ou \<and> c_node c = h_node ou"

definition set_status :: "apr_time \<Rightarrow> int \<Rightarrow> contextinfo \<Rightarrow> contextinfo" where
  "set_status now status c = c\<lparr>c_status := status, c_updatetime := apr_time_sec now\<rparr>"

definition status_where :: "apr_time \<Rightarrow> int \<Rightarrow> (nat \<Rightarrow> bool) \<Rightarrow> contextinfo slotmem \<Rightarrow> contextinfo slotmem" where
  "status_where now status Q cm =
     cm\<lparr>items := map (\<lambda>j. if Q j then set_status now status (items cm ! j) else items cm ! j) [0..<length (items cm)]\<rparr>"

lemma status_where_simps [simp]:
  "inuse (status_where now status Q cm) = inuse cm"
  "length (items (status_where now status Q cm)) = length (items cm)"
  "used_slots (status_where now status Q cm) = used_slots cm"
  by (simp_all add: status_where_def used_slots_def)

lemma status_where_nth: "j < length (items cm) \<Longrightarrow>
    items (status_where now status Q cm) ! j = (if Q j then set_status now status (items cm ! j) else items cm ! j)"
  by (simp add: status_where_def)

lemma set_status_simps [simp]:
  "c_id (set_status now status c) = c_id c" "c_vhost (set_status now status c) = c_vhost c"
  "c_node (set_status now status c) = c_node c" "c_context (set_status now status c) = c_context c"
  "context_key (set_status now status c) = context_key c"
  "at_host ou (set_status now status c) = at_host ou c" "c_status (set_status now status c) = status"
  "set_status now status (set_status now status c) = set_status now status c"
  by (simp_all add: set_status_def context_key_def at_host_def)

lemma status_where_ok:
  assumes "table_ok c_id context_key cm"
  shows "table_ok c_id context_key (status_where now status Q cm)"
  using assms by (auto simp: table_ok_def wf_slotmem_def ids_ok_def keys_ok_def status_where_nth)

lemma status_where_comp:
  "status_where now status Q' (status_where now status Q cm) = status_where now status (\<lambda>j. Q j \<or> Q' j) cm"
  unfolding status_where_def by (auto intro!: list_eq_iff_nth_eq [THEN iffD2] arg_cong [where f = "\<lambda>x. cm\<lparr>items := x\<rparr>"])

lemma status_where_cong:
  "(\<And>j. j < length (items cm) \<Longrightarrow> Q j = Q' j) \<Longrightarrow> status_where now status Q cm = status_where now status Q' cm"
  by (simp add: status_where_def cong: map_cong)

context manager_storage
begin

lemmas doall_loc_read_host =
  sh.doall_search [where f = loc_read_host and d = "Data x" and g = "\<lambda>ou. ou"
    and Q = "\<lambda>ou. h_host ou = h_host x \<and> h_node ou = h_node x" and h = "\<lambda>ou. Data (x\<lparr>h_id := h_id ou\<rparr>)" for x,
    OF _ loc_read_host_search]

lemmas doall_loc_read_context =
  sc.doall_search [where f = loc_read_context and d = "Data x" and g = "\<lambda>ou. ou"
    and Q = "\<lambda>ou. context_key ou = context_key x" and h = "\<lambda>ou. Data (x\<lparr>c_id := c_id ou\<rparr>)" for x,
    OF _ loc_read_context_search]

lemma read_host_found:
  assumes ok: "table_ok h_id host_key hm" and p: "read_host (st_host S) hm x = (Some k, x')"
    and start: "h_id x = 0 \<or> used hm (h_id x) \<and> h_node (slot hm (h_id x)) = h_node x \<and> h_host (slot hm (h_id x)) = h_host x"
  shows "used hm k \<and> h_node (slot hm k) = h_node x \<and> h_host (slot hm k) = h_host x"
proof (cases "h_id x = 0")
  case True
  have wf: "wf_slotmem hm" and ids: "ids_ok h_id hm" using ok by (simp_all add: table_ok_def)
  note d = doall_loc_read_host [OF wf, of x]
  obtain i where i: "first_used (\<lambda>ou. h_host ou = h_host x \<and> h_node ou = h_node x) hm = Some i"
    and k: "k = h_id (items hm ! i)"
    using p True d by (auto simp: read_host_def Let_def split: option.splits if_splits)
  then have "i < length (inuse hm)" "inuse hm ! i" "k = int i" "h_host (items hm ! i) = h_host x"
    "h_node (items hm ! i) = h_node x" using ids by (auto simp: first_used_Some ids_ok_def)
  with wf show ?thesis by (simp add: used_def in_range_def slot_def wf_slotmem_def)
next
  case False
  with p start show ?thesis by (auto simp: read_host_def Let_def split: if_splits)
qed

lemma read_host_miss_record:
  assumes ok: "table_ok h_id host_key hm" and p: "read_host (st_host S) hm x = (None, x')" and "h_id x = 0"
  shows "x' = x"
proof -
  have wf: "wf_slotmem hm" and ids: "ids_ok h_id hm" using ok by (simp_all add: table_ok_def)
  note d = doall_loc_read_host [OF wf, of x]
  have "dptr (st_host S) hm (h_id (items hm ! i)) = APR_SUCCESS"
    if "first_used (\<lambda>ou. h_host ou = h_host x \<and> h_node ou = h_node x) hm = Some i" for i
    using that ids wf sh.dptr_used [OF wf, of "int i"]
    by (auto simp: first_used_Some ids_ok_def used_def in_range_def wf_slotmem_def)
  with p d assms(3) show ?thesis by (auto simp: read_host_def Let_def split: option.splits if_splits)
qed

lemma insert_host_caller:
  assumes ok: "table_ok h_id host_key hm" and "h_id x = 0"
    and p: "insert_update_host (st_host S) hm x now = (APR_SUCCESS, hm', x')"
  shows "h_id x' = 0 \<or> used hm' (h_id x') \<and> h_node (slot hm' (h_id x')) = h_node x' \<and> h_host (slot hm' (h_id x')) = h_host x'"
proof (cases "first_used (\<lambda>y. host_key y = host_key x) hm")
  case None
  with p assms(2) hosts.insert_update_host_miss [of hm x now] ok show ?thesis
    by (auto simp: table_ok_def split: prod.splits)
next
  case (Some i)
  have wf: "wf_slotmem hm" and ids: "ids_ok h_id hm" using ok by (simp_all add: table_ok_def)
  have i: "i < length (inuse hm)" "inuse hm ! i" using Some by (auto simp: first_used_Some)
  then have "h_id (items hm ! i) = int i" using ids by (simp add: ids_ok_def)
  moreover have "hm' = store hm (int i) (host_merge now x (items hm ! i))" "x' = x\<lparr>h_id := h_id (items hm ! i)\<rparr>"
    using p [unfolded hosts.insert_update_host_hit [OF wf Some]] by auto
  ultimately show ?thesis using i wf
    by (simp add: used_def in_range_def wf_slotmem_def host_merge_def)
qed

lemma app_host_ok:
  assumes ok: "vhosts_ok nm hm cm" and n: "used nm node"
    and p: "app_host S now cmd node a vid hm = (hm', vid', r)"
  shows "vhosts_ok nm hm' cm" and "r = Some k \<Longrightarrow> used hm' k \<and> h_node (slot hm' k) = node \<and>
      h_host (slot hm' k) = strcpy_n (HOSTALIASZ + 1) a"
proof -
  let ?x = "\<lparr>h_id = 0, h_host = strcpy_n (HOSTALIASZ + 1) a, h_vhost = 0, h_node = node, h_updatetime = 0\<rparr>"
  have t: "table_ok h_id host_key hm" and refs: "hosts_ref nm hm" "contexts_ref hm cm"
    and tc: "table_ok c_id context_key cm" using ok by (simp_all add: vhosts_ok_def)
  obtain found x1 where rd: "read_host (st_host S) hm ?x = (found, x1)" by fastforce
  have goal: "vhosts_ok nm hm' cm \<and> (\<forall>k. r = Some k \<longrightarrow> used hm' k \<and> h_node (slot hm' k) = node \<and>
      h_host (slot hm' k) = strcpy_n (HOSTALIASZ + 1) a)"
  proof (cases found)
    case (Some k)
    with p rd have "hm' = hm" "r = Some k" by (auto simp: app_host_def)
    with read_host_found [OF t rd [unfolded Some]] ok show ?thesis by simp
  next
    case None
    show ?thesis
    proof (cases "cmd = REMOVE")
      case True
      with p rd None ok show ?thesis by (auto simp: app_host_def)
    next
      case False
      have x1: "x1 = ?x"
        using rd None read_host_miss_record [OF t, of ?x] by simp
      obtain rv hm1 x2 where ins: "insert_update_host (st_host S) hm (?x\<lparr>h_vhost := vid'\<rparr>) now = (rv, hm1, x2)"
        using prod_cases3 by blast
      have res: "hm' = hm1" "r = (if rv = APR_SUCCESS then fst (read_host (st_host S) hm1 x2) else None)"
        using p rd None False ins unfolding x1 by (auto simp: app_host_def Let_def split: prod.splits if_splits)
      have n': "used nm (h_node (?x\<lparr>h_vhost := vid'\<rparr>))" using n by simp
      note hs = host_step [OF t refs n' ins]
      have "vhosts_ok nm hm' cm" using hs res tc by (simp add: vhosts_ok_def)
      moreover have "used hm' k \<and> h_node (slot hm' k) = node \<and> h_host (slot hm' k) = strcpy_n (HOSTALIASZ + 1) a"
        if "r = Some k" for k
      proof -
        have rv: "rv = APR_SUCCESS" and "\<exists>y. read_host (st_host S) hm1 x2 = (Some k, y)"
          using that res by (auto simp: prod_eq_iff split: if_splits)
        then obtain y where "read_host (st_host S) hm1 x2 = (Some k, y)" by blast
        from read_host_found [OF hs(1) this insert_host_caller [OF t _ ins [unfolded rv]]] hs(6) res
        show ?thesis by simp
      qed
      ultimately show ?thesis by blast
    qed
  qed
  show "vhosts_ok nm hm' cm" using goal by blast
  show "r = Some k \<Longrightarrow> used hm' k \<and> h_node (slot hm' k) = node \<and> h_host (slot hm' k) = strcpy_n (HOSTALIASZ + 1) a"
    using goal by blast
qed

text \<open>Removing an application by its key.\<close>

lemma read_remove_context_eq:
  assumes ok: "table_ok c_id context_key cm" and "c_id x = 0"
  shows "read_remove_context S cm x =
     (case first_used (\<lambda>y. context_key y = context_key x) cm of None \<Rightarrow> cm
      | Some i \<Rightarrow> cm\<lparr>inuse := (inuse cm)[i := False]\<rparr>)"
proof -
  have wf: "wf_slotmem cm" and ids: "ids_ok c_id cm" using ok by (simp_all add: table_ok_def)
  have u: "used cm (int i)" "c_id (items cm ! i) = int i"
    if "first_used (\<lambda>y. context_key y = context_key x) cm = Some i" for i
    using that ids wf by (auto simp: first_used_Some ids_ok_def used_def in_range_def wf_slotmem_def)
  show ?thesis
    using doall_loc_read_context [OF wf, of x] assms(2) u sc.dptr_used [OF wf] sc.release_used [OF wf]
    by (auto simp: read_remove_context_def read_context_def Let_def slot_def remove_context_def split: option.splits)
qed

lemma read_remove_context_ok:
  assumes ok: "vhosts_ok nm hm cm" and "c_id x = 0"
  shows "vhosts_ok nm hm (read_remove_context S cm x)"
    and "tbl_map context_key (read_remove_context S cm x) = (tbl_map context_key cm)(context_key x := None)"
proof -
  have t: "table_ok c_id context_key cm" and r: "contexts_ref hm cm" using ok by (simp_all add: vhosts_ok_def)
  note eq = read_remove_context_eq [OF t assms(2)]
  show "vhosts_ok nm hm (read_remove_context S cm x)"
    using ok table_ok_release [OF t] r unfolding eq
    by (auto simp: vhosts_ok_def contexts_ref_row nth_update_False split: option.splits)
  show "tbl_map context_key (read_remove_context S cm x) = (tbl_map context_key cm)(context_key x := None)"
  proof (cases "first_used (\<lambda>y. context_key y = context_key x) cm")
    case None
    then have "tbl_map context_key cm (context_key x) = None" by (simp add: tbl_map_def)
    with None eq show ?thesis by (simp add: fun_upd_idem)
  next
    case (Some i)
    then have "i < length (inuse cm)" "inuse cm ! i" "context_key (items cm ! i) = context_key x"
      by (simp_all add: first_used_Some)
    with tbl_map_release [OF t, of i] Some show ?thesis unfolding eq by simp
  qed
qed

text \<open>The applications of an alias. Reported rows are the ones stored; other nodes are not touched.\<close>

lemma insert_update_context_helper_ok:
  assumes ok: "vhosts_ok nm hm cm" and row: "host_row hm (c_vhost x) (c_node x)" and st: "c_status x = cmd"
    and p: "insert_update_context_helper S cm x c cmd now = (rv, cm')"
  shows "vhosts_ok nm hm cm'"
    and "cmd \<noteq> REMOVE \<Longrightarrow> rv = APR_SUCCESS \<Longrightarrow> context_has cmd cm' (strcpy_n (CONTEXTSZ + 1) c, c_vhost x, c_node x)"
    and "cmd \<noteq> REMOVE \<Longrightarrow> context_has cmd cm k \<Longrightarrow> context_has cmd cm' k"
    and "k \<noteq> (strcpy_n (CONTEXTSZ + 1) c, c_vhost x, c_node x) \<Longrightarrow> tbl_map context_key cm' k = tbl_map context_key cm k"
    and "cmd = REMOVE \<Longrightarrow> rv = APR_SUCCESS \<and> tbl_map context_key cm' = (tbl_map context_key cm)
           ((strcpy_n (CONTEXTSZ + 1) c, c_vhost x, c_node x) := None)"
proof -
  let ?x = "x\<lparr>c_id := 0, c_context := strcpy_n (CONTEXTSZ + 1) c\<rparr>"
  have t: "table_ok c_id context_key cm" and r: "contexts_ref hm cm" using ok by (simp_all add: vhosts_ok_def)
  have key: "context_key ?x = (strcpy_n (CONTEXTSZ + 1) c, c_vhost x, c_node x)" by (simp add: context_key_def)
  have goal: "vhosts_ok nm hm cm' \<and>
      (cmd \<noteq> REMOVE \<longrightarrow> (rv = APR_SUCCESS \<longrightarrow> context_has cmd cm' (context_key ?x)) \<and>
          (\<forall>k. context_has cmd cm k \<longrightarrow> context_has cmd cm' k)) \<and>
      (\<forall>k. k \<noteq> context_key ?x \<longrightarrow> tbl_map context_key cm' k = tbl_map context_key cm k) \<and>
      (cmd = REMOVE \<longrightarrow> rv = APR_SUCCESS \<and> tbl_map context_key cm' = (tbl_map context_key cm)(context_key ?x := None))"
  proof (cases "cmd = REMOVE")
    case True
    have cm': "rv = APR_SUCCESS" "cm' = read_remove_context S cm ?x"
      using p True by (auto simp: insert_update_context_helper_def)
    have z: "c_id ?x = 0" by simp
    show ?thesis using read_remove_context_ok [OF ok z] True unfolding cm' by auto
  next
    case False
    obtain x' where ins: "insert_update_context (st_context S) cm ?x now = (rv, cm', x')"
      using p False by (auto simp: insert_update_context_helper_def split: prod.splits)
    have row': "host_row hm (c_vhost ?x) (c_node ?x)" using row by simp
    have "vhosts_ok nm hm cm'" using ok context_step [OF t r row' ins] by (simp add: vhosts_ok_def)
    moreover have "tbl_map context_key cm' k = tbl_map context_key cm k" if "k \<noteq> context_key ?x" for k
      using contexts.put_frame [OF t that, of now] ins by simp
    ultimately show ?thesis using False context_has_step [OF t ins] st by simp
  qed
  show "vhosts_ok nm hm cm'" using goal by blast
  show "cmd \<noteq> REMOVE \<Longrightarrow> rv = APR_SUCCESS \<Longrightarrow> context_has cmd cm' (strcpy_n (CONTEXTSZ + 1) c, c_vhost x, c_node x)"
    using goal key by simp
  show "cmd \<noteq> REMOVE \<Longrightarrow> context_has cmd cm k \<Longrightarrow> context_has cmd cm' k" using goal by blast
  show "k \<noteq> (strcpy_n (CONTEXTSZ + 1) c, c_vhost x, c_node x) \<Longrightarrow> tbl_map context_key cm' k = tbl_map context_key cm k"
    using goal unfolding key by blast
  show "cmd = REMOVE \<Longrightarrow> rv = APR_SUCCESS \<and> tbl_map context_key cm' = (tbl_map context_key cm)
      ((strcpy_n (CONTEXTSZ + 1) c, c_vhost x, c_node x) := None)" using goal key by simp
qed

lemma app_contexts_ok:
  assumes "vhosts_ok nm hm cm" and "host_row hm vhost node"
    and "app_contexts S now cmd node vhost cs cm = (cm', row)"
  shows "vhosts_ok nm hm cm' \<and> length row = length cs \<and>
     (cmd \<noteq> REMOVE \<longrightarrow> (\<forall>k. context_has cmd cm k \<longrightarrow> context_has cmd cm' k) \<and>
        (\<forall>(c, u) \<in> set (zip cs row). u \<longrightarrow> context_has cmd cm' (strcpy_n (CONTEXTSZ + 1) c, vhost, node))) \<and>
     (\<forall>k. snd (snd k) \<noteq> node \<longrightarrow> tbl_map context_key cm' k = tbl_map context_key cm k) \<and>
     (cmd = REMOVE \<longrightarrow> (\<forall>k. tbl_map context_key cm k = None \<longrightarrow> tbl_map context_key cm' k = None) \<and>
        (\<forall>c \<in> set cs. tbl_map context_key cm' (strcpy_n (CONTEXTSZ + 1) c, vhost, node) = None))"
  using assms
proof (induction cs arbitrary: cm row)
  case (Cons c cs)
  let ?x = "\<lparr>c_id = 0, c_context = [], c_vhost = vhost, c_node = node, c_status = cmd, c_nbrequests = 0, c_updatetime = 0\<rparr>"
  obtain rv cm1 where ins: "insert_update_context_helper S cm ?x c cmd now = (rv, cm1)" by fastforce
  obtain row1 where rest: "app_contexts S now cmd node vhost cs cm1 = (cm', row1)"
    and row: "row = (rv = APR_SUCCESS) # row1"
    using Cons.prems(3) ins by (auto simp: Let_def split: prod.splits)
  have r: "host_row hm (c_vhost ?x) (c_node ?x)" and st: "c_status ?x = cmd" using Cons.prems(2) by simp_all
  note h = insert_update_context_helper_ok [OF Cons.prems(1) r st ins]
  note IH = Cons.IH [OF h(1) Cons.prems(2) rest]
  have frame: "tbl_map context_key cm1 k = tbl_map context_key cm k" if "snd (snd k) \<noteq> node" for k
    using that by (intro h(4)) auto
  show ?case using IH row h(2,3,5) frame by (auto simp: fun_upd_def)
qed simp

lemma vhost_has_context_eq:
  assumes "table_ok c_id context_key cm" and "set is \<subseteq> set (used_slots cm)"
  shows "vhost_has_context S cm vhost node (map int is) \<longleftrightarrow>
     (\<exists>i \<in> set is. c_vhost (items cm ! i) = vhost \<and> c_node (items cm ! i) = node)"
  using assms(2)
proof (induction "is")
  case (Cons i "is")
  have wf: "wf_slotmem cm" using assms(1) by (simp add: table_ok_def)
  have "used cm (int i)" using Cons.prems wf by (auto simp: used_iff_slots)
  with Cons sc.dptr_used [OF wf, of "int i"] show ?case by (auto simp: get_context_def slot_def Let_def)
qed simp

lemma app_remove_host_ok:
  assumes ok: "vhosts_ok nm hm cm"
  shows "vhosts_ok nm (app_remove_host S vhost node cm hm) cm"
proof (cases "vhost_has_context S cm vhost node (get_ids_used_context (st_context S) cm)")
  case True
  with ok show ?thesis by (simp add: app_remove_host_def)
next
  case False
  have t: "table_ok h_id host_key hm" "table_ok c_id context_key cm" and r: "hosts_ref nm hm" "contexts_ref hm cm"
    using ok by (simp_all add: vhosts_ok_def)
  let ?us = "map (\<lambda>i. inuse hm ! i \<and> \<not> (h_vhost (items hm ! i) = vhost \<and> h_node (items hm ! i) = node))
     [0..<length (inuse hm)]"
  have eq: "app_remove_host S vhost node cm hm = hm\<lparr>inuse := ?us\<rparr>"
    using False sh.release_where_all [OF t(1), of "\<lambda>ou. h_vhost ou = vhost \<and> h_node ou = node"]
    by (simp add: app_remove_host_def get_ids_used_host_def)
  have none: "\<not> (c_vhost (items cm ! i) = vhost \<and> c_node (items cm ! i) = node)"
    if "i < length (inuse cm)" "inuse cm ! i" for i
    using False that vhost_has_context_eq [OF t(2) subset_refl] contexts_eq [OF t(2)] by (auto simp: set_used_slots)
  have "table_ok h_id host_key (hm\<lparr>inuse := ?us\<rparr>)" by (rule table_ok_subset [OF t(1)]) simp_all
  moreover have "hosts_ref nm (hm\<lparr>inuse := ?us\<rparr>)" using r(1) by (auto simp: hosts_ref_def)
  moreover have "contexts_ref (hm\<lparr>inuse := ?us\<rparr>) cm"
    using r(2) none by (fastforce simp: contexts_ref_def)
  ultimately show ?thesis using t eq by (simp add: vhosts_ok_def)
qed

lemma app_aliases_ok:
  assumes "vhosts_ok nm hm cm" and "used nm node"
    and "app_aliases S now cmd node contexts vid aliases (hm, cm) = ((hm', cm'), rows)"
  shows "vhosts_ok nm hm' cm' \<and> length rows = length aliases \<and>
     (cmd \<noteq> REMOVE \<longrightarrow> (\<forall>k. context_has cmd cm k \<longrightarrow> context_has cmd cm' k) \<and>
        (\<forall>row \<in> set rows. \<forall>(c, u) \<in> set (zip contexts row). u \<longrightarrow>
           (\<exists>v. context_has cmd cm' (strcpy_n (CONTEXTSZ + 1) c, v, node)))) \<and>
     (\<forall>k. snd (snd k) \<noteq> node \<longrightarrow> tbl_map context_key cm' k = tbl_map context_key cm k)"
  using assms
proof (induction aliases arbitrary: hm cm vid rows)
  case (Cons a as)
  obtain hm1 vid1 r where ah: "app_host S now cmd node a vid hm = (hm1, vid1, r)" using prod_cases3 by blast
  note aok = app_host_ok [OF Cons.prems(1,2) ah]
  show ?case
  proof (cases r)
    case None
    obtain rows1 where rest: "app_aliases S now cmd node contexts vid1 as (hm1, cm) = ((hm', cm'), rows1)"
      and rows: "rows = replicate (length contexts) False # rows1"
      using Cons.prems(3) ah None by (auto split: prod.splits)
    from Cons.IH [OF aok(1) Cons.prems(2) rest] rows show ?thesis by (auto dest: set_zip_rightD)
  next
    case (Some k)
    let ?v = "h_vhost (slot hm1 k)"
    obtain cm1 row where ac: "app_contexts S now cmd node ?v contexts cm = (cm1, row)" by fastforce
    let ?hm2 = "if cmd = REMOVE then app_remove_host S ?v node cm1 hm1 else hm1"
    obtain rows1 where rest: "app_aliases S now cmd node contexts vid1 as (?hm2, cm1) = ((hm', cm'), rows1)"
      and rows: "rows = row # rows1"
      using Cons.prems(3) ah Some ac by (auto simp: Let_def split: prod.splits)
    have "host_row hm1 ?v node"
      using aok(2) [OF Some] aok(1) used_row [of hm1 k] by (simp add: vhosts_ok_def table_ok_def)
    note cok = app_contexts_ok [OF aok(1) this ac]
    have "vhosts_ok nm ?hm2 cm1" using cok app_remove_host_ok by simp
    note IH = Cons.IH [OF this Cons.prems(2) rest]
    have "tbl_map context_key cm' k = tbl_map context_key cm k" if "snd (snd k) \<noteq> node" for k
      using IH cok that by (metis (no_types))
    moreover have "context_has cmd cm' k" if "cmd \<noteq> REMOVE" "context_has cmd cm k" for k
      using IH cok that by (metis (no_types))
    moreover have "\<exists>v. context_has cmd cm' (strcpy_n (CONTEXTSZ + 1) c, v, node)"
      if "cmd \<noteq> REMOVE" "(c, True) \<in> set (zip contexts row)" for c
    proof -
      have "context_has cmd cm1 (strcpy_n (CONTEXTSZ + 1) c, ?v, node)" using cok that by fastforce
      then show ?thesis using IH that(1) by (metis (no_types))
    qed
    ultimately show ?thesis using IH rows by (simp only: set_simps ball_simps) auto
  qed
qed simp

lemma node_cmd_contexts_remove:
  "node_cmd_contexts S now REMOVE ou is cm = release_where (st_context S) c_id (at_host ou) is cm"
  by (induction "is" arbitrary: cm) (simp_all add: get_context_def remove_context_def at_host_def Let_def)

lemma node_cmd_context_step:
  assumes ok: "table_ok c_id context_key cm" and i: "i \<in> set (used_slots cm)"
  shows "fst (snd (insert_update_context (st_context S) (store cm (int i) ((items cm ! i)\<lparr>c_status := status\<rparr>))
            ((items cm ! i)\<lparr>c_status := status\<rparr>) now)) = status_where now status (\<lambda>j. j = i) cm"
proof -
  let ?x = "(items cm ! i)\<lparr>c_status := status\<rparr>" and ?m = "store cm (int i) ((items cm ! i)\<lparr>c_status := status\<rparr>)"
  have wf: "wf_slotmem cm" and keys: "keys_ok context_key cm" using ok by (simp_all add: table_ok_def)
  have i': "i < length (inuse cm)" "inuse cm ! i" "i < length (items cm)"
    using i wf by (auto simp: set_used_slots wf_slotmem_def)
  have "context_key (items ?m ! j) = context_key (items cm ! j)" if "j < length (items cm)" for j
    using that by (cases "j = i") (auto simp: store_items context_key_def)
  then have "keys_ok context_key ?m" using keys wf by (auto simp: keys_ok_def wf_slotmem_def)
  moreover have "items ?m ! i = ?x" using i' by (simp add: store_items)
  ultimately have "first_used (\<lambda>y. context_key y = context_key ?x) ?m = Some i"
    using first_used_keyI [of context_key ?m i] i' by simp
  then have "fst (snd (insert_update_context (st_context S) ?m ?x now)) = store ?m (int i) (context_merge now ?x (items ?m ! i))"
    using contexts.insert_update_context_hit [of ?m ?x i now] wf by simp
  also have "\<dots> = status_where now status (\<lambda>j. j = i) cm"
    using i' by (auto simp: store_def status_where_def context_merge_def set_status_def
        intro!: arg_cong [where f = "\<lambda>x. cm\<lparr>items := x\<rparr>"] nth_equalityI)
  finally show ?thesis .
qed

lemma node_cmd_contexts_status:
  assumes "table_ok c_id context_key cm" and "set is \<subseteq> set (used_slots cm)" and "status \<noteq> REMOVE"
  shows "node_cmd_contexts S now status ou (map int is) cm =
     status_where now status (\<lambda>j. j \<in> set is \<and> at_host ou (items cm ! j)) cm"
  using assms(1,2)
proof (induction "is" arbitrary: cm)
  case Nil
  then show ?case by (simp add: status_where_def map_nth)
next
  case (Cons i "is")
  have wf: "wf_slotmem cm" using Cons.prems(1) by (simp add: table_ok_def)
  have u: "used cm (int i)" using Cons.prems wf by (auto simp: used_iff_slots)
  have d: "get_context (st_context S) cm (int i) = APR_SUCCESS" using sc.dptr_used [OF wf u] by (simp add: get_context_def)
  show ?case
  proof (cases "at_host ou (items cm ! i)")
    case False
    then have "node_cmd_contexts S now status ou (map int (i # is)) cm = node_cmd_contexts S now status ou (map int is) cm"
      using d by (auto simp: slot_def at_host_def Let_def)
    also have "\<dots> = status_where now status (\<lambda>j. j \<in> set is \<and> at_host ou (items cm ! j)) cm"
      using Cons by simp
    finally show ?thesis using False by (simp only:) (rule status_where_cong, auto)
  next
    case True
    let ?cm = "status_where now status (\<lambda>j. j = i) cm"
    have ok1: "table_ok c_id context_key ?cm" by (rule status_where_ok [OF Cons.prems(1)])
    have "node_cmd_contexts S now status ou (map int (i # is)) cm = node_cmd_contexts S now status ou (map int is) ?cm"
      using d True assms(3) node_cmd_context_step [OF Cons.prems(1), of i] Cons.prems(2)
      by (simp add: slot_def at_host_def Let_def)
    also have "\<dots> = status_where now status (\<lambda>j. j \<in> set is \<and> at_host ou (items ?cm ! j)) ?cm"
      using Cons.IH [OF ok1] Cons.prems(2) by simp
    also have "\<dots> = status_where now status (\<lambda>j. j \<in> set is \<and> at_host ou (items cm ! j)) ?cm"
      by (rule status_where_cong) (simp add: status_where_nth)
    finally show ?thesis using True by (simp only: status_where_comp) (rule status_where_cong, auto)
  qed
qed

text \<open>
  The walk over the hosts of a node reaches the applications \<open>reached\<close>: those of the node whose
  virtual host is among the hosts visited.
\<close>

lemma node_cmd_hosts_remove:
  assumes "table_ok h_id host_key hm" and "table_ok c_id context_key cm" and "distinct is"
    and "set is \<subseteq> set (used_slots hm)"
  shows "node_cmd_hosts S now REMOVE node (map int is) (hm, cm) =
     (release_where (st_host S) h_id (\<lambda>ou. h_node ou = node) (map int is) hm,
      cm\<lparr>inuse := map (\<lambda>j. inuse cm ! j \<and> \<not> (\<exists>i \<in> set is. h_node (items hm ! i) = node \<and> at_host (items hm ! i) (items cm ! j)))
         [0..<length (inuse cm)]\<rparr>)"
  using assms
proof (induction "is" arbitrary: hm cm)
  case Nil
  then show ?case by (simp add: map_nth)
next
  case (Cons i "is")
  have wf: "wf_slotmem hm" and ids: "ids_ok h_id hm" using Cons.prems(1) by (simp_all add: table_ok_def)
  have u: "used hm (int i)" and i: "i < length (inuse hm)" "inuse hm ! i"
    using Cons.prems(4) wf by (auto simp: used_iff_slots set_used_slots)
  have d: "dptr (st_host S) hm (int i) = APR_SUCCESS" by (rule sh.dptr_used [OF wf u])
  show ?case
  proof (cases "h_node (items hm ! i) = node")
    case False
    then show ?thesis using d Cons by (simp add: get_host_def slot_def Let_def)
  next
    case True
    let ?hm = "hm\<lparr>inuse := (inuse hm)[i := False]\<rparr>"
    let ?cm = "cm\<lparr>inuse := map (\<lambda>j. inuse cm ! j \<and> \<not> at_host (items hm ! i) (items cm ! j)) [0..<length (inuse cm)]\<rparr>"
    have idi: "h_id (items hm ! i) = int i" using ids i by (simp add: ids_ok_def)
    have rel: "release (st_host S) hm (int i) = (APR_SUCCESS, ?hm)" using sh.release_used [OF wf u] by simp
    have cm: "node_cmd_contexts S now REMOVE (items hm ! i) (get_ids_used_context (st_context S) cm) cm = ?cm"
      using sc.release_where_all [OF Cons.prems(2)] by (simp add: node_cmd_contexts_remove get_ids_used_context_def)
    have ok: "table_ok h_id host_key ?hm" by (rule table_ok_release [OF Cons.prems(1)])
    have ok': "table_ok c_id context_key ?cm" by (rule table_ok_subset [OF Cons.prems(2)]) simp_all
    have "node_cmd_hosts S now REMOVE node (map int (i # is)) (hm, cm) = node_cmd_hosts S now REMOVE node (map int is) (?hm, ?cm)"
      using d True rel idi cm by (simp add: get_host_def slot_def Let_def remove_host_def)
    also have "\<dots> = (release_where (st_host S) h_id (\<lambda>ou. h_node ou = node) (map int is) ?hm,
       ?cm\<lparr>inuse := map (\<lambda>j. inuse ?cm ! j \<and> \<not> (\<exists>i \<in> set is. h_node (items ?hm ! i) = node \<and>
          at_host (items ?hm ! i) (items ?cm ! j))) [0..<length (inuse ?cm)]\<rparr>)"
      using Cons.prems(3,4) by (intro Cons.IH ok ok') (auto simp: set_used_slots nth_update_False)
    finally show ?thesis
      using d True rel idi by (auto simp: slot_def intro!: arg_cong [where f = "\<lambda>u. cm\<lparr>inuse := u\<rparr>"])
  qed
qed

lemma node_cmd_hosts_status:
  assumes "table_ok h_id host_key hm" and "table_ok c_id context_key cm" and "status \<noteq> REMOVE"
    and "set is \<subseteq> set (used_slots hm)"
  shows "node_cmd_hosts S now status node (map int is) (hm, cm) =
     (hm, status_where now status (\<lambda>j. j < length (inuse cm) \<and> inuse cm ! j \<and>
        (\<exists>i \<in> set is. h_node (items hm ! i) = node \<and> at_host (items hm ! i) (items cm ! j))) cm)"
  using assms(2,4)
proof (induction "is" arbitrary: cm)
  case Nil
  then show ?case by (simp add: status_where_def map_nth)
next
  case (Cons i "is")
  have wf: "wf_slotmem hm" using assms(1) by (simp add: table_ok_def)
  have u: "used hm (int i)" using Cons.prems(2) wf by (auto simp: used_iff_slots)
  have d: "dptr (st_host S) hm (int i) = APR_SUCCESS" by (rule sh.dptr_used [OF wf u])
  show ?case
  proof (cases "h_node (items hm ! i) = node")
    case False
    then show ?thesis using d Cons by (simp add: get_host_def slot_def Let_def)
  next
    case True
    let ?Q = "\<lambda>j. j \<in> set (used_slots cm) \<and> at_host (items hm ! i) (items cm ! j)"
    let ?cm = "status_where now status ?Q cm"
    have len: "length (items cm) = length (inuse cm)" using Cons.prems(1) by (simp add: table_ok_def wf_slotmem_def)
    have cm: "node_cmd_contexts S now status (items hm ! i) (get_ids_used_context (st_context S) cm) cm = ?cm"
      using node_cmd_contexts_status [OF Cons.prems(1) subset_refl assms(3)] contexts_eq [OF Cons.prems(1)] by simp
    have ok: "table_ok c_id context_key ?cm" by (rule status_where_ok [OF Cons.prems(1)])
    have "node_cmd_hosts S now status node (map int (i # is)) (hm, cm) = node_cmd_hosts S now status node (map int is) (hm, ?cm)"
      using d True assms(3) cm by (simp add: get_host_def slot_def Let_def)
    also have "\<dots> = (hm, status_where now status (\<lambda>j. j < length (inuse ?cm) \<and> inuse ?cm ! j \<and>
        (\<exists>i \<in> set is. h_node (items hm ! i) = node \<and> at_host (items hm ! i) (items ?cm ! j))) ?cm)"
      using Cons.prems(2) by (intro Cons.IH ok) simp
    also have "\<dots> = (hm, status_where now status (\<lambda>j. j < length (inuse cm) \<and> inuse cm ! j \<and>
        (\<exists>i \<in> set is. h_node (items hm ! i) = node \<and> at_host (items hm ! i) (items cm ! j))) ?cm)"
      by (simp, rule status_where_cong) (auto simp: status_where_nth)
    finally show ?thesis
      using True by (simp only: status_where_comp prod.inject simp_thms) (rule status_where_cong, auto simp: set_used_slots)
  qed
qed

text \<open>
  With good references the applications reached are all the applications of the node, so the
  removal leaves the tables as \<open>loc_remove_host_context\<close> does.
\<close>

lemma reached_iff:
  assumes "contexts_ref hm cm" and "j < length (inuse cm)" and "inuse cm ! j"
  shows "(\<exists>i \<in> set (used_slots hm). h_node (items hm ! i) = node \<and> at_host (items hm ! i) (items cm ! j)) \<longleftrightarrow>
     c_node (items cm ! j) = node"
  using assms by (fastforce simp: at_host_def set_used_slots contexts_ref_def)

lemma node_cmd_remove_tables:
  assumes ok: "manager_ok M" and size: "loc_get_max_size_host S M \<noteq> 0"
  shows "node_cmd_hosts S now REMOVE node (get_ids_used_host (st_host S) (hoststatsmem M))
       (hoststatsmem M, contextstatsmem M) =
     (hoststatsmem (loc_remove_host_context S node M), contextstatsmem (loc_remove_host_context S node M))"
proof -
  let ?hm = "hoststatsmem M" and ?cm = "contextstatsmem M"
  have t: "table_ok h_id host_key ?hm" "table_ok c_id context_key ?cm" and r: "contexts_ref ?hm ?cm" and tt: "tables_ok M"
    using ok by (simp_all add: manager_ok_def tables_ok_def refs_ok_def)
  note eq = remove_host_context_tables [OF tt size, of node]
  have "?cm\<lparr>inuse := map (\<lambda>j. inuse ?cm ! j \<and> \<not> (\<exists>i \<in> set (used_slots ?hm). h_node (items ?hm ! i) = node \<and>
        at_host (items ?hm ! i) (items ?cm ! j))) [0..<length (inuse ?cm)]\<rparr> =
      ?cm\<lparr>inuse := map (\<lambda>j. inuse ?cm ! j \<and> c_node (items ?cm ! j) \<noteq> node) [0..<length (inuse ?cm)]\<rparr>"
    by (rule sc.inuse_map_cong) (use reached_iff [OF r] in blast)
  then show ?thesis
    using node_cmd_hosts_remove [OF t distinct_used_slots subset_refl, of now node] hosts_eq [OF t(1)]
      sh.release_where_all [OF t(1), of "\<lambda>ou. h_node ou = node"] unfolding eq
    by (simp add: get_ids_used_host_def)
qed

text \<open>A node record found under its route; updating it in place keeps the table.\<close>

lemma read_node_route:
  assumes "nodes_ok nm" and "read_node (st_node S) nm (zero_node\<lparr>mess := zero_mess\<lparr>JVMRoute := route, n_id := -1\<rparr>\<rparr>) = Some k"
  shows "used nm k \<and> n_id (mess (slot nm k)) = k \<and> JVMRoute (mess (slot nm k)) = route"
proof -
  have wf: "wf_slotmem nm" and ids: "ids_ok node_ident nm" using assms(1) by (simp_all add: nodes_ok_def)
  obtain i where i: "first_used (\<lambda>y. node_key y = route) nm = Some i" and k: "k = node_ident (items nm ! i)"
    using assms(2) nodes.read_node_eq [OF wf, of "zero_node\<lparr>mess := zero_mess\<lparr>JVMRoute := route, n_id := -1\<rparr>\<rparr>"]
    by (auto simp: node_key_def split: option.splits if_splits)
  then have "i < length (inuse nm)" "inuse nm ! i" "k = int i" "JVMRoute (mess (items nm ! i)) = route"
    using ids by (auto simp: first_used_Some ids_ok_def node_key_def)
  with ids wf show ?thesis by (auto simp: used_def in_range_def slot_def wf_slotmem_def ids_ok_def node_ident_def)
qed

lemma process_node_cmd_ok:
  assumes ok: "manager_ok M" and k: "used (nodestatsmem M) k"
  shows "manager_ok (process_node_cmd S now status k M)"
proof (cases "loc_get_max_size_host S M = 0")
  case True
  with ok show ?thesis by (simp add: process_node_cmd_def)
next
  case size: False
  let ?node = "n_id (mess (slot (nodestatsmem M) k))"
  obtain hm cm where t: "node_cmd_hosts S now status ?node (get_ids_used_host (st_host S) (hoststatsmem M))
      (hoststatsmem M, contextstatsmem M) = (hm, cm)" by fastforce
  let ?M1 = "M\<lparr>hoststatsmem := hm, contextstatsmem := cm\<rparr>"
  have tb: "table_ok h_id host_key (hoststatsmem M)" "table_ok c_id context_key (contextstatsmem M)"
    and r: "contexts_ref (hoststatsmem M) (contextstatsmem M)"
    using ok by (simp_all add: manager_ok_def tables_ok_def refs_ok_def)
  show ?thesis
  proof (cases "status = REMOVE")
    case True
    have "?M1 = loc_remove_host_context S ?node M"
      using t True node_cmd_remove_tables [OF ok size, of now ?node]
        remove_host_context_tables [of M ?node] ok size by (auto simp: manager_ok_def)
    then have ok1: "manager_ok ?M1" using remove_host_context_ok [OF ok] by simp
    let ?M2 = "update_node_slot k (\<lambda>x. x\<lparr>mess := (mess x)\<lparr>n_remove := 1\<rparr>\<rparr>) ?M1"
    have ok2: "manager_ok ?M2" by (rule update_node_slot_ok [OF ok1]) simp
    obtain rv nm' x' i' where ins: "insert_update_node (st_node S) (nodestatsmem ?M2) (slot (nodestatsmem ?M2) k)
        (-1) False now now = (rv, nm', x', i')" using prod_cases4 by blast
    have "process_node_cmd S now status k M = ?M2\<lparr>nodestatsmem := nm'\<rparr>"
      using size t True ins by (simp add: process_node_cmd_def Let_def)
    then show ?thesis using node_step_ok [OF ok2 ins] by simp
  next
    case False
    have hc: "hm = hoststatsmem M" "\<exists>Q. cm = status_where now status Q (contextstatsmem M)"
      using t node_cmd_hosts_status [OF tb False subset_refl, of now ?node] hosts_eq [OF tb(1)] by auto
    then have "table_ok c_id context_key cm" using status_where_ok [OF tb(2)] by blast
    moreover have "contexts_ref (hoststatsmem M) cm"
      using r hc(2) tb(2) by (auto simp: contexts_ref_row status_where_nth table_ok_def wf_slotmem_def)
    ultimately have "manager_ok ?M1" using ok hc(1) by (simp add: manager_ok_def tables_ok_def refs_ok_def)
    then show ?thesis using size t False by (simp add: process_node_cmd_def Let_def)
  qed
qed

lemma remove_node_tables:
  assumes ok: "manager_ok M" and size: "loc_get_max_size_host S M \<noteq> 0" and k: "used (nodestatsmem M) k"
    and idk: "n_id (mess (slot (nodestatsmem M) k)) = k"
    and first: "first_used (\<lambda>y. node_key y = JVMRoute (mess (slot (nodestatsmem M) k))) (nodestatsmem M) = Some (nat k)"
  shows "\<exists>nm'. process_node_cmd S now REMOVE k M = (loc_remove_host_context S k M)\<lparr>nodestatsmem := nm'\<rparr> \<and>
     n_remove (mess (slot nm' k)) = 1 \<and> (\<forall>j \<ge> 0. j \<noteq> k \<longrightarrow> slot nm' j = slot (nodestatsmem M) j)"
proof -
  let ?L = "loc_remove_host_context S k M"
  have t: "tables_ok M" using ok by (simp add: manager_ok_def)
  note eq = remove_host_context_tables [OF t size, of k]
  have nmL: "nodestatsmem ?L = nodestatsmem M" unfolding eq by simp
  let ?nm = "nodestatsmem M"
  let ?x = "(slot ?nm k)\<lparr>mess := (mess (slot ?nm k))\<lparr>n_remove := 1\<rparr>\<rparr>"
  let ?nm2 = "store ?nm k ?x"
  have wf: "wf_slotmem ?nm" using t by (simp add: tables_ok_def nodes_ok_def)
  have k': "0 \<le> k" "nat k < length (items ?nm)" "inuse ?nm ! nat k" "nat k < length (inuse ?nm)"
    using k wf by (simp_all add: used_def in_range_def wf_slotmem_def)
  have slot2: "slot ?nm2 k = ?x" using k' by (simp add: in_range_def)
  have "node_key (items ?nm2 ! j) = node_key (items ?nm ! j)" if "j < length (items ?nm)" for j
    using that k' by (cases "j = nat k") (simp_all add: store_items node_key_def slot_def)
  then have first2: "first_used (\<lambda>y. node_key y = node_key ?x) ?nm2 = Some (nat k)"
    using first wf by (auto simp: first_used_Some node_key_def wf_slotmem_def)
  have hit: "insert_update_node (st_node S) ?nm2 ?x (-1) False now now =
      (APR_SUCCESS, store ?nm2 k (node_merge now ?x ?x), set_node_id (node_ident ?x) ?x, node_ident ?x)"
    using nodes.insert_update_node_hit [OF _ first2, of "-1" False now now] wf k' slot2 by (simp add: slot_def)
  have "process_node_cmd S now REMOVE k M = ?L\<lparr>nodestatsmem := store ?nm2 k (node_merge now ?x ?x)\<rparr>"
    using size node_cmd_remove_tables [OF ok size, of now k] idk hit slot2 nmL eq
    by (simp add: process_node_cmd_def Let_def update_node_slot_def)
  moreover have "n_remove (mess (slot (store ?nm2 k (node_merge now ?x ?x)) k)) = 1"
    using k' by (simp add: in_range_def node_merge_def)
  ultimately show ?thesis using k' by (intro exI [of _ "store ?nm2 k (node_merge now ?x ?x)"]) simp
qed

lemma process_app_cmd_cases:
  assumes ok: "manager_ok M" and S: "env_storage E = S"
    and p: "process_app_cmd E now filename cmd M ptr = (M', r)"
  obtains (early) "M' = M" and "\<And>out. r \<noteq> Value out"
    | (node) route contexts aliases k
      where "app_message (env_httpd E) (filename = NODE_COMMAND) ptr = Value (route, contexts, aliases)"
        and "used (nodestatsmem M) k" and "n_id (mess (slot (nodestatsmem M) k)) = k"
        and "JVMRoute (mess (slot (nodestatsmem M) k)) = route" and "n_remove (mess (slot (nodestatsmem M) k)) = 0"
        and "first_used (\<lambda>y. node_key y = route) (nodestatsmem M) = Some (nat k)"
        and "filename = NODE_COMMAND"
        and "M' = loc_unlock_nodes (process_node_cmd S now cmd k (inc_version_node (loc_lock_nodes M)))"
        and "r = Value []"
    | (app) route contexts aliases k hm cm updated
      where "app_message (env_httpd E) (filename = NODE_COMMAND) ptr = Value (route, contexts, aliases)"
        and "used (nodestatsmem M) k" and "n_id (mess (slot (nodestatsmem M) k)) = k"
        and "JVMRoute (mess (slot (nodestatsmem M) k)) = route" and "n_remove (mess (slot (nodestatsmem M) k)) = 0"
        and "filename \<noteq> NODE_COMMAND"
        and "app_aliases S now cmd k contexts 0 aliases (hoststatsmem M, contextstatsmem M) = ((hm, cm), updated)"
        and "M' = loc_unlock_nodes ((inc_version_node (loc_lock_nodes M))\<lparr>hoststatsmem := hm, contextstatsmem := cm\<rparr>)"
        and "r = Value (print_app_cmd_response (env_httpd E) cmd route updated aliases contexts)"
proof (cases "app_message (env_httpd E) (filename = NODE_COMMAND) ptr")
  case (Value msg)
  obtain route contexts aliases where msg: "msg = (route, contexts, aliases)" by (cases msg)
  let ?x = "zero_node\<lparr>mess := zero_mess\<lparr>JVMRoute := route, n_id := -1\<rparr>\<rparr>"
  have un: "loc_unlock_nodes (loc_lock_nodes M) = M" by (simp add: manager_defs)
  have nok: "nodes_ok (nodestatsmem M)" using ok by (simp add: manager_ok_def tables_ok_def)
  show thesis
  proof (cases "read_node (st_node S) (nodestatsmem M) ?x")
    case None
    with p Value msg S un show thesis by (intro early) (auto simp: process_app_cmd_def)
  next
    case (Some k)
    note rn = read_node_route [OF nok Some]
    show thesis
    proof (cases "n_remove (mess (slot (nodestatsmem M) k)) = 0")
      case False
      with p Value msg S un Some show thesis by (intro early) (auto simp: process_app_cmd_def)
    next
      case rem: True
      show thesis
      proof (cases "filename = NODE_COMMAND")
        case True
        have fu: "first_used (\<lambda>y. node_key y = route) (nodestatsmem M) = Some (nat k)"
          using nodes.read_node_eq [of "nodestatsmem M" ?x] Some nok
          by (auto simp: node_key_def nodes_ok_def ids_ok_def first_used_Some split: option.splits if_splits)
        show thesis
          by (rule node [of route contexts aliases k])
            (use p Value msg S Some rn rem fu True in \<open>auto simp: process_app_cmd_def\<close>)
      next
        case False
        obtain hm cm updated where aa: "app_aliases S now cmd k contexts 0 aliases (hoststatsmem M, contextstatsmem M) = ((hm, cm), updated)"
          by (metis prod.exhaust)
        show thesis
          by (rule app [of route contexts aliases k hm cm updated])
            (use p Value msg S Some rn rem aa False in \<open>auto simp: process_app_cmd_def Let_def\<close>)
      qed
    qed
  qed
next
  case (Failure t s)
  with p show thesis by (intro early) (auto simp: process_app_cmd_def)
next
  case Undefined
  with p show thesis by (intro early) (auto simp: process_app_cmd_def)
qed

end

section \<open>Properties\<close>

definition small_message :: "string list" where
  "small_message = [''JVMRoute'', ''n1'', ''Context'', ''/app'', ''Alias'', ''h'']"

text \<open>The small manager with one node, one alias and one stopped application.\<close>

definition small_manager1 :: manager where
  "small_manager1 = small_manager\<lparr>
     nodestatsmem := \<lparr>items = [zero_node\<lparr>mess := zero_mess\<lparr>JVMRoute := ''n1''\<rparr>\<rparr>, zero_node], inuse = [True, False]\<rparr>,
     hoststatsmem := \<lparr>items = [\<lparr>h_id = 0, h_host = ''h'', h_vhost = 1, h_node = 0, h_updatetime = 7\<rparr>,
                              \<lparr>h_id = 0, h_host = [], h_vhost = 0, h_node = 0, h_updatetime = 0\<rparr>], inuse = [True, False]\<rparr>,
     contextstatsmem := \<lparr>items = [\<lparr>c_id = 0, c_context = ''/app'', c_vhost = 1, c_node = 0, c_status = STOPPED,
                                    c_nbrequests = 0, c_updatetime = 7\<rparr>,
                                 \<lparr>c_id = 0, c_context = [], c_vhost = 0, c_node = 0, c_status = 0,
                                    c_nbrequests = 0, c_updatetime = 0\<rparr>], inuse = [True, False]\<rparr>\<rparr>"

lemma small_manager1_ok: "manager_ok small_manager1"
proof -
  have *: "(\<forall>i < Suc (Suc 0). P i) \<longleftrightarrow> P 0 \<and> P (Suc 0)" "(\<exists>i < Suc (Suc 0). P i) \<longleftrightarrow> P 0 \<or> P (Suc 0)" for P
    by (auto simp: less_Suc_eq)
  show ?thesis
    using small_manager_ok
    by (simp add: manager_ok_def tables_ok_def refs_ok_def nodes_ok_def table_ok_def wf_slotmem_def ids_ok_def
        keys_ok_def hosts_ref_def contexts_ref_def small_manager1_def * used_def in_range_def node_ident_def
        zero_node_def zero_mess_def)
qed

text \<open>C9: The application commands keep the manager consistent, on every message and in every
  branch, for single applications and for a whole node.\<close>

theorem process_app_cmd_invariant:
  assumes "manager_storage (env_storage E)" and "manager_ok M"
  shows "manager_ok (fst (process_app_cmd E now filename cmd M ptr))"
proof -
  obtain M' r where p: "process_app_cmd E now filename cmd M ptr = (M', r)" by fastforce
  have ok': "manager_ok (inc_version_node (loc_lock_nodes M))" using assms(2) by simp
  have "manager_ok M'"
  proof (cases rule: manager_storage.process_app_cmd_cases
      [OF assms(1,2) refl p, consumes 0, case_names early node app])
    case early
    with assms(2) show ?thesis by simp
  next
    case (node route contexts aliases k)
    then show ?thesis using manager_storage.process_node_cmd_ok [OF assms(1) ok', of k now cmd] by simp
  next
    case (app route contexts aliases k hm cm updated)
    have "vhosts_ok (nodestatsmem M) hm cm"
      using manager_storage.app_aliases_ok [OF assms(1) _ app(2,7)] assms(2) by (simp add: manager_ok_vhosts_ok)
    with app assms(2) show ?thesis by (simp add: manager_ok_vhosts_ok)
  qed
  with p show ?thesis by simp
qed

theorem process_app_cmd_invariant_witness:
  "manager_ok (fst (process_app_cmd small_env 8 ''/'' ENABLED small_manager1 small_message))"
  by (rule process_app_cmd_invariant [OF small_env_ok(1) small_manager1_ok])


lemma small_app_eval:
  "snd (process_app_cmd small_env 8 ''/'' ENABLED small_manager1 small_message) =
     Value (''Type=ENABLE-APP-RSP'' @ nl @ ''JvmRoute=n1'' @ nl @ ''Alias=h Contexts=/app'' @ nl @ nl)"
  by code_simp

lemma small_app_message:
  "app_message (env_httpd small_env) False small_message = Value (''n1'', [''/app''], [''h''])"
  by code_simp



lemma small_remove_eval:
  "snd (process_app_cmd small_env 8 NODE_COMMAND REMOVE small_manager1 [''JVMRoute'', ''n1'']) = Value []"
  "loc_get_max_size_host (env_storage small_env) small_manager1 = 2"
  by code_simp+



lemma small_enable_eval:
  "snd (process_app_cmd small_env 8 NODE_COMMAND ENABLED small_manager1 [''JVMRoute'', ''n1'']) = Value []"
  by code_simp


text \<open>An application command that does not succeed, be it a syntax error, an unknown or a removed
  node, changes nothing.\<close>

theorem process_app_cmd_error:
  assumes "manager_storage (env_storage E)" and "manager_ok M"
    and "process_app_cmd E now filename cmd M ptr = (M', r)" and "\<forall>out. r \<noteq> Value out"
  shows "M' = M"
  by (cases rule: manager_storage.process_app_cmd_cases
    [OF assms(1,2) refl assms(3), consumes 0, case_names early node app]) (use assms(4) in auto)

theorem process_app_cmd_error_witness:
  "fst (process_app_cmd small_env 8 ''/'' ENABLED small_manager1 [''JVMRoute'', ''n1'']) = small_manager1"
proof -
  let ?r = "process_app_cmd small_env 8 ''/'' ENABLED small_manager1 [''JVMRoute'', ''n1'']"
  have "snd ?r = Failure TYPESYNTAX NOCONAL" by code_simp
  then have "?r = (fst ?r, Failure TYPESYNTAX NOCONAL)" by (cases ?r) auto
  from process_app_cmd_error [OF small_env_ok(1) small_manager1_ok this] show ?thesis by simp
qed

end
