(* ===== verification/Dump_Info.thy ===== *)
theory Dump_Info
  imports Config_Command
begin

text \<open>
  The DUMP and INFO commands (\<open>process_dump\<close>, \<open>process_info\<close>): the tables as text or XML. The
  field widths of the format strings are the buffer sizes of the records. The workers of
  mod_proxy, which \<open>read_shared_by_node\<close> searches for the counters of a node, are the parameter
  \<open>bals\<close>: the balancers' names with their workers' status, as \<open>ap_proxy_sync_balancer\<close> leaves them.
\<close>

section \<open>Formatting\<close>

definition eol :: string where "eol = [CHR 0x0A]"

definition c_div :: "int \<Rightarrow> int \<Rightarrow> int" where
  "c_div a b = (if (a < 0) = (b < 0) then \<bar>a\<bar> div \<bar>b\<bar> else - (\<bar>a\<bar> div \<bar>b\<bar>))"

definition show_int32 :: "int \<Rightarrow> string" where
  "show_int32 x = show_int (to_int32 x)"

definition tagged :: "string \<Rightarrow> string \<Rightarrow> string" where
  "tagged t s = ''<'' @ t @ ''>'' @ s @ ''</'' @ t @ ''>''"

definition attr :: "string \<Rightarrow> string \<Rightarrow> string" where
  "attr k v = '' '' @ k @ ''='' @ quoted v"

definition context_status_to_string :: "int \<Rightarrow> string" where
  "context_status_to_string status =
     (if status = ENABLED then ''ENABLED'' else if status = DISABLED then ''DISABLED''
      else if status = STOPPED then ''STOPPED'' else ''REMOVED'')"

definition flush_to_str :: "httpd \<Rightarrow> int \<Rightarrow> string" where
  "flush_to_str H flush = (if flush = flush_on H then ''On'' else if flush = flush_auto H then ''Auto'' else ''Off'')"

text \<open>\<open>sscanf\<close> with \<open>%d\<close> or \<open>%u\<close>: the number, if there is at least one digit.\<close>

definition sscanf_int :: "string \<Rightarrow> int option" where
  "sscanf_int s = (case dropWhile c_isspace s of
       [] \<Rightarrow> None
     | c # cs \<Rightarrow>
         let body = (if c = CHR ''-'' \<or> c = CHR ''+'' then cs else c # cs) in
         (case body of d # _ \<Rightarrow> if apr_isdigit d then Some (atoi s) else None | [] \<Rightarrow> None))"

fun walk :: "(int \<Rightarrow> apr_status) \<Rightarrow> (int \<Rightarrow> string) \<Rightarrow> int list \<Rightarrow> string" where
  "walk get line [] = []"
| "walk get line (i # is) = (if get i \<noteq> APR_SUCCESS then walk get line is else line i @ walk get line is)"

definition XML_CONTENT_TYPE :: string where "XML_CONTENT_TYPE = ''text/xml''"
definition PLAINTEXT_CONTENT_TYPE :: string where "PLAINTEXT_CONTENT_TYPE = ''text/plain''"

definition wants_xml :: "string option \<Rightarrow> bool" where
  "wants_xml accept = (case accept of None \<Rightarrow> False | Some a \<Rightarrow> strstr a XML_CONTENT_TYPE \<noteq> None)"

definition xml_header :: string where
  "xml_header = ''<?xml version='' @ quoted ''1.0'' @ '' standalone='' @ quoted ''yes'' @ '' ?>'' @ eol"

section \<open>DUMP\<close>

definition dump_balancer :: "bool \<Rightarrow> balancerinfo slotmem \<Rightarrow> int \<Rightarrow> string" where
  "dump_balancer xml m i =
     (let ou = slot m i; name = take BALANCERSZ (b_balancer ou);
          cookie = take COOKNAMESZ (StickySessionCookie ou); path = take PATHNAMESZ (StickySessionPath ou);
          tmo = show_int32 (apr_time_sec (b_Timeout ou)) in
      if xml then
        ''<Balancer'' @ attr ''id'' (show_int i) @ attr ''name'' name @ ''>'' @ ''<StickySession>'' @
        tagged ''Enabled'' (show_int (StickySession ou)) @ tagged ''Cookie'' cookie @ tagged ''Path'' path @
        tagged ''Remove'' (show_int (StickySessionRemove ou)) @ tagged ''Force'' (show_int (StickySessionForce ou)) @
        ''</StickySession>'' @ tagged ''Timeout'' tmo @ tagged ''MaxAttempts'' (show_int (Maxattempts ou)) @ ''</Balancer>''
      else
        ''balancer: ['' @ show_int i @ ''] Name: '' @ name @ '' Sticky: '' @ show_int (StickySession ou) @
        '' ['' @ cookie @ '']/['' @ path @ ''] remove: '' @ show_int (StickySessionRemove ou) @ '' force: '' @
        show_int (StickySessionForce ou) @ '' Timeout: '' @ tmo @ '' maxAttempts: '' @ show_int (Maxattempts ou) @ eol)"

definition dump_node :: "httpd \<Rightarrow> bool \<Rightarrow> nodeinfo slotmem \<Rightarrow> int \<Rightarrow> string" where
  "dump_node H xml m i =
     (let ou = mess (slot m i); bal = take BALANCERSZ (n_balancer ou); route = take (JVMROUTESZ H) (JVMRoute ou);
          dom = take DOMAINNDSZ (Domain ou); host = take HOSTNODESZ (Host ou); port = take PORTNODESZ (Port ou);
          ty = take SCHEMENDSZ (Type ou); fp = show_int (flushpackets ou); fw = show_int (c_div (flushwait ou) 1000);
          png = show_int32 (apr_time_sec (n_ping ou)); smax = show_int (n_smax ou);
          ttl = show_int32 (apr_time_sec (n_ttl ou)); tmo = show_int32 (apr_time_sec (n_timeout ou)) in
      if xml then
        ''<Node'' @ attr ''id'' (show_int (n_id ou)) @ ''>'' @ tagged ''Balancer'' bal @ tagged ''JVMRoute'' route @
        tagged ''LBGroup'' dom @ tagged ''Host'' host @ tagged ''Port'' port @ tagged ''Type'' ty @
        tagged ''FlushPackets'' fp @ tagged ''FlushWait'' fw @ tagged ''Ping'' png @ tagged ''Smax'' smax @
        tagged ''Ttl'' ttl @ tagged ''Timeout'' tmo @ ''</Node>''
      else
        ''node: ['' @ show_int i @ '':'' @ show_int (n_id ou) @ ''],Balancer: '' @ bal @ '',JVMRoute: '' @ route @
        '',LBGroup: ['' @ dom @ ''],Host: '' @ host @ '',Port: '' @ port @ '',Type: '' @ ty @ '',flushpackets: '' @ fp @
        '',flushwait: '' @ fw @ '',ping: '' @ png @ '',smax: '' @ smax @ '',ttl: '' @ ttl @ '',timeout: '' @ tmo @ eol)"

text \<open>The XML line of a host carries the indentation of the source's continued string.\<close>

definition dump_host :: "bool \<Rightarrow> hostinfo slotmem \<Rightarrow> int \<Rightarrow> string" where
  "dump_host xml m i =
     (let ou = slot m i; alias = take (HOSTALIASZ + 1) (h_host ou) in
      if xml then
        ''<Host'' @ attr ''id'' (show_int i) @ attr ''alias'' alias @ ''>'' @ replicate 31 (CHR '' '') @
        tagged ''Vhost'' (show_int (h_vhost ou)) @ replicate 31 (CHR '' '') @ tagged ''Node'' (show_int (h_node ou)) @
        replicate 27 (CHR '' '') @ ''</Host>''
      else
        ''host: '' @ show_int i @ '' ['' @ alias @ ''] vhost: '' @ show_int (h_vhost ou) @ '' node: '' @
        show_int (h_node ou) @ eol)"

definition dump_context :: "bool \<Rightarrow> contextinfo slotmem \<Rightarrow> int \<Rightarrow> string" where
  "dump_context xml m i =
     (let ou = slot m i; ctx = take (CONTEXTSZ + 1) (c_context ou) in
      if xml then
        ''<Context'' @ attr ''id'' (show_int i) @ attr ''path'' ctx @ ''>'' @ tagged ''Vhost'' (show_int (c_vhost ou)) @
        tagged ''Node'' (show_int (c_node ou)) @ ''<Status'' @ attr ''id'' (show_int (c_status ou)) @ ''>'' @
        context_status_to_string (c_status ou) @ ''</Status></Context>''
      else
        ''context: '' @ show_int i @ '' ['' @ ctx @ ''] vhost: '' @ show_int (c_vhost ou) @ '' node: '' @
        show_int (c_node ou) @ '' status: '' @ show_int (c_status ou) @ eol)"

definition process_dump :: "storage \<Rightarrow> httpd \<Rightarrow> string option \<Rightarrow> manager \<Rightarrow> string" where
  "process_dump S H accept M =
     (let xml = wants_xml accept; x = (\<lambda>s. if xml then s else []) in
      x xml_header @
      (if loc_get_max_size_balancer S M = 0 then []
       else x ''<Dump><Balancers>'' @
         walk (get_balancer (st_balancer S) (balancerstatsmem M)) (dump_balancer xml (balancerstatsmem M))
           (get_ids_used_balancer (st_balancer S) (balancerstatsmem M)) @
         x ''</Balancers>'' @ x ''<Nodes>'' @
         walk (get_node (st_node S) (nodestatsmem M)) (dump_node H xml (nodestatsmem M))
           (get_ids_used_node (st_node S) (nodestatsmem M)) @
         x ''</Nodes><Hosts>'' @
         walk (get_host (st_host S) (hoststatsmem M)) (dump_host xml (hoststatsmem M))
           (get_ids_used_host (st_host S) (hoststatsmem M)) @
         x ''</Hosts><Contexts>'' @
         walk (get_context (st_context S) (contextstatsmem M)) (dump_context xml (contextstatsmem M))
           (get_ids_used_context (st_context S) (contextstatsmem M)) @
         x ''</Contexts></Dump>''))"

section \<open>INFO\<close>

definition read_shared_by_node :: "(string \<times> worker_shared list) list \<Rightarrow> nodemess \<Rightarrow> worker_shared option" where
  "read_shared_by_node bals n =
     (case sscanf_int (Port n) of
        None \<Rightarrow> None
      | Some port \<Rightarrow>
          find (\<lambda>w. ws_port w = port \<and> ws_hostname w = Host n \<and> ws_route w = JVMRoute n)
            (concat (map snd (filter (\<lambda>b. fst b = ''balancer://'' @ n_balancer n) bals))))"

definition info_node ::
  "httpd \<Rightarrow> (string \<times> worker_shared list) list \<Rightarrow> bool \<Rightarrow> nodeinfo slotmem \<Rightarrow> int \<Rightarrow> string" where
  "info_node H bals xml m i =
     (let ou = mess (slot m i); bal = take BALANCERSZ (n_balancer ou); route = take (JVMROUTESZ H) (JVMRoute ou);
          dom = take DOMAINNDSZ (Domain ou); host = take HOSTNODESZ (Host ou); port = take PORTNODESZ (Port ou);
          ty = take SCHEMENDSZ (Type ou); fp = flush_to_str H (flushpackets ou); fw = show_int (c_div (flushwait ou) 1000);
          png = show_int32 (apr_time_sec (n_ping ou)); smax = show_int (n_smax ou);
          ttl = show_int32 (apr_time_sec (n_ttl ou));
          st = (case read_shared_by_node bals ou of Some w \<Rightarrow> w | None \<Rightarrow> zero_shared);
          el = show_int32 (uint (ws_elected st)); rd = show_int32 (ws_read st); tr = show_int32 (ws_transferred st);
          bu = show_int32 (uint (ws_busy st)); ld = show_int (ws_lbfactor st) in
      if xml then
        ''<Node'' @ attr ''id'' (show_int i) @ attr ''name'' route @ ''>'' @ tagged ''Balancer'' bal @
        tagged ''LBGroup'' dom @ tagged ''Host'' host @ tagged ''Port'' port @ tagged ''Type'' ty @
        tagged ''Flushpackets'' fp @ tagged ''Flushwait'' fw @ tagged ''Ping'' png @ tagged ''Smax'' smax @ tagged ''Ttl'' ttl @
        tagged ''Elected'' el @ tagged ''Read'' rd @ tagged ''Transfered'' tr @ tagged ''Connected'' bu @ tagged ''Load'' ld @
        ''</Node>''
      else
        ''Node: ['' @ show_int i @ ''],Name: '' @ route @ '',Balancer: '' @ bal @ '',LBGroup: '' @ dom @ '',Host: '' @ host @
        '',Port: '' @ port @ '',Type: '' @ ty @ '',Flushpackets: '' @ fp @ '',Flushwait: '' @ fw @ '',Ping: '' @ png @
        '',Smax: '' @ smax @ '',Ttl: '' @ ttl @ '',Elected: '' @ el @ '',Read: '' @ rd @ '',Transfered: '' @ tr @
        '',Connected: '' @ bu @ '',Load: '' @ ld @ eol)"

definition info_host :: "bool \<Rightarrow> hostinfo slotmem \<Rightarrow> int \<Rightarrow> string" where
  "info_host xml m i =
     (let ou = slot m i; alias = take (HOSTALIASZ + 1) (h_host ou) in
      if xml then
        ''<Vhost'' @ attr ''id'' (show_int (h_vhost ou)) @ attr ''alias'' alias @ ''>'' @ ''<Node'' @
        attr ''id'' (show_int (h_node ou)) @ ''/></Vhost>''
      else
        ''Vhost: ['' @ show_int (h_node ou) @ '':'' @ show_int (h_vhost ou) @ '':'' @ show_int i @ ''], Alias: '' @ alias @ eol)"

definition info_context :: "bool \<Rightarrow> contextinfo slotmem \<Rightarrow> int \<Rightarrow> string" where
  "info_context xml m i =
     (let ou = slot m i; ctx = take (CONTEXTSZ + 1) (c_context ou) in
      if xml then
        ''<Context'' @ attr ''id'' (show_int i) @ ''>'' @ ''<Status'' @ attr ''id'' (show_int (c_status ou)) @ ''>'' @
        context_status_to_string (c_status ou) @ ''</Status>'' @ tagged ''Context'' ctx @ ''<Node'' @
        attr ''id'' (show_int (c_node ou)) @ ''/><Vhost'' @ attr ''id'' (show_int (c_vhost ou)) @ ''/></Context>''
      else
        ''Context: ['' @ show_int (c_node ou) @ '':'' @ show_int (c_vhost ou) @ '':'' @ show_int i @ ''], Context: '' @ ctx @
        '', Status: '' @ context_status_to_string (c_status ou) @ eol)"

definition process_info ::
  "storage \<Rightarrow> httpd \<Rightarrow> (string \<times> worker_shared list) list \<Rightarrow> string option \<Rightarrow> manager \<Rightarrow> string" where
  "process_info S H bals accept M =
     (let xml = wants_xml accept; x = (\<lambda>s. if xml then s else []) in
      x xml_header @
      (if loc_get_max_size_node S M = 0 then []
       else x ''<Info><Nodes>'' @
         walk (get_node (st_node S) (nodestatsmem M)) (info_node H bals xml (nodestatsmem M))
           (get_ids_used_node (st_node S) (nodestatsmem M)) @
         x ''</Nodes>'' @ x ''<Vhosts>'' @
         walk (get_host (st_host S) (hoststatsmem M)) (info_host xml (hoststatsmem M))
           (get_ids_used_host (st_host S) (hoststatsmem M)) @
         x ''</Vhosts>'' @ x ''<Contexts>'' @
         walk (get_context (st_context S) (contextstatsmem M)) (info_context xml (contextstatsmem M))
           (get_ids_used_context (st_context S) (contextstatsmem M)) @
         x ''</Contexts></Info>''))"

section \<open>Every record in use is printed once, in slot order\<close>

lemma walk_all:
  "(\<And>i. i \<in> set is \<Longrightarrow> get i = APR_SUCCESS) \<Longrightarrow> walk get line is = concat (map line is)"
  by (induction "is") auto

context manager_storage
begin

lemma walk_used:
  assumes wf: "wf_slotmem m" and P: "slotmem_provider P" and get: "\<And>i. get i = dptr P m i"
  shows "walk get line (map int (used_slots m)) = concat (map (\<lambda>i. line (int i)) (used_slots m))"
proof -
  have "get i = APR_SUCCESS" if "i \<in> set (map int (used_slots m))" for i
    using that slotmem_provider.dptr_used [OF P wf, of i] wf get by (auto simp: used_iff_slots)
  then show ?thesis using walk_all [of "map int (used_slots m)" get line] by (simp add: o_def)
qed

lemma nodes_eq: "nodes_ok m \<Longrightarrow> get_ids_used_node (st_node S) m = map int (used_slots m)"
  by (auto simp: get_ids_used_node_def sn.get_ids_used_eq nodes_ok_def ids_ok_def set_used_slots)

lemma balancers_eq: "table_ok b_id balancer_key m \<Longrightarrow> get_ids_used_balancer (st_balancer S) m = map int (used_slots m)"
  by (rule get_ids_used_balancer_eq [OF sb.slotmem_provider_axioms])

lemma table_walks:
  assumes "manager_ok M"
  shows "walk (get_balancer (st_balancer S) (balancerstatsmem M)) line (get_ids_used_balancer (st_balancer S) (balancerstatsmem M))
      = concat (map (\<lambda>i. line (int i)) (used_slots (balancerstatsmem M)))"
    and "walk (get_node (st_node S) (nodestatsmem M)) line (get_ids_used_node (st_node S) (nodestatsmem M))
      = concat (map (\<lambda>i. line (int i)) (used_slots (nodestatsmem M)))"
    and "walk (get_host (st_host S) (hoststatsmem M)) line (get_ids_used_host (st_host S) (hoststatsmem M))
      = concat (map (\<lambda>i. line (int i)) (used_slots (hoststatsmem M)))"
    and "walk (get_context (st_context S) (contextstatsmem M)) line (get_ids_used_context (st_context S) (contextstatsmem M))
      = concat (map (\<lambda>i. line (int i)) (used_slots (contextstatsmem M)))"
proof -
  have t: "nodes_ok (nodestatsmem M)" "table_ok h_id host_key (hoststatsmem M)"
    "table_ok c_id context_key (contextstatsmem M)" "table_ok b_id balancer_key (balancerstatsmem M)"
    using assms by (simp_all add: manager_ok_def tables_ok_def)
  have wf: "wf_slotmem (nodestatsmem M)" "wf_slotmem (hoststatsmem M)" "wf_slotmem (contextstatsmem M)"
    "wf_slotmem (balancerstatsmem M)" using t by (simp_all add: nodes_ok_def table_ok_def)
  show "walk (get_balancer (st_balancer S) (balancerstatsmem M)) line (get_ids_used_balancer (st_balancer S) (balancerstatsmem M))
      = concat (map (\<lambda>i. line (int i)) (used_slots (balancerstatsmem M)))"
    unfolding balancers_eq [OF t(4)] by (rule walk_used [OF wf(4) sb.slotmem_provider_axioms get_balancer_def])
  show "walk (get_node (st_node S) (nodestatsmem M)) line (get_ids_used_node (st_node S) (nodestatsmem M))
      = concat (map (\<lambda>i. line (int i)) (used_slots (nodestatsmem M)))"
    unfolding nodes_eq [OF t(1)] by (rule walk_used [OF wf(1) sn.slotmem_provider_axioms get_node_def])
  show "walk (get_host (st_host S) (hoststatsmem M)) line (get_ids_used_host (st_host S) (hoststatsmem M))
      = concat (map (\<lambda>i. line (int i)) (used_slots (hoststatsmem M)))"
    unfolding hosts_eq [OF t(2)] by (rule walk_used [OF wf(2) sh.slotmem_provider_axioms get_host_def])
  show "walk (get_context (st_context S) (contextstatsmem M)) line (get_ids_used_context (st_context S) (contextstatsmem M))
      = concat (map (\<lambda>i. line (int i)) (used_slots (contextstatsmem M)))"
    unfolding contexts_eq [OF t(3)] by (rule walk_used [OF wf(3) sc.slotmem_provider_axioms get_context_def])
qed

end

section \<open>Properties\<close>

text \<open>C13: DUMP in plain text lists the whole state: one line for each balancer, node, virtual host and
  application in use, in slot order, and nothing else.\<close>

theorem process_dump_complete:
  assumes "manager_storage S" and "manager_ok M" and "\<not> wants_xml accept" and "loc_get_max_size_balancer S M \<noteq> 0"
  shows "process_dump S H accept M =
     concat (map (\<lambda>i. dump_balancer False (balancerstatsmem M) (int i)) (used_slots (balancerstatsmem M))) @
     concat (map (\<lambda>i. dump_node H False (nodestatsmem M) (int i)) (used_slots (nodestatsmem M))) @
     concat (map (\<lambda>i. dump_host False (hoststatsmem M) (int i)) (used_slots (hoststatsmem M))) @
     concat (map (\<lambda>i. dump_context False (contextstatsmem M) (int i)) (used_slots (contextstatsmem M)))"
  using assms(3,4) manager_storage.table_walks [OF assms(1,2)] by (simp add: process_dump_def Let_def)

theorem process_dump_complete_witness:
  "process_dump shm_storage (env_httpd small_env) None small_manager = []"
  using process_dump_complete [OF shm_mgr.manager_storage_axioms small_manager_ok, of None "env_httpd small_env"]
  by (simp add: wants_xml_def loc_get_max_size_balancer_def get_max_size_balancer_def shm_storage_def shm_provider_def
      small_manager_def blank_slots_def used_slots_def)

end
