(* ===== verification/Manager_Conf.thy ===== *)
theory Manager_Conf
  imports Manager_State
begin

text \<open>
  The configuration of mod_manager and the start of the module: \<open>mod_manager_config\<close>, its
  defaults (\<open>create_manager_config\<close>), the merge of a virtual host's configuration with the main
  server's (\<open>merge_manager_server_config\<close>), the directives (\<open>cmd_manager_*\<close>) and
  \<open>manager_init\<close>, which sizes and creates the tables. The fields that message processing reads
  are those of \<open>mcmp_conf\<close>, which the full record extends.
\<close>

section \<open>Configuration record\<close>

record mod_manager_config = mcmp_conf +
  basefilename :: "string option"
  maxcontext :: "32 word"
  maxnode :: "32 word"
  maxhost :: "32 word"
  maxsessionid :: "32 word"
  conf_tableversion :: "32 word"
  persistent :: int
  nonce :: int
  allow_display :: int
  allow_cmd :: int
  reduce_display :: int
  maxmesssize :: int
  enable_mcmp_receive :: int

abbreviation (input) DEFMAXCONTEXT :: "32 word" where "DEFMAXCONTEXT \<equiv> 100"
abbreviation (input) DEFMAXNODE :: "32 word" where "DEFMAXNODE \<equiv> 20"
abbreviation (input) DEFMAXHOST :: "32 word" where "DEFMAXHOST \<equiv> 20"
abbreviation (input) DEFMAXSESSIONID :: "32 word" where "DEFMAXSESSIONID \<equiv> 0"
abbreviation (input) MAXMESSSIZE :: int where "MAXMESSSIZE \<equiv> 1024"

definition create_manager_config :: mod_manager_config where
  "create_manager_config = \<lparr>balancername = None, ajp_secret = None, enable_ws_tunnel = 0,
     ws_upgrade_header = None, response_field_size = 0, basefilename = None,
     maxcontext = DEFMAXCONTEXT, maxnode = DEFMAXNODE, maxhost = DEFMAXHOST,
     maxsessionid = DEFMAXSESSIONID, conf_tableversion = 0, persistent = 0, nonce = -1,
     allow_display = 0, allow_cmd = -1, reduce_display = 0, maxmesssize = 0, enable_mcmp_receive = 0\<rparr>"

definition create_manager_server_config :: mod_manager_config where
  "create_manager_server_config = create_manager_config"

text \<open>The pattern of the merge: the second value unless it is the default, then the first, then the default.\<close>

definition override_default :: "'a \<Rightarrow> 'a \<Rightarrow> 'a \<Rightarrow> 'a" where
  "override_default d v1 v2 = (if v2 \<noteq> d then v2 else if v1 \<noteq> d then v1 else d)"

definition merge_manager_server_config ::
  "mod_manager_config \<Rightarrow> mod_manager_config \<Rightarrow> mod_manager_config" where
  "merge_manager_server_config c1 c2 = create_manager_config\<lparr>
     basefilename := override_default None (basefilename c1) (basefilename c2),
     maxcontext := override_default DEFMAXCONTEXT (maxcontext c1) (maxcontext c2),
     maxnode := override_default DEFMAXNODE (maxnode c1) (maxnode c2),
     maxhost := override_default DEFMAXHOST (maxhost c1) (maxhost c2),
     maxsessionid := override_default DEFMAXSESSIONID (maxsessionid c1) (maxsessionid c2),
     persistent := override_default 0 (persistent c1) (persistent c2),
     nonce := override_default (-1) (nonce c1) (nonce c2),
     balancername := override_default None (balancername c1) (balancername c2),
     allow_display := override_default 0 (allow_display c1) (allow_display c2),
     allow_cmd := override_default (-1) (allow_cmd c1) (allow_cmd c2),
     reduce_display := override_default 0 (reduce_display c1) (reduce_display c2),
     enable_mcmp_receive := override_default 0 (enable_mcmp_receive c1) (enable_mcmp_receive c2),
     enable_ws_tunnel := override_default 0 (enable_ws_tunnel c1) (enable_ws_tunnel c2),
     ws_upgrade_header := override_default None (ws_upgrade_header c1) (ws_upgrade_header c2),
     ajp_secret := override_default None (ajp_secret c1) (ajp_secret c2),
     response_field_size := override_default 0 (response_field_size c1) (response_field_size c2)\<rparr>"

section \<open>Directives\<close>

text \<open>
  What a directive handler sees of the server: the answer of \<open>ap_check_cmd_context\<close> for
  \<open>GLOBAL_ONLY\<close>, whether the server is a virtual host, the names of the directives beside this
  one, the linked modules, and httpd's path and size constants. A handler returns an error text
  or NULL, and the configuration it leaves.
\<close>

record cmd_env =
  global_only :: "string option"
  is_virtual :: bool
  siblings :: "string list"
  ap_find_linked_module :: "string \<Rightarrow> bool"
  ap_server_root_relative :: "string \<Rightarrow> string"
  apr_dir_make_recursive :: "string \<Rightarrow> apr_status"
  PROXY_WORKER_MAX_SCHEME_SIZE :: nat
  PROXY_WORKER_MAX_SECRET_SIZE :: nat
  HUGE_STRING_LEN :: int

definition unsigned_atoi :: "string \<Rightarrow> 32 word" where
  "unsigned_atoi w = word_of_int (atoi w)"

definition cmd_manager_maxcontext :: "cmd_env \<Rightarrow> string \<Rightarrow> mod_manager_config \<Rightarrow> string option \<times> mod_manager_config" where
  "cmd_manager_maxcontext C w c =
     (if global_only C \<noteq> None then (global_only C, c) else (None, c\<lparr>maxcontext := unsigned_atoi w\<rparr>))"

definition cmd_manager_maxnode :: "cmd_env \<Rightarrow> string \<Rightarrow> mod_manager_config \<Rightarrow> string option \<times> mod_manager_config" where
  "cmd_manager_maxnode C w c =
     (if global_only C \<noteq> None then (global_only C, c) else (None, c\<lparr>maxnode := unsigned_atoi w\<rparr>))"

definition cmd_manager_maxhost :: "cmd_env \<Rightarrow> string \<Rightarrow> mod_manager_config \<Rightarrow> string option \<times> mod_manager_config" where
  "cmd_manager_maxhost C w c =
     (if global_only C \<noteq> None then (global_only C, c) else (None, c\<lparr>maxhost := unsigned_atoi w\<rparr>))"

definition cmd_manager_maxsessionid :: "cmd_env \<Rightarrow> string \<Rightarrow> mod_manager_config \<Rightarrow> string option \<times> mod_manager_config" where
  "cmd_manager_maxsessionid C w c =
     (if global_only C \<noteq> None then (global_only C, c) else (None, c\<lparr>maxsessionid := unsigned_atoi w\<rparr>))"

definition cmd_manager_memmanagerfile :: "cmd_env \<Rightarrow> string \<Rightarrow> mod_manager_config \<Rightarrow> string option \<times> mod_manager_config" where
  "cmd_manager_memmanagerfile C w c =
     (if global_only C \<noteq> None then (global_only C, c)
      else let path = ap_server_root_relative C w; c' = c\<lparr>basefilename := Some path\<rparr> in
        if apr_dir_make_recursive C path \<noteq> APR_SUCCESS
        then (Some (''Can'' @ [CHR 0x27] @ ''t create directory corresponding to MemManagerFile''), c')
        else (None, c'))"

definition cmd_manager_balancername :: "string \<Rightarrow> mod_manager_config \<Rightarrow> string option \<times> mod_manager_config" where
  "cmd_manager_balancername w c = (None, c\<lparr>balancername := Some (normalize_balancer_name w)\<rparr>)"

definition cmd_manager_pers :: "cmd_env \<Rightarrow> string \<Rightarrow> mod_manager_config \<Rightarrow> string option \<times> mod_manager_config" where
  "cmd_manager_pers C arg c =
     (if global_only C \<noteq> None then (global_only C, c)
      else (case process_boolean_parameter arg (persistent c) of (ok, v) \<Rightarrow>
        (if ok then None else Some ''PersistSlots must be one of: off | on'', c\<lparr>persistent := v\<rparr>)))"

definition cmd_manager_nonce :: "string \<Rightarrow> mod_manager_config \<Rightarrow> string option \<times> mod_manager_config" where
  "cmd_manager_nonce arg c =
     (case process_boolean_parameter arg (nonce c) of (ok, v) \<Rightarrow>
        (if ok then None else Some ''CheckNonce must be one of: off | on'', c\<lparr>nonce := v\<rparr>))"

definition cmd_manager_allow_display :: "string \<Rightarrow> mod_manager_config \<Rightarrow> string option \<times> mod_manager_config" where
  "cmd_manager_allow_display arg c =
     (case process_boolean_parameter arg (allow_display c) of (ok, v) \<Rightarrow>
        (if ok then None else Some ''AllowDisplay must be one of: off | on'', c\<lparr>allow_display := v\<rparr>))"

definition cmd_manager_allow_cmd :: "string \<Rightarrow> mod_manager_config \<Rightarrow> string option \<times> mod_manager_config" where
  "cmd_manager_allow_cmd arg c =
     (case process_boolean_parameter arg (allow_cmd c) of (ok, v) \<Rightarrow>
        (if ok then None else Some ''AllowCmd must be one of: off | on'', c\<lparr>allow_cmd := v\<rparr>))"

definition cmd_manager_reduce_display :: "string \<Rightarrow> mod_manager_config \<Rightarrow> string option \<times> mod_manager_config" where
  "cmd_manager_reduce_display arg c =
     (case process_boolean_parameter arg (reduce_display c) of (ok, v) \<Rightarrow>
        (if ok then None else Some ''ReduceDisplay must be one of: off | on'', c\<lparr>reduce_display := v\<rparr>))"

definition cmd_manager_maxmesssize :: "cmd_env \<Rightarrow> string \<Rightarrow> mod_manager_config \<Rightarrow> string option \<times> mod_manager_config" where
  "cmd_manager_maxmesssize C w c =
     (if global_only C \<noteq> None then (global_only C, c)
      else let c' = c\<lparr>maxmesssize := atoi w\<rparr> in
        if maxmesssize c' < MAXMESSSIZE then (Some ''MaxMCMPMessSize must bigger than 1024'', c') else (None, c'))"

definition cmd_manager_enable_mcmp_receive :: "cmd_env \<Rightarrow> mod_manager_config \<Rightarrow> string option \<times> mod_manager_config" where
  "cmd_manager_enable_mcmp_receive C c =
     (if \<not> is_virtual C then (Some ''EnableMCMPReceive must be in a VirtualHost'', c)
      else if ''<Directory'' \<in> set (siblings C)
      then (Some ''Directory cannot be used with EnableMCMPReceive, use Location instead'', c)
      else (None, c\<lparr>enable_mcmp_receive := 1\<rparr>))"

definition cmd_manager_enable_mcmp_receive_deprecated :: "cmd_env \<Rightarrow> mod_manager_config \<Rightarrow> string option \<times> mod_manager_config" where
  "cmd_manager_enable_mcmp_receive_deprecated C c = cmd_manager_enable_mcmp_receive C c"

definition cmd_manager_enable_ws_tunnel :: "cmd_env \<Rightarrow> mod_manager_config \<Rightarrow> string option \<times> mod_manager_config" where
  "cmd_manager_enable_ws_tunnel C c =
     (if global_only C \<noteq> None then (global_only C, c)
      else if ap_find_linked_module C ''mod_proxy_http.c'' then (None, c\<lparr>enable_ws_tunnel := 1\<rparr>)
      else (Some ''EnableWsTunnel requires mod_proxy_http.c'', c))"

text \<open>The decimal digits of the limit in the two size messages are given by \<open>digits\<close>.\<close>

definition cmd_manager_ws_upgrade_header ::
  "(nat \<Rightarrow> string) \<Rightarrow> cmd_env \<Rightarrow> string \<Rightarrow> mod_manager_config \<Rightarrow> string option \<times> mod_manager_config" where
  "cmd_manager_ws_upgrade_header digits C w c =
     (if global_only C \<noteq> None then (global_only C, c)
      else if length w \<ge> PROXY_WORKER_MAX_SCHEME_SIZE C
      then (Some (''upgrade protocol length must be < '' @ digits (PROXY_WORKER_MAX_SCHEME_SIZE C) @ '' characters''), c)
      else if ap_find_linked_module C ''mod_proxy_http.c''
      then (None, c\<lparr>enable_ws_tunnel := 1, ws_upgrade_header := Some w\<rparr>)
      else (Some ''WSUpgradeHeader requires mod_proxy_http.c'', c))"

definition cmd_manager_ajp_secret ::
  "(nat \<Rightarrow> string) \<Rightarrow> cmd_env \<Rightarrow> string \<Rightarrow> mod_manager_config \<Rightarrow> string option \<times> mod_manager_config" where
  "cmd_manager_ajp_secret digits C w c =
     (if global_only C \<noteq> None then (global_only C, c)
      else if length w \<ge> PROXY_WORKER_MAX_SECRET_SIZE C
      then (Some (''AJP secret length must be < '' @ digits (PROXY_WORKER_MAX_SECRET_SIZE C) @ '' characters''), c)
      else if ap_find_linked_module C ''mod_proxy_ajp.c'' then (None, c\<lparr>ajp_secret := Some w\<rparr>)
      else (Some ''AJPsecret requires mod_proxy_ajp.c'', c))"

definition cmd_manager_responsefieldsize :: "cmd_env \<Rightarrow> string \<Rightarrow> mod_manager_config \<Rightarrow> string option \<times> mod_manager_config" where
  "cmd_manager_responsefieldsize C w c =
     (let s = atoi w in
      if global_only C \<noteq> None then (global_only C, c)
      else if s < 0 then (Some ''ResponseFieldSize must be greater than 0 bytes, or 0 for system default.'', c)
      else if ap_find_linked_module C ''mod_proxy_http.c''
      then (None, c\<lparr>response_field_size := (if s \<noteq> 0 then s else HUGE_STRING_LEN C)\<rparr>)
      else (Some ''ResponseFieldSize requires mod_proxy_http.c'', c))"

section \<open>Start of the module\<close>

abbreviation (input) AP_SLOTMEM_TYPE_PREGRAB :: int where "AP_SLOTMEM_TYPE_PREGRAB \<equiv> 4"

definition manager_file :: "(string \<Rightarrow> string) \<Rightarrow> mod_manager_config \<Rightarrow> string \<Rightarrow> string" where
  "manager_file root c name =
     (case basefilename c of
        Some b \<Rightarrow> b @ ''/manager.'' @ name
      | None \<Rightarrow> root (''logs/manager.'' @ name))"

text \<open>The sanity checks on the sizes.\<close>

definition manager_sizes :: "mod_manager_config \<Rightarrow> mod_manager_config" where
  "manager_sizes c =
     (let c1 = (if maxhost c < maxnode c then c\<lparr>maxhost := maxnode c\<rparr> else c)
      in if maxcontext c1 < maxhost c1 then c1\<lparr>maxcontext := maxhost c1\<rparr> else c1)"

text \<open>
  \<open>manager_init\<close> up to the mutexes: \<open>mkversion\<close> is the status of creating the segment of the
  version counter. \<open>None\<close> is the failure that stops httpd.
\<close>

definition manager_init ::
  "storage \<Rightarrow> (string \<Rightarrow> string) \<Rightarrow> (string \<Rightarrow> apr_status) \<Rightarrow> mod_manager_config
     \<Rightarrow> (manager \<times> mod_manager_config) option" where
  "manager_init S root mkversion c0 =
     (let c = manager_sizes c0; ty = persistent c + AP_SLOTMEM_TYPE_PREGRAB; file = manager_file root c;
          nm = create_mem_node (st_node S) (file ''node'') (unat (maxnode c)) ty
      in if get_last_mem_error nm \<noteq> APR_SUCCESS then None
         else (case create_mem_context (st_context S) (file ''context'') (unat (maxcontext c)) ty of
             None \<Rightarrow> None
           | Some cm \<Rightarrow>
         (case create_mem_host (st_host S) (file ''host'') (unat (maxhost c)) ty of
             None \<Rightarrow> None
           | Some hm \<Rightarrow>
         (case create_mem_balancer (st_balancer S) (file ''balancer'') (unat (maxhost c)) ty of
             None \<Rightarrow> None
           | Some bm \<Rightarrow>
         (case (if maxsessionid c = 0 then Some None
                else map_option Some (create_mem_sessionid (st_sessionid S) (file ''sessionid'') (unat (maxsessionid c)) ty)) of
             None \<Rightarrow> None
           | Some sm \<Rightarrow>
         (case create_mem_domain (st_domain S) (file ''domain'') (unat (maxnode c)) ty of
             None \<Rightarrow> None
           | Some dm \<Rightarrow>
               if mkversion (file ''version'') \<noteq> APR_SUCCESS then None
               else Some (set_version_node 0 \<lparr>nodestatsmem = slotmem nm, hoststatsmem = slotmem hm,
                  contextstatsmem = slotmem cm, balancerstatsmem = slotmem bm,
                  sessionidstatsmem = map_option slotmem sm, domainstatsmem = slotmem dm,
                  version_counter = 0, tableversion = conf_tableversion c, node_lock = 0, managed = []\<rparr>, c)))))))"

text \<open>
  \<open>manager_child_init\<close>: a child inherits the parent's state and attaches the segments again; the
  directives' sizes are overwritten with those of the segments. The child exits when a mutex cannot be
  reopened; when a segment cannot be attached it goes on with what it has so far, the table named here
  missing. Without a provider nothing is attached. \<open>reopen\<close> tells which mutex can be reopened.
\<close>

datatype child_start = Child_exit | Child_without string manager mod_manager_config | Child_attached manager mod_manager_config

definition attach_table ::
  "'a mem_t option \<Rightarrow> string \<Rightarrow> ('a slotmem \<Rightarrow> manager \<Rightarrow> manager) \<Rightarrow> (32 word \<Rightarrow> mod_manager_config \<Rightarrow> mod_manager_config)
     \<Rightarrow> (manager \<Rightarrow> mod_manager_config \<Rightarrow> child_start) \<Rightarrow> manager \<Rightarrow> mod_manager_config \<Rightarrow> child_start" where
  "attach_table h name set_table set_size rest M c =
     (case h of
        None \<Rightarrow> Child_without name M c
      | Some mem \<Rightarrow> rest (set_table (slotmem mem) M) (set_size (of_nat (num mem)) c))"

definition manager_child_init ::
  "storage option \<Rightarrow> (string \<Rightarrow> string) \<Rightarrow> (string \<Rightarrow> bool) \<Rightarrow> manager \<Rightarrow> mod_manager_config \<Rightarrow> child_start" where
  "manager_child_init provider root reopen M c0 =
     (case provider of
        None \<Rightarrow> Child_without ''storage'' M c0
      | Some S \<Rightarrow>
          if \<not> reopen ''node'' \<or> \<not> reopen ''context'' then Child_exit
          else
            let c = c0\<lparr>conf_tableversion := 0\<rparr>; file = manager_file root c;
                nm = get_mem_node (st_node S) (file ''node'') (unat (maxnode c))
            in attach_table (if get_last_mem_error nm \<noteq> APR_SUCCESS then None else Some nm) ''node''
                 (\<lambda>m M. M\<lparr>nodestatsmem := m\<rparr>) (\<lambda>n c. c\<lparr>maxnode := n\<rparr>)
               (attach_table (get_mem_context (st_context S) (file ''context'') (unat (maxcontext c))) ''context''
                 (\<lambda>m M. M\<lparr>contextstatsmem := m\<rparr>) (\<lambda>n c. c\<lparr>maxcontext := n\<rparr>)
               (attach_table (get_mem_host (st_host S) (file ''host'') (unat (maxhost c))) ''host''
                 (\<lambda>m M. M\<lparr>hoststatsmem := m\<rparr>) (\<lambda>n c. c\<lparr>maxhost := n\<rparr>)
               (attach_table (get_mem_balancer (st_balancer S) (file ''balancer'') (unat (maxhost c))) ''balancer''
                 (\<lambda>m M. M\<lparr>balancerstatsmem := m\<rparr>) (\<lambda>n c. c\<lparr>maxhost := n\<rparr>)
               (if maxsessionid c = 0 then Child_attached
                else attach_table (get_mem_sessionid (st_sessionid S) (file ''sessionid'') (unat (maxsessionid c))) ''sessionid''
                  (\<lambda>m M. M\<lparr>sessionidstatsmem := Some m\<rparr>) (\<lambda>n c. c\<lparr>maxsessionid := n\<rparr>) Child_attached)))) M c)"

section \<open>Facts\<close>

lemma override_default_default [simp]: "override_default d v d = v" "override_default d d v = v"
  by (simp_all add: override_default_def)

lemma override_default_assoc: "override_default d (override_default d u v) w = override_default d u (override_default d v w)"
  by (simp add: override_default_def)

lemma override_default_idem [simp]: "override_default d v v = v"
  by (simp add: override_default_def)

text \<open>A segment that is created, not restored, has all its slots free.\<close>

definition blank :: "nat \<Rightarrow> 'a slotmem \<Rightarrow> bool" where
  "blank n m \<longleftrightarrow> length (items m) = n \<and> inuse m = replicate n False"

lemma blank_table_ok: "blank n m \<Longrightarrow> table_ok ident key m"
  by (simp add: blank_def table_ok_def wf_slotmem_def ids_ok_def keys_ok_def)

locale slotmem_creator = slotmem_provider P
  for P :: "'a provider" +
  assumes create_blank: "create P name n ty = (APR_SUCCESS, m) \<Longrightarrow> blank n m"
begin

lemma create_attach_blank:
  "create_attach_mem P name exe n ty True = Some h \<Longrightarrow> blank n (slotmem h)"
  by (auto simp: create_attach_mem_def create_blank split: prod.splits if_splits)

end

interpretation shm_new: slotmem_creator "shm_provider z" for z
  by unfold_locales (auto simp: shm_provider_def blank_def)

definition creates :: "storage \<Rightarrow> bool" where
  "creates S \<longleftrightarrow> slotmem_creator (st_node S) \<and> slotmem_creator (st_host S) \<and> slotmem_creator (st_context S) \<and>
     slotmem_creator (st_balancer S)"

lemma creates_shm: "creates shm_storage"
  by (simp add: creates_def shm_storage_def shm_new.slotmem_creator_axioms)

lemma manager_init_blank:
  assumes "creates S" and "manager_init S root mkversion c = Some (M, c')"
  shows "c' = manager_sizes c \<and> version_counter M = 0 \<and> node_lock M = 0 \<and>
     blank (unat (maxnode c')) (nodestatsmem M) \<and> blank (unat (maxhost c')) (hoststatsmem M) \<and>
     blank (unat (maxcontext c')) (contextstatsmem M) \<and> blank (unat (maxhost c')) (balancerstatsmem M)"
proof -
  have cr: "slotmem_creator (st_node S)" "slotmem_creator (st_host S)" "slotmem_creator (st_context S)"
    "slotmem_creator (st_balancer S)" using assms(1) by (simp_all add: creates_def)
  have node: "get_last_mem_error (create_mem_node (st_node S) nm n ty) = APR_SUCCESS \<Longrightarrow>
      blank n (slotmem (create_mem_node (st_node S) nm n ty))" for nm n ty
    using slotmem_creator.create_blank [OF cr(1)]
    by (auto simp: create_mem_node_def create_attach_mem_node_def get_last_mem_error_def split: prod.splits if_splits)
  show ?thesis
    using assms(2) node slotmem_creator.create_attach_blank [OF cr(2)]
      slotmem_creator.create_attach_blank [OF cr(3)] slotmem_creator.create_attach_blank [OF cr(4)]
    by (auto simp: manager_init_def Let_def set_version_node_def create_mem_context_def create_mem_host_def
        create_mem_balancer_def create_attach_mem_context_def create_attach_mem_host_def
        create_attach_mem_balancer_def split: if_splits option.splits)
qed

lemma manager_init_consistent:
  assumes "creates S" and "manager_init S root mkversion c = Some (M, c')"
  shows "manager_ok M"
  using manager_init_blank [OF assms] blank_table_ok
  by (auto simp: manager_ok_def tables_ok_def nodes_ok_def refs_ok_def hosts_ref_def contexts_ref_def
      blank_def table_ok_def wf_slotmem_def ids_ok_def keys_ok_def)

section \<open>Properties\<close>

text \<open>The segments of a running manager can be attached under the names the parent created them with.\<close>

definition attachable :: "storage \<Rightarrow> (string \<Rightarrow> string) \<Rightarrow> manager \<Rightarrow> bool" where
  "attachable S file M \<longleftrightarrow>
     attach (st_node S) (file ''node'' @ ''.nodes'') = (APR_SUCCESS, nodestatsmem M, length (items (nodestatsmem M))) \<and>
     attach (st_context S) (file ''context'' @ ''.contexts'') = (APR_SUCCESS, contextstatsmem M, length (items (contextstatsmem M))) \<and>
     attach (st_host S) (file ''host'' @ ''.hosts'') = (APR_SUCCESS, hoststatsmem M, length (items (hoststatsmem M))) \<and>
     attach (st_balancer S) (file ''balancer'' @ ''.balancers'') = (APR_SUCCESS, balancerstatsmem M, length (items (balancerstatsmem M))) \<and>
     (\<forall>m. sessionidstatsmem M = Some m \<longrightarrow>
        attach (st_sessionid S) (file ''sessionid'' @ ''.sessionid'') = (APR_SUCCESS, m, length (items m)))"

lemmas get_mem_defs = get_mem_node_def create_attach_mem_node_def get_last_mem_error_def get_mem_context_def create_attach_mem_context_def
  get_mem_host_def create_attach_mem_host_def get_mem_balancer_def create_attach_mem_balancer_def
  get_mem_sessionid_def create_attach_mem_sessionid_def create_attach_mem_def

text \<open>A child that starts beside a running manager works on the manager's own tables.\<close>

theorem child_shares_tables:
  assumes "attachable S (manager_file root c) M" and "reopen ''node''" and "reopen ''context''"
    and "sessionidstatsmem M = None \<longleftrightarrow> maxsessionid c = 0"
  shows "\<exists>c'. manager_child_init (Some S) root reopen M c = Child_attached M c' \<and> conf_tableversion c' = 0 \<and>
     maxnode c' = of_nat (length (items (nodestatsmem M))) \<and> maxcontext c' = of_nat (length (items (contextstatsmem M))) \<and>
     maxhost c' = of_nat (length (items (balancerstatsmem M)))"
proof -
  have same_file: "manager_file root (c\<lparr>conf_tableversion := 0\<rparr>) = manager_file root c" by (simp add: manager_file_def fun_eq_iff)
  show ?thesis
    using assms by (cases "sessionidstatsmem M") (auto simp: manager_child_init_def attach_table_def attachable_def same_file get_mem_defs)
qed

text \<open>The merge of configurations is a monoid on the settings it carries: it is associative and
  the defaults are neutral, so a virtual host inherits every one of them; the table version and the
  message size are reset.\<close>

theorem merge_monoid:
  "merge_manager_server_config (merge_manager_server_config c1 c2) c3 =
     merge_manager_server_config c1 (merge_manager_server_config c2 c3) \<and>
   merge_manager_server_config c create_manager_config = c\<lparr>conf_tableversion := 0, maxmesssize := 0\<rparr> \<and>
   merge_manager_server_config create_manager_config c = c\<lparr>conf_tableversion := 0, maxmesssize := 0\<rparr>"
  by (simp add: merge_manager_server_config_def create_manager_config_def override_default_assoc)

text \<open>The message size set with \<open>MaxMCMPMaxMessSize\<close> in the main server never reaches a virtual
  host: after a merge the limit is the built-in default, whatever either side says.\<close>

theorem merge_drops_maxmesssize:
  "maxmesssize (merge_manager_server_config c1 c2) = 0"
  by (simp add: merge_manager_server_config_def create_manager_config_def)



end
