(* ===== verification/Manager_Handler.thy ===== *)
theory Manager_Handler
  imports App_Command Dump_Info Manager_Conf
begin

text \<open>
  Requests to mod_manager: which of them are management commands (\<open>is_our_method\<close>,
  \<open>manager_trans\<close>, \<open>manager_map_to_storage\<close>), the commands STATUS, PING and VERSION, the
  dispatch of application commands (\<open>process_appl\<close>, \<open>process_domain\<close>), the error answer
  (\<open>process_error\<close>), and \<open>manager_handler\<close>, which reads the body into a bounded buffer, decodes
  it and runs the command.
\<close>

section \<open>Requests\<close>

datatype method_number = M_GET | M_INVALID | M_OTHER

abbreviation (input) OK :: int where "OK \<equiv> 0"
abbreviation (input) DECLINED :: int where "DECLINED \<equiv> -1"
abbreviation (input) HTTP_INTERNAL_SERVER_ERROR :: int where "HTTP_INTERNAL_SERVER_ERROR \<equiv> 500"

record request =
  r_method :: string
  r_method_number :: method_number
  r_uri :: string
  r_handler :: string
  r_filename :: string
  r_accept :: "string option"

definition is_our_method :: "request \<Rightarrow> bool" where
  "is_our_method r \<longleftrightarrow>
     strcasecmp0 (r_method r) ''CONFIG'' \<or> strcasecmp0 (r_method r) ''ENABLE-APP'' \<or>
     strcasecmp0 (r_method r) ''DISABLE-APP'' \<or> strcasecmp0 (r_method r) ''STOP-APP'' \<or>
     strcasecmp0 (r_method r) ''REMOVE-APP'' \<or> strcasecmp0 (r_method r) ''STATUS'' \<or>
     strcasecmp0 (r_method r) ''DUMP'' \<or> strcasecmp0 (r_method r) ''INFO'' \<or>
     strcasecmp0 (r_method r) ''PING'' \<or> strcasecmp0 (r_method r) ''VERSION''"

text \<open>\<open>conf_handler\<close> is the handler configured for the request's location, if any.\<close>

definition manager_trans :: "mod_manager_config \<Rightarrow> string option \<Rightarrow> request \<Rightarrow> int \<times> request" where
  "manager_trans mconf conf_handler r =
     (if conf_handler = Some ''mod_cluster-manager'' \<and> r_method_number r = M_GET
      then (OK, r\<lparr>r_handler := ''mod_cluster-manager'', r_filename := r_uri r\<rparr>)
      else if r_method_number r \<noteq> M_INVALID then (DECLINED, r)
      else if enable_mcmp_receive mconf = 0 then (DECLINED, r)
      else if is_our_method r then
        (OK, r\<lparr>r_handler := ''mod-cluster'',
               r_filename := (if r_uri r = ''*'' \<or> suffix ''/*'' (r_uri r) then NODE_COMMAND else r_uri r)\<rparr>)
      else (DECLINED, r))"

definition manager_map_to_storage :: "mod_manager_config \<Rightarrow> request \<Rightarrow> int" where
  "manager_map_to_storage mconf r =
     (if r_method_number r \<noteq> M_INVALID then DECLINED
      else if enable_mcmp_receive mconf = 0 then DECLINED
      else if is_our_method r then OK else DECLINED)"

section \<open>The environment of the handler\<close>

text \<open>
  Beside what CONFIG needs: the start time of httpd, the release string and the workers of
  mod_proxy.
\<close>

record henv = menv +
  env_restart_time :: int
  env_release :: string
  env_bals :: "(string \<times> worker_shared list) list"

abbreviation cfg_env :: "henv \<Rightarrow> menv" where
  "cfg_env E \<equiv> menv.truncate E"

definition VERSION_PROTOCOL :: string where "VERSION_PROTOCOL = ''0.2.1''"

section \<open>STATUS\<close>

definition isnode_up :: "henv \<Rightarrow> manager \<Rightarrow> int \<Rightarrow> int \<Rightarrow> int \<times> manager" where
  "isnode_up E M i load = (case env_bm E of Some b \<Rightarrow> bm_node_isup b M i load | None \<Rightarrow> (OK, M))"

definition ishost_up :: "henv \<Rightarrow> string \<Rightarrow> string \<Rightarrow> string \<Rightarrow> int" where
  "ishost_up E scheme host port = (case env_bm E of Some b \<Rightarrow> bm_host_isup b scheme host port | None \<Rightarrow> OK)"

definition print_status_response :: "henv \<Rightarrow> string \<Rightarrow> bool \<Rightarrow> string" where
  "print_status_response E route node_up =
     ''Type=STATUS-RSP&JVMRoute='' @ take (JVMROUTESZ (env_httpd E)) route @
     (if node_up then ''&State=OK'' else ''&State=NOTOK'') @ ''&id='' @ show_int (env_restart_time E) @ nl"

text \<open>The route stays undefined (\<open>None\<close>) until a JVMRoute field is read: the source leaves it
  uninitialised.\<close>

fun status_loop :: "httpd \<Rightarrow> string list \<Rightarrow> string option \<Rightarrow> int \<Rightarrow> (string option \<times> int) outcome" where
  "status_loop H [] route load = Value (route, load)"
| "status_loop H [k] route load =
     (if strcasecmp0 k ''JVMRoute'' \<or> strcasecmp0 k ''Load'' then Undefined else Failure TYPESYNTAX (SBADFLD k))"
| "status_loop H (k # v # rest) route load =
     (if strcasecmp0 k ''JVMRoute'' then
        (if length v \<ge> JVMROUTESZ H then Failure TYPESYNTAX SROUBIG else status_loop H rest (Some v) load)
      else if strcasecmp0 k ''Load'' then
        (let load' = (case sscanf_int v of Some n \<Rightarrow> n | None \<Rightarrow> load) in
         if load' < -1 \<or> load' > 100 then Failure TYPESYNTAX ''TODO: Bad value for Load''
         else status_loop H rest route load')
      else Failure TYPESYNTAX (SBADFLD k))"

definition find_route :: "henv \<Rightarrow> manager \<Rightarrow> string \<Rightarrow> int option" where
  "find_route E M route =
     read_node (st_node (env_storage E)) (nodestatsmem M) (zero_node\<lparr>mess := zero_mess\<lparr>JVMRoute := route, n_id := -1\<rparr>\<rparr>)"

definition process_status :: "henv \<Rightarrow> manager \<Rightarrow> string list \<Rightarrow> manager \<times> string outcome" where
  "process_status E M ptr =
     (case status_loop (env_httpd E) ptr None (-2) of
        Failure t s \<Rightarrow> (M, Failure t s)
      | Undefined \<Rightarrow> (M, Undefined)
      | Value (None, load) \<Rightarrow> (M, Undefined)
      | Value (Some route, load) \<Rightarrow>
          (if route = [] then (M, Failure TYPESYNTAX ''TODO: No JVMRoute given!'')
           else (case find_route E (loc_lock_nodes M) route of
                   None \<Rightarrow> (loc_unlock_nodes (loc_lock_nodes M), Failure TYPEMEM (MNODERD route))
                 | Some k \<Rightarrow>
                     (case isnode_up E (loc_unlock_nodes (loc_lock_nodes M)) (n_id (mess (slot (nodestatsmem M) k))) load of
                        (up, M') \<Rightarrow> (M', Value (print_status_response E route (up = OK)))))))"

section \<open>VERSION and PING\<close>

definition process_version :: "henv \<Rightarrow> string option \<Rightarrow> string" where
  "process_version E accept =
     (if wants_xml accept then
        xml_header @ ''<version><release>'' @ env_release E @ ''</release><protocol>'' @ VERSION_PROTOCOL @ ''</protocol></version>''
      else ''release: '' @ env_release E @ '', protocol: '' @ VERSION_PROTOCOL) @ nl"

definition print_ping_response :: "henv \<Rightarrow> string \<Rightarrow> int \<Rightarrow> string" where
  "print_ping_response E route node_up =
     ''Type=PING-RSP'' @ (if route \<noteq> [] then ''&JVMRoute='' @ take (JVMROUTESZ (env_httpd E)) route else []) @
     (if node_up \<noteq> 0 then ''&State=OK'' else ''&State=NOTOK'') @ ''&id='' @ show_int (env_restart_time E) @ nl"

record ping_fields =
  p_route :: string
  p_scheme :: "string option"
  p_host :: "string option"
  p_port :: "string option"

fun ping_loop :: "httpd \<Rightarrow> string list \<Rightarrow> ping_fields \<Rightarrow> ping_fields outcome" where
  "ping_loop H [] f = Value f"
| "ping_loop H ([] # rest) f = Value f"
| "ping_loop H [k] f =
     (if strcasecmp0 k ''JVMRoute'' \<or> strcasecmp0 k ''Scheme'' \<or> strcasecmp0 k ''Host'' \<or> strcasecmp0 k ''Port''
      then Undefined else Failure TYPESYNTAX (SBADFLD k))"
| "ping_loop H (k # v # rest) f =
     (if strcasecmp0 k ''JVMRoute'' then
        (if length v \<ge> JVMROUTESZ H then Failure TYPESYNTAX SROUBIG else ping_loop H rest (f\<lparr>p_route := v\<rparr>))
      else if strcasecmp0 k ''Scheme'' then
        (if \<not> strcasecmp0 v ''ajp'' \<and> \<not> strcasecmp0 v ''http'' \<and> \<not> strcasecmp0 v ''https'' \<and>
            \<not> strcasecmp0 v ''ws'' \<and> \<not> strcasecmp0 v ''wss''
         then Failure TYPESYNTAX (''PING Unsupported scheme: '' @ v)
         else ping_loop H rest (f\<lparr>p_scheme := Some v\<rparr>))
      else if strcasecmp0 k ''Host'' then ping_loop H rest (f\<lparr>p_host := Some v\<rparr>)
      else if strcasecmp0 k ''Port'' then ping_loop H rest (f\<lparr>p_port := Some v\<rparr>)
      else Failure TYPESYNTAX (SBADFLD k))"

definition process_ping :: "henv \<Rightarrow> manager \<Rightarrow> string list \<Rightarrow> string outcome" where
  "process_ping E M ptr =
     bind_outcome (ping_loop (env_httpd E) ptr \<lparr>p_route = [], p_scheme = None, p_host = None, p_port = None\<rparr>) (\<lambda>f.
       bind_outcome
         (if p_route f = [] then Value f
          else (case find_route E M (p_route f) of
                  None \<Rightarrow> Failure TYPEMEM (MNODERD (p_route f))
                | Some k \<Rightarrow> let n = mess (slot (nodestatsmem M) k) in
                    Value (f\<lparr>p_scheme := Some (Type n), p_host := Some (Host n), p_port := Some (Port n)\<rparr>)))
         (\<lambda>f. case (p_scheme f, p_host f, p_port f) of
                (None, None, None) \<Rightarrow> Value (print_ping_response E (p_route f) (-1))
              | (Some scheme, Some host, Some port) \<Rightarrow>
                  Value (print_ping_response E (p_route f) (if ishost_up E scheme host port = OK then 1 else 0))
              | _ \<Rightarrow> Failure TYPESYNTAX SMISFLD))"

section \<open>Dispatch\<close>

text \<open>\<open>None\<close> when the command is no application command.\<close>

definition process_appl ::
  "henv \<Rightarrow> apr_time \<Rightarrow> string \<Rightarrow> string \<Rightarrow> manager \<Rightarrow> string list \<Rightarrow> (manager \<times> string outcome) option" where
  "process_appl E now filename cmd M ptr =
     (if strcasecmp0 cmd ''ENABLE-APP'' then Some (process_enable (cfg_env E) now filename M ptr)
      else if strcasecmp0 cmd ''DISABLE-APP'' then Some (process_disable (cfg_env E) now filename M ptr)
      else if strcasecmp0 cmd ''STOP-APP'' then Some (process_stop (cfg_env E) now filename M ptr)
      else if strcasecmp0 cmd ''REMOVE-APP'' then Some (process_remove (cfg_env E) now filename M ptr)
      else None)"

text \<open>
  The page command on a whole domain: the fields are completed with the route of each node of
  the domain in turn; the last error is the one reported. Without a \<open>Domain\<close> parameter the
  comparison reads a null pointer.
\<close>

fun domain_loop ::
  "henv \<Rightarrow> apr_time \<Rightarrow> string \<Rightarrow> string \<Rightarrow> string list \<Rightarrow> string option \<Rightarrow> int list \<Rightarrow> manager \<times> string outcome
     \<Rightarrow> manager \<times> string outcome" where
  "domain_loop E now filename cmd base domain [] (M, res) = (M, res)"
| "domain_loop E now filename cmd base domain (i # is) (M, res) =
     (if get_node (st_node (env_storage E)) (nodestatsmem M) i \<noteq> APR_SUCCESS
      then domain_loop E now filename cmd base domain is (M, res)
      else (case domain of
              None \<Rightarrow> (M, Undefined)
            | Some d \<Rightarrow>
                let ou = mess (slot (nodestatsmem M) i) in
                if Domain ou \<noteq> d then domain_loop E now filename cmd base domain is (M, res)
                else (case process_appl E now filename cmd M (base @ [''JVMRoute'', JVMRoute ou]) of
                        None \<Rightarrow> domain_loop E now filename cmd base domain is (M, res)
                      | Some (M', Undefined) \<Rightarrow> (M', Undefined)
                      | Some (M', res') \<Rightarrow> domain_loop E now filename cmd base domain is (M', res'))))"

definition process_domain ::
  "henv \<Rightarrow> apr_time \<Rightarrow> string \<Rightarrow> string \<Rightarrow> string option \<Rightarrow> manager \<Rightarrow> string list \<Rightarrow> manager \<times> string outcome" where
  "process_domain E now filename cmd domain M ptr =
     (if loc_get_max_size_node (env_storage E) M = 0 then (M, Value [])
      else domain_loop E now filename cmd (take (2 * (length ptr div 2)) ptr) domain
             (get_ids_used_node (st_node (env_storage E)) (nodestatsmem M)) (M, Value []))"

text \<open>The error answer: the headers \<open>Version\<close>, \<open>Type\<close> and \<open>Mess\<close>.\<close>

definition process_error :: "string \<Rightarrow> int \<Rightarrow> (string \<times> string) list" where
  "process_error errstring errtype =
     [(''Version'', VERSION_PROTOCOL),
      (''Type'', if errtype = TYPESYNTAX then ''SYNTAX'' else if errtype = TYPEMEM then ''MEM'' else ''GENERAL''),
      (''Mess'', errstring)]"

section \<open>The handler\<close>

text \<open>The size of the message buffer. The products are unsigned 32-bit numbers in the source
  (\<open>HOSTALIASZ\<close> is 255, \<open>CONTEXTSZ\<close> is 80); a configured size is at least \<open>MAXMESSSIZE\<close>.\<close>

definition max_message :: "httpd \<Rightarrow> mod_manager_config \<Rightarrow> nat" where
  "max_message H mconf =
     (let n = (if maxmesssize mconf \<noteq> 0 then nat (maxmesssize mconf)
               else 9 + JVMROUTESZ H + unat (maxhost mconf * 255) + 7 + unat (maxcontext mconf * 80) + 8)
      in if n < nat MAXMESSSIZE then nat MAXMESSSIZE else n)"

text \<open>
  The read loop: each element of \<open>chunks\<close> is what one call of \<open>ap_get_brigade\<close> gave, \<open>None\<close> when
  it failed; \<open>apr_brigade_flatten\<close> copies at most \<open>len\<close> bytes of it. At the end of the input a
  call gives nothing.
\<close>

fun read_body :: "nat \<Rightarrow> string option list \<Rightarrow> string \<Rightarrow> string option" where
  "read_body maxbufsiz [] buff = Some buff"
| "read_body maxbufsiz (None # chunks) buff = None"
| "read_body maxbufsiz (Some c # chunks) buff =
     (let got = take (maxbufsiz - length buff) c; buff' = buff @ got in
      if length buff' \<ge> maxbufsiz \<or> got = [] then Some buff' else read_body maxbufsiz chunks buff')"

text \<open>
  \<open>Page\<close> is the HTML status page, with its \<open>Refresh\<close> header, the error text shown on it and
  the error headers; \<open>PageText\<close> is DUMP or INFO asked for on the page; \<open>Crash\<close> is undefined
  behaviour.
\<close>

datatype response =
    Declined | Answer string | ErrorAnswer "(string \<times> string) list" | Status int
  | Page "int option" "string option" "(string \<times> string) list" | PageText "int option" string | Crash

definition run_command :: "henv \<Rightarrow> apr_time \<Rightarrow> request \<Rightarrow> manager \<Rightarrow> string list \<Rightarrow> manager \<times> string outcome" where
  "run_command E now r M ptr =
     (let S = env_storage E; H = env_httpd E in
      if strcasecmp0 (r_method r) ''CONFIG'' then process_config (cfg_env E) now M ptr
      else if strcasecmp0 (r_method r) ''STATUS'' then process_status E M ptr
      else if strcasecmp0 (r_method r) ''DUMP'' then (M, Value (process_dump S H (r_accept r) M))
      else if strcasecmp0 (r_method r) ''INFO'' then (M, Value (process_info S H (env_bals E) (r_accept r) M))
      else if strcasecmp0 (r_method r) ''PING'' then (M, process_ping E M ptr)
      else if strcasecmp0 (r_method r) ''VERSION'' then (M, Value (process_version E (r_accept r)))
      else (case process_appl E now (r_filename r) (r_method r) M ptr of
              Some res \<Rightarrow> res
            | None \<Rightarrow> (M, Failure TYPESYNTAX SCMDUNS)))"

text \<open>
  \<open>buff[bufsiz] = 0\<close> writes behind the buffer when the body filled it; that is \<open>Crash\<close> here, as
  is a command that runs into undefined behaviour. The body is cut at its first NUL.
\<close>

definition mcmp_handler ::
  "henv \<Rightarrow> apr_time \<Rightarrow> mod_manager_config \<Rightarrow> request \<Rightarrow> string option list \<Rightarrow> manager \<Rightarrow> manager \<times> response" where
  "mcmp_handler E now mconf r chunks M =
     (let maxbufsiz = max_message (env_httpd E) mconf in
      case read_body maxbufsiz chunks [] of
        None \<Rightarrow> (M, ErrorAnswer (process_error (''SYNTAX: '' @ r_method r @ '' can'' @ [CHR 0x27] @ ''t read POST data'') TYPESYNTAX))
      | Some buff \<Rightarrow>
          (if length buff \<ge> maxbufsiz then (M, Crash)
           else (case process_buff (truncate_at (CHR 0x00) buff) of
                   None \<Rightarrow> (M, ErrorAnswer (process_error SMESPAR TYPESYNTAX))
                 | Some ptr \<Rightarrow>
                     (case run_command E now r M ptr of
                        (M', Value out) \<Rightarrow> (M', Answer out)
                      | (M', Failure t s) \<Rightarrow> (M', ErrorAnswer (process_error s t))
                      | (M', Undefined) \<Rightarrow> (M', Crash)))))"

section \<open>The status page\<close>

text \<open>
  \<open>unescape\<close> is httpd's \<open>ap_unescape_url\<close> (a status and the text it leaves), \<open>nonce_value\<close> the
  server's nonce. A parameter table replaces the value of a key it already has.
\<close>

abbreviation (input) HTTP_BAD_REQUEST :: int where "HTTP_BAD_REQUEST \<equiv> 400"
abbreviation (input) HTTP_NOT_FOUND :: int where "HTTP_NOT_FOUND \<equiv> 404"

function parse_args ::
  "(string \<Rightarrow> int \<times> string) \<Rightarrow> string \<Rightarrow> (string \<times> string) list \<Rightarrow> int + (string \<times> string) list" where
  "parse_args unescape args params =
     (if args = [] then Inr params
      else (case strchr (CHR ''='') args of
              None \<Rightarrow> Inl HTTP_BAD_REQUEST
            | Some (key, rest) \<Rightarrow>
                (case (case strchr (CHR ''&'') rest of None \<Rightarrow> (rest, []) | Some (v, rest2) \<Rightarrow> (v, rest2)) of
                   (v, rest2) \<Rightarrow>
                     (case unescape v of (access_status, v') \<Rightarrow>
                        if access_status \<noteq> OK \<and> (key \<noteq> ''Context'' \<or> access_status \<noteq> HTTP_NOT_FOUND)
                        then Inl access_status
                        else parse_args unescape rest2 (apr_table_set params key v')))))"
  by pat_completeness auto
termination
  by (relation "measure (\<lambda>(_, args, _). length args)") (auto dest!: strchr_Some split: option.splits)

declare parse_args.simps [simp del]

definition apr_table_get :: "(string \<times> string) list \<Rightarrow> string \<Rightarrow> string option" where
  "apr_table_get t k = map_option snd (find (\<lambda>e. strcasecmp0 (fst e) k) t)"

definition params_ptr :: "(string \<times> string) list \<Rightarrow> string list" where
  "params_ptr params = concat (map (\<lambda>(k, v). [k, v]) params)"

text \<open>
  The result: the \<open>Refresh\<close> header, the command, the error of an application command (shown on
  the page), the error headers and the text of DUMP or INFO. \<open>atol\<close> stops at the limits of a
  64-bit \<open>long\<close>.
\<close>

definition atol :: "string \<Rightarrow> int" where
  "atol s = max (- (2 ^ 63)) (min (2 ^ 63 - 1) (atoi s))"

definition refresh_header :: "(string \<times> string) list \<Rightarrow> int option" where
  "refresh_header params =
     map_option (\<lambda>v. if atol v < 1 then 10 else atol v) (apr_table_get params ''Refresh'')"

record params_result =
  pr_refresh :: "int option"
  pr_cmd :: "string option"
  pr_errstr :: "string option"
  pr_headers :: "(string \<times> string) list"
  pr_text :: string

definition no_params :: "int option \<Rightarrow> params_result" where
  "no_params refresh = \<lparr>pr_refresh = refresh, pr_cmd = None, pr_errstr = None, pr_headers = [], pr_text = []\<rparr>"

definition process_params ::
  "henv \<Rightarrow> apr_time \<Rightarrow> request \<Rightarrow> (string \<times> string) list \<Rightarrow> bool \<Rightarrow> manager \<Rightarrow> manager \<times> params_result outcome" where
  "process_params E now r params allow M =
     (let base = no_params (refresh_header params) in
      case apr_table_get params ''Cmd'' of
        None \<Rightarrow> (M, Value base)
      | Some cmd \<Rightarrow>
          (if strcasecmp0 cmd ''DUMP''
           then (M, Value (base\<lparr>pr_cmd := Some cmd, pr_text := process_dump (env_storage E) (env_httpd E) (r_accept r) M\<rparr>))
           else if strcasecmp0 cmd ''INFO''
           then (M, Value (base\<lparr>pr_cmd := Some cmd,
                    pr_text := process_info (env_storage E) (env_httpd E) (env_bals E) (r_accept r) M\<rparr>))
           else (case apr_table_get params ''Range'' of
                   None \<Rightarrow> (M, Value (base\<lparr>pr_cmd := Some cmd\<rparr>))
                 | Some rng \<Rightarrow>
                     (if \<not> allow then (M, Value (base\<lparr>pr_cmd := Some cmd\<rparr>))
                      else if strcasecmp0 rng ''DOMAIN'' then
                        (case process_domain E now (r_filename r) cmd (apr_table_get params ''Domain'') M (params_ptr params) of
                           (M', Value _) \<Rightarrow> (M', Value (base\<lparr>pr_cmd := Some cmd\<rparr>))
                         | (M', Failure t s) \<Rightarrow> (M', Value (base\<lparr>pr_cmd := Some cmd, pr_headers := process_error s t\<rparr>))
                         | (M', Undefined) \<Rightarrow> (M', Undefined))
                      else (case process_appl E now (r_filename r) cmd M (params_ptr params) of
                              None \<Rightarrow> (M, Value (base\<lparr>pr_cmd := Some cmd, pr_headers := process_error SCMDUNS TYPESYNTAX\<rparr>))
                            | Some (M', Value _) \<Rightarrow> (M', Value (base\<lparr>pr_cmd := Some cmd\<rparr>))
                            | Some (M', Failure t s) \<Rightarrow> (M', Value (base\<lparr>pr_cmd := Some cmd, pr_errstr := Some s\<rparr>))
                            | Some (M', Undefined) \<Rightarrow> (M', Undefined))))))"

definition manager_info ::
  "henv \<Rightarrow> apr_time \<Rightarrow> mod_manager_config \<Rightarrow> (string \<Rightarrow> int \<times> string) \<Rightarrow> string \<Rightarrow> request \<Rightarrow> string option \<Rightarrow> manager
     \<Rightarrow> manager \<times> response" where
  "manager_info E now mconf unescape nonce_value r args M =
     (case args of
        None \<Rightarrow> (M, Page None None [])
      | Some a \<Rightarrow>
          (case parse_args unescape a [] of
             Inl st \<Rightarrow> (M, Status st)
           | Inr params \<Rightarrow>
               (let params' = (if nonce mconf \<noteq> 0 \<and> apr_table_get params ''nonce'' \<noteq> Some nonce_value then [] else params) in
                case process_params E now r params' (allow_cmd mconf \<noteq> 0) M of
                  (M', Value res) \<Rightarrow>
                    (M', if (case pr_cmd res of Some c \<Rightarrow> strcasecmp0 c ''INFO'' \<or> strcasecmp0 c ''DUMP'' | None \<Rightarrow> False)
                         then PageText (pr_refresh res) (pr_text res) else Page (pr_refresh res) (pr_errstr res) (pr_headers res))
                | (M', _) \<Rightarrow> (M', Crash))))"

definition manager_handler ::
  "henv \<Rightarrow> apr_time \<Rightarrow> mod_manager_config \<Rightarrow> (string \<Rightarrow> int \<times> string) \<Rightarrow> string \<Rightarrow> string option \<Rightarrow> string option list
     \<Rightarrow> request \<Rightarrow> manager \<Rightarrow> manager \<times> response" where
  "manager_handler E now mconf unescape nonce_value args chunks r M =
     (if r_handler r = ''mod_cluster-manager'' then
        (if r_method_number r \<noteq> M_GET then (M, Declined)
         else manager_info E now mconf unescape nonce_value r args M)
      else if enable_mcmp_receive mconf = 0 then (M, Declined)
      else if \<not> is_our_method r then (M, Declined)
      else mcmp_handler E now mconf r chunks M)"

section \<open>What the commands keep\<close>

lemma cfg_env_simps [simp]:
  "env_storage (cfg_env E) = env_storage E" "env_httpd (cfg_env E) = env_httpd E" "env_bm (cfg_env E) = env_bm E"
  by (simp_all add: menv.defs)

lemma unlock_lock [simp]: "loc_unlock_nodes (loc_lock_nodes M) = M"
  by (simp add: manager_defs)

lemma process_status_worker_only:
  assumes "bm_ok (env_bm E)"
  shows "worker_only M (fst (process_status E M ptr))"
  using assms balancer_provider.isup_worker
  by (auto simp: process_status_def isnode_up_def bm_ok_def split: outcome.splits option.splits prod.splits)

context manager_storage
begin

lemma process_app_cmd_ok:
  assumes ok: "manager_ok M" and S: "env_storage E = S"
    and p: "process_app_cmd E now filename cmd M ptr = (M', r)"
  shows "manager_ok M'"
  using ok S p
proof (cases rule: process_app_cmd_cases)
  case early
  with ok show ?thesis by simp
next
  case (node route contexts aliases k)
  then show ?thesis using process_node_cmd_ok [of "inc_version_node (loc_lock_nodes M)" k now cmd] ok by simp
next
  case (app route contexts aliases k hm cm updated)
  have "vhosts_ok (nodestatsmem M) hm cm"
    using app_aliases_ok [OF _ app(2,7)] ok by (simp add: manager_ok_vhosts_ok)
  with app ok show ?thesis by (simp add: manager_ok_vhosts_ok)
qed

lemma process_appl_ok:
  assumes "manager_ok M" and "env_storage E = S" and "process_appl E now filename cmd M ptr = Some (M', res)"
  shows "manager_ok M'"
  using assms(3) process_app_cmd_ok [OF assms(1), of "cfg_env E"] assms(2)
  by (auto simp: process_appl_def process_enable_def process_disable_def process_stop_def process_remove_def
      split: if_splits)

lemma run_command_ok:
  assumes "manager_ok M" and "env_storage E = S" and "bm_ok (env_bm E)" and "run_command E now r M ptr = (M', res)"
  shows "manager_ok M'"
proof -
  have "manager_ok (fst (run_command E now r M ptr))"
    using assms(1-3) process_config_ok [of M "cfg_env E" now ptr] process_appl_ok [OF assms(1,2)]
      worker_only_ok [OF assms(1) process_status_worker_only [OF assms(3)]]
    by (auto simp: run_command_def Let_def split: option.splits)
  with assms(4) show ?thesis by simp
qed

lemma domain_loop_ok:
  assumes "manager_ok M" and "env_storage E = S" and "domain_loop E now filename cmd base domain is (M, res) = (M', res')"
  shows "manager_ok M'"
  using assms(1,3)
proof (induction "is" arbitrary: M res domain)
  case (Cons i "is")
  note appl = process_appl_ok [OF Cons.prems(1) assms(2)]
  show ?case
    using Cons.prems
    by (auto simp: Let_def split: option.splits outcome.splits if_splits
        dest!: appl dest: Cons.IH [rotated])
qed simp

lemma process_params_ok:
  assumes "manager_ok M" and "env_storage E = S" and "process_params E now r params allow M = (M', res)"
  shows "manager_ok M'"
  using assms(1,3) process_appl_ok [OF assms(1,2)] domain_loop_ok [OF assms(1,2)]
  by (auto simp: process_params_def process_domain_def Let_def split: option.splits outcome.splits prod.splits if_splits)

end

section \<open>Reading the body\<close>

lemma read_body_take:
  assumes "[] \<notin> set chunks" and "length buff \<le> n"
  shows "read_body n (map Some chunks) buff = Some (take n (buff @ concat chunks))"
  using assms
proof (induction chunks arbitrary: buff)
  case (Cons c cs)
  show ?case
  proof (cases "length (buff @ c) < n")
    case True
    with Cons show ?thesis by (auto simp: Let_def)
  next
    case False
    with Cons.prems show ?thesis by (auto simp: Let_def min_def)
  qed
qed simp

lemma read_body_full:
  assumes "n \<le> length c" shows "read_body n [Some c] [] = Some (take n c)"
  using assms by simp

section \<open>Properties\<close>

definition small_henv :: henv where
  "small_henv = menv.extend small_env (henv.fields 0 ''mod_proxy_cluster/2.0.0.Dev'' [])"

lemma small_henv_ok: "manager_storage (env_storage small_henv)" "bm_ok (env_bm small_henv)"
  using small_env_ok by (simp_all add: small_henv_def menv.defs henv.defs)

text \<open>C14: Whatever request arrives, management command or status page, well formed or not, and
  whatever its outcome, the manager stays consistent.\<close>

theorem manager_handler_invariant:
  assumes "manager_storage (env_storage E)" and "bm_ok (env_bm E)" and "manager_ok M"
  shows "manager_ok (fst (manager_handler E now mconf unescape nonce_value args chunks r M))"
proof -
  have "manager_ok (fst (mcmp_handler E now mconf r chunks M))"
    using assms(3) manager_storage.run_command_ok [OF assms(1,3) refl assms(2)]
    by (auto simp: mcmp_handler_def Let_def split: option.splits outcome.splits prod.splits)
  moreover have "manager_ok (fst (manager_info E now mconf unescape nonce_value r args M))"
    using assms(3) manager_storage.process_params_ok [OF assms(1,3) refl]
    by (auto simp: manager_info_def Let_def split: option.splits outcome.splits prod.splits sum.splits)
  ultimately show ?thesis using assms(3) by (simp add: manager_handler_def)
qed

theorem manager_handler_invariant_witness:
  "manager_ok (fst (manager_handler small_henv 9 create_manager_config (\<lambda>s. (0, s)) [] None [Some ''JVMRoute=n1'']
     \<lparr>r_method = ''CONFIG'', r_method_number = M_INVALID, r_uri = ''/'', r_handler = ''mod-cluster'',
      r_filename = ''/'', r_accept = None\<rparr> small_manager))"
  by (rule manager_handler_invariant [OF small_henv_ok small_manager_ok])

text \<open>C15: The status page is protected against forged requests: with nonce checking on, a page request
  without the server's nonce changes nothing.\<close>

theorem manager_info_nonce:
  assumes "nonce mconf \<noteq> 0"
    and "\<forall>params. parse_args unescape a [] = Inr params \<longrightarrow> apr_table_get params ''nonce'' \<noteq> Some nonce_value"
  shows "fst (manager_info E now mconf unescape nonce_value r (Some a) M) = M"
  using assms
  by (auto simp: manager_info_def process_params_def apr_table_get_def no_params_def Let_def split: sum.splits)

theorem manager_info_nonce_witness:
  "fst (manager_info small_henv 9 create_manager_config (\<lambda>s. (0, s)) ''secret''
     \<lparr>r_method = ''GET'', r_method_number = M_GET, r_uri = ''/'', r_handler = ''mod_cluster-manager'',
      r_filename = ''/'', r_accept = None\<rparr> (Some ''Cmd=REMOVE-APP'') small_manager1) = small_manager1"
  by (rule manager_info_nonce)
    (simp_all add: create_manager_config_def parse_args.simps apr_table_get_def strcasecmp0_def apr_tolower_def apr_isupper_def)

text \<open>A server that has not enabled MCMP declines management messages and keeps its state.\<close>

theorem mcmp_receive_required:
  assumes "enable_mcmp_receive mconf = 0" and "r_handler r \<noteq> ''mod_cluster-manager''"
  shows "manager_handler E now mconf unescape nonce_value args chunks r M = (M, Declined)"
  using assms by (simp add: manager_handler_def)

theorem mcmp_receive_required_witness:
  "manager_handler small_henv 9 create_manager_config (\<lambda>s. (0, s)) [] None [Some ''JVMRoute=n1'']
     \<lparr>r_method = ''CONFIG'', r_method_number = M_INVALID, r_uri = ''/'', r_handler = ''mod-cluster'',
      r_filename = ''/'', r_accept = None\<rparr> small_manager = (small_manager, Declined)"
  by (rule mcmp_receive_required) (simp_all add: create_manager_config_def)

text \<open>C16: A body that arrives in non-empty pieces, however it is cut, is handed to the command as one
  text: the whole body when it fits, and never more than the buffer holds.\<close>

theorem read_body_correct:
  assumes "[] \<notin> set chunks"
  shows "read_body n (map Some chunks) [] = Some (take n (concat chunks))"
  using read_body_take [OF assms, of "[]" n] by simp

theorem read_body_correct_witness: "read_body 1024 [Some ''JVM'', Some ''Route=n1''] [] = Some ''JVMRoute=n1''"
  using read_body_correct [of "[''JVM'', ''Route=n1'']" 1024] by simp



end
