(* ===== verification/Table_Copies.thy ===== *)
theory Table_Copies
  imports App_Command
begin

text \<open>
  Local copies of the shared tables, \<open>common/common.c\<close>: a request, or the watchdog of a child
  process, works on a copy of the virtual hosts, contexts, balancers and nodes
  (\<open>proxy_vhost_table\<close>, \<open>proxy_context_table\<close>, \<open>proxy_balancer_table\<close>, \<open>proxy_node_table\<close>). A
  cached copy is allocated once and filled again and again, so its arrays have a capacity;
  a write behind it, or a read of a row that is not there, is \<open>None\<close>.
\<close>

section \<open>Data\<close>

text \<open>\<open>tc_ids\<close> and \<open>tc_info\<close> are the two arrays of a copy, \<open>cap_*\<close> the elements allocated for them.\<close>

record 'a table_copy =
  tc_ids :: "int list"
  tc_info :: "'a list"
  cap_ids :: nat
  cap_info :: nat

type_synonym proxy_vhost_table = "hostinfo table_copy"
type_synonym proxy_context_table = "contextinfo table_copy"
type_synonym proxy_balancer_table = "balancerinfo table_copy"

text \<open>\<open>ptr_node\<close> holds the address of each node in shared memory, which is its slot, or NULL.\<close>

record proxy_node_table = "nodeinfo table_copy" +
  ptr_node :: "int option list"

definition no_copy :: "'a table_copy" where
  "no_copy = \<lparr>tc_ids = [], tc_info = [], cap_ids = 0, cap_info = 0\<rparr>"

section \<open>Filling a copy\<close>

fun read_rows :: "(int \<Rightarrow> apr_status) \<Rightarrow> (int \<Rightarrow> 'a) \<Rightarrow> int list \<Rightarrow> 'a list option" where
  "read_rows rd row [] = Some []"
| "read_rows rd row (i # is) =
     (if rd i \<noteq> APR_SUCCESS then None else map_option ((#) (row i)) (read_rows rd row is))"

definition fill_copy ::
  "nat \<Rightarrow> int list \<Rightarrow> (int \<Rightarrow> apr_status) \<Rightarrow> (int \<Rightarrow> 'a) \<Rightarrow> 'a table_copy \<Rightarrow> 'a table_copy option" where
  "fill_copy n ids rd row t =
     (if n = 0 then Some no_copy
      else if cap_ids t < length ids \<or> cap_info t < length ids then None
      else map_option (\<lambda>xs. t\<lparr>tc_ids := ids, tc_info := xs\<rparr>) (read_rows rd row ids))"

definition new_copy :: "nat \<Rightarrow> int list \<Rightarrow> bool \<Rightarrow> 'a table_copy" where
  "new_copy n ids for_cache =
     (if n > 0
      then \<lparr>tc_ids = ids, tc_info = [], cap_ids = n, cap_info = (if for_cache then n else length ids)\<rparr>
      else no_copy)"

definition update_vhost_table_cached ::
  "storage \<Rightarrow> manager \<Rightarrow> proxy_vhost_table \<Rightarrow> proxy_vhost_table option" where
  "update_vhost_table_cached S M t =
     fill_copy (loc_get_max_size_host S M) (loc_get_ids_used_host S M) (mgr_read_host S M) (slot (hoststatsmem M)) t"

definition read_vhost_table :: "storage \<Rightarrow> manager \<Rightarrow> bool \<Rightarrow> proxy_vhost_table option" where
  "read_vhost_table S M for_cache =
     update_vhost_table_cached S M (new_copy (loc_get_max_size_host S M) (loc_get_ids_used_host S M) for_cache)"

definition update_context_table_cached ::
  "storage \<Rightarrow> manager \<Rightarrow> proxy_context_table \<Rightarrow> proxy_context_table option" where
  "update_context_table_cached S M t =
     fill_copy (loc_get_max_size_context S M) (loc_get_ids_used_context S M) (mgr_read_context S M)
       (slot (contextstatsmem M)) t"

definition read_context_table :: "storage \<Rightarrow> manager \<Rightarrow> bool \<Rightarrow> proxy_context_table option" where
  "read_context_table S M for_cache =
     update_context_table_cached S M (new_copy (loc_get_max_size_context S M) (loc_get_ids_used_context S M) for_cache)"

definition update_balancer_table_cached ::
  "storage \<Rightarrow> manager \<Rightarrow> proxy_balancer_table \<Rightarrow> proxy_balancer_table option" where
  "update_balancer_table_cached S M t =
     fill_copy (loc_get_max_size_balancer S M) (loc_get_ids_used_balancer S M) (mgr_read_balancer S M)
       (slot (balancerstatsmem M)) t"

definition read_balancer_table :: "storage \<Rightarrow> manager \<Rightarrow> bool \<Rightarrow> proxy_balancer_table option" where
  "read_balancer_table S M for_cache =
     update_balancer_table_cached S M
       (new_copy (loc_get_max_size_balancer S M) (loc_get_ids_used_balancer S M) for_cache)"

text \<open>A node that cannot be read leaves a blank record and a NULL address.\<close>

definition update_node_table_cached :: "storage \<Rightarrow> manager \<Rightarrow> proxy_node_table \<Rightarrow> proxy_node_table option" where
  "update_node_table_cached S M t =
     (if loc_get_max_size_node S M = 0
      then Some (t\<lparr>tc_ids := [], tc_info := [], cap_ids := 0, cap_info := 0\<rparr>)
      else
        let ids = loc_get_ids_used_node S M in
        if cap_ids t < length ids \<or> cap_info t < length ids then None
        else Some (t\<lparr>tc_ids := ids,
               tc_info := map (\<lambda>i. if mgr_read_node S M i = APR_SUCCESS then slot (nodestatsmem M) i else zero_node) ids,
               ptr_node := map (\<lambda>i. if mgr_read_node S M i = APR_SUCCESS then Some i else None) ids\<rparr>))"

definition read_node_table :: "storage \<Rightarrow> manager \<Rightarrow> bool \<Rightarrow> proxy_node_table option" where
  "read_node_table S M for_cache =
     update_node_table_cached S M
       (table_copy.extend (new_copy (loc_get_max_size_node S M) (loc_get_ids_used_node S M) for_cache)
          \<lparr>ptr_node = []\<rparr>)"

section \<open>Looking up a copy\<close>

definition table_get_node :: "proxy_node_table \<Rightarrow> int \<Rightarrow> nodeinfo option" where
  "table_get_node t i = map_option snd (find (\<lambda>(k, x). k = i) (zip (tc_ids t) (tc_info t)))"

definition table_get_node_route :: "proxy_node_table \<Rightarrow> string \<Rightarrow> (int \<times> nodeinfo) option" where
  "table_get_node_route t route = find (\<lambda>(k, x). JVMRoute (mess x) = route) (zip (tc_ids t) (tc_info t))"

section \<open>Copies are exact\<close>

text \<open>
  What a copy relies on, for one table: the numbers the table reports are readable, and they
  are not more than its slots.
\<close>

locale readable_table =
  fixes n :: nat and ids :: "int list" and rd :: "int \<Rightarrow> apr_status" and row :: "int \<Rightarrow> 'a"
  assumes ids_readable: "i \<in> set ids \<Longrightarrow> rd i = APR_SUCCESS"
    and ids_fit: "length ids \<le> n"
begin

lemma read_rows_subset: "set is \<subseteq> set ids \<Longrightarrow> read_rows rd row is = Some (map row is)"
  by (induction "is") (simp_all add: ids_readable)

lemma fill_copy_fits:
  assumes "length ids \<le> cap_ids t" and "length ids \<le> cap_info t"
  shows "fill_copy n ids rd row t = Some (if n = 0 then no_copy else t\<lparr>tc_ids := ids, tc_info := map row ids\<rparr>)"
  using assms by (simp add: fill_copy_def read_rows_subset)

lemma fill_new_copy:
  "fill_copy n ids rd row (new_copy n ids for_cache) =
     Some ((new_copy n ids for_cache)\<lparr>tc_ids := ids, tc_info := map row ids\<rparr>)"
proof (cases "n = 0")
  case True
  with ids_fit show ?thesis by (simp add: fill_copy_def new_copy_def no_copy_def)
next
  case False
  with ids_fit show ?thesis by (simp add: fill_copy_fits new_copy_def)
qed

lemma refill:
  assumes "cap_ids t = n" and "cap_info t = n"
  shows "fill_copy n ids rd row t = fill_copy n ids rd row (new_copy n ids True)"
  using assms ids_fit by (cases t; cases "n = 0") (simp_all add: fill_copy_fits new_copy_def fill_copy_def)

end

locale consistent_manager = manager_storage S for S +
  fixes M :: manager
  assumes consistent: "manager_ok M"
begin

lemma hosts_table: "table_ok h_id host_key (hoststatsmem M)"
  and contexts_table: "table_ok c_id context_key (contextstatsmem M)"
  and balancers_table: "table_ok b_id balancer_key (balancerstatsmem M)"
  and nodes_table: "nodes_ok (nodestatsmem M)"
  using consistent by (simp_all add: manager_ok_def tables_ok_def)

lemma host_ids: "loc_get_ids_used_host S M = map int (used_slots (hoststatsmem M))"
  by (simp add: manager_defs hosts_eq [OF hosts_table])

lemma context_ids: "loc_get_ids_used_context S M = map int (used_slots (contextstatsmem M))"
  by (simp add: manager_defs contexts_eq [OF contexts_table])

lemma balancer_ids: "loc_get_ids_used_balancer S M = map int (used_slots (balancerstatsmem M))"
  by (simp add: manager_defs get_ids_used_balancer_eq [OF sb.slotmem_provider_axioms balancers_table])

lemma node_ids: "loc_get_ids_used_node S M = map int (used_slots (nodestatsmem M))"
  using nodes_table
  by (auto simp: manager_defs get_ids_used_node_def sn.get_ids_used_eq nodes_ok_def ids_ok_def set_used_slots)

lemma used_slots_bound: "wf_slotmem m \<Longrightarrow> length (used_slots m) \<le> length (items m)"
  by (simp add: used_slots_def wf_slotmem_def, metis diff_zero length_filter_le length_upt)

lemma used_slots_used: "wf_slotmem m \<Longrightarrow> i \<in> set (used_slots m) \<Longrightarrow> used m (int i)"
  by (simp add: used_iff_slots)

end

sublocale consistent_manager \<subseteq> vhost_rows: readable_table
  "loc_get_max_size_host S M" "loc_get_ids_used_host S M" "mgr_read_host S M" "slot (hoststatsmem M)"
  using used_slots_bound [of "hoststatsmem M"] hosts_table
  by unfold_locales
    (auto simp: host_ids mgr_read_host_def get_host_def loc_get_max_size_host_def get_max_size_host_def table_ok_def
      sh.num_slots_length intro!: sh.dptr_used used_slots_used)

sublocale consistent_manager \<subseteq> context_rows: readable_table
  "loc_get_max_size_context S M" "loc_get_ids_used_context S M" "mgr_read_context S M" "slot (contextstatsmem M)"
  using used_slots_bound [of "contextstatsmem M"] contexts_table
  by unfold_locales
    (auto simp: context_ids mgr_read_context_def get_context_def loc_get_max_size_context_def get_max_size_context_def
      table_ok_def sc.num_slots_length intro!: sc.dptr_used used_slots_used)

sublocale consistent_manager \<subseteq> balancer_rows: readable_table
  "loc_get_max_size_balancer S M" "loc_get_ids_used_balancer S M" "mgr_read_balancer S M" "slot (balancerstatsmem M)"
  using used_slots_bound [of "balancerstatsmem M"] balancers_table
  by unfold_locales
    (auto simp: balancer_ids mgr_read_balancer_def get_balancer_def loc_get_max_size_balancer_def
      get_max_size_balancer_def table_ok_def sb.num_slots_length intro!: sb.dptr_used used_slots_used)

sublocale consistent_manager \<subseteq> node_rows: readable_table
  "loc_get_max_size_node S M" "loc_get_ids_used_node S M" "mgr_read_node S M" "slot (nodestatsmem M)"
  using used_slots_bound [of "nodestatsmem M"] nodes_table
  by unfold_locales
    (auto simp: node_ids mgr_read_node_def get_node_def loc_get_max_size_node_def get_max_size_node_def nodes_ok_def
      sn.num_slots_length intro!: sn.dptr_used used_slots_used)

context consistent_manager
begin

lemma max_size_node: "loc_get_max_size_node S M = length (items (nodestatsmem M))"
  using nodes_table
  by (simp add: loc_get_max_size_node_def get_max_size_node_def nodes_ok_def sn.num_slots_length)

lemma rows_items: "map (slot m) (map int is) = map ((!) (items m)) is"
  by (simp add: slot_def)

lemma vhost_snapshot:
  "\<exists>t. read_vhost_table S M c = Some t \<and> tc_ids t = map int (used_slots (hoststatsmem M)) \<and>
     tc_info t = map ((!) (items (hoststatsmem M))) (used_slots (hoststatsmem M))"
  unfolding read_vhost_table_def update_vhost_table_cached_def vhost_rows.fill_new_copy
  by (simp add: host_ids slot_def)

lemma context_snapshot:
  "\<exists>t. read_context_table S M c = Some t \<and> tc_ids t = map int (used_slots (contextstatsmem M)) \<and>
     tc_info t = map ((!) (items (contextstatsmem M))) (used_slots (contextstatsmem M))"
  unfolding read_context_table_def update_context_table_cached_def context_rows.fill_new_copy
  by (simp add: context_ids slot_def)

lemma balancer_snapshot:
  "\<exists>t. read_balancer_table S M c = Some t \<and> tc_ids t = map int (used_slots (balancerstatsmem M)) \<and>
     tc_info t = map ((!) (items (balancerstatsmem M))) (used_slots (balancerstatsmem M))"
  unfolding read_balancer_table_def update_balancer_table_cached_def balancer_rows.fill_new_copy
  by (simp add: balancer_ids slot_def)

lemma node_copy:
  assumes "length (loc_get_ids_used_node S M) \<le> cap_ids t" and "length (loc_get_ids_used_node S M) \<le> cap_info t"
  shows "\<exists>t'. update_node_table_cached S M t = Some t' \<and> tc_ids t' = map int (used_slots (nodestatsmem M)) \<and>
     tc_info t' = map ((!) (items (nodestatsmem M))) (used_slots (nodestatsmem M)) \<and>
     (loc_get_max_size_node S M \<noteq> 0 \<longrightarrow> cap_ids t' = cap_ids t \<and> cap_info t' = cap_info t \<and>
        ptr_node t' = map (Some \<circ> int) (used_slots (nodestatsmem M)))"
proof (cases "loc_get_max_size_node S M = 0")
  case True
  with node_rows.ids_fit show ?thesis by (simp add: update_node_table_cached_def node_ids)
next
  case False
  with assms show ?thesis
    using node_rows.ids_readable
    by (simp add: update_node_table_cached_def Let_def node_ids slot_def)
qed

lemma node_snapshot:
  "\<exists>t. read_node_table S M c = Some t \<and> tc_ids t = map int (used_slots (nodestatsmem M)) \<and>
     tc_info t = map ((!) (items (nodestatsmem M))) (used_slots (nodestatsmem M))"
  using node_copy [of "table_copy.extend (new_copy (loc_get_max_size_node S M) (loc_get_ids_used_node S M) c)
      \<lparr>ptr_node = []\<rparr>"] node_rows.ids_fit
  by (auto simp: read_node_table_def new_copy_def no_copy_def table_copy.defs)

lemma find_copy:
  "distinct is \<Longrightarrow> find (\<lambda>(k, x). k = i) (zip (map int is) (map f is)) =
     (if 0 \<le> i \<and> nat i \<in> set is then Some (i, f (nat i)) else None)"
  by (induction "is") auto

lemma table_get_node_exact:
  assumes "read_node_table S M c = Some t"
  shows "table_get_node t i = (if used (nodestatsmem M) i then Some (slot (nodestatsmem M) i) else None)"
proof -
  have "tc_ids t = map int (used_slots (nodestatsmem M))"
    and "tc_info t = map ((!) (items (nodestatsmem M))) (used_slots (nodestatsmem M))"
    using node_snapshot [of c] assms by auto
  moreover have "used (nodestatsmem M) i \<longleftrightarrow> 0 \<le> i \<and> nat i \<in> set (used_slots (nodestatsmem M))"
    using nodes_table by (simp add: used_iff_slots nodes_ok_def)
  ultimately show ?thesis by (simp add: table_get_node_def find_copy slot_def)
qed

lemma vhost_refresh:
  assumes "loc_get_max_size_host S M = n" and "cap_ids t = n" and "cap_info t = n"
  shows "update_vhost_table_cached S M t = read_vhost_table S M True \<and>
     (\<exists>t'. read_vhost_table S M True = Some t' \<and> cap_ids t' = n \<and>
        cap_info t' = n)"
  unfolding read_vhost_table_def update_vhost_table_cached_def vhost_rows.refill [OF assms(2,3) [folded assms(1)]] vhost_rows.fill_new_copy
  using assms(1) by (simp add: new_copy_def no_copy_def)

lemma context_refresh:
  assumes "loc_get_max_size_context S M = n" and "cap_ids t = n" and "cap_info t = n"
  shows "update_context_table_cached S M t = read_context_table S M True \<and>
     (\<exists>t'. read_context_table S M True = Some t' \<and> cap_ids t' = n \<and>
        cap_info t' = n)"
  unfolding read_context_table_def update_context_table_cached_def context_rows.refill [OF assms(2,3) [folded assms(1)]]
    context_rows.fill_new_copy
  using assms(1) by (simp add: new_copy_def no_copy_def)

lemma balancer_refresh:
  assumes "loc_get_max_size_balancer S M = n" and "cap_ids t = n" and "cap_info t = n"
  shows "update_balancer_table_cached S M t = read_balancer_table S M True \<and>
     (\<exists>t'. read_balancer_table S M True = Some t' \<and> cap_ids t' = n \<and>
        cap_info t' = n)"
  unfolding read_balancer_table_def update_balancer_table_cached_def balancer_rows.refill [OF assms(2,3) [folded assms(1)]]
    balancer_rows.fill_new_copy
  using assms(1) by (simp add: new_copy_def no_copy_def)

lemma node_refresh:
  assumes "loc_get_max_size_node S M = n" and "cap_ids t = n" and "cap_info t = n"
    and "n = 0 \<longrightarrow> ptr_node t = []"
  shows "update_node_table_cached S M t = read_node_table S M True \<and>
     (\<exists>t'. read_node_table S M True = Some t' \<and> cap_ids t' = n \<and>
        cap_info t' = n \<and> (n = 0 \<longrightarrow> ptr_node t' = []))"
  using assms node_rows.ids_fit
  by (cases t; cases "loc_get_max_size_node S M = 0")
    (simp_all add: read_node_table_def update_node_table_cached_def new_copy_def no_copy_def table_copy.defs Let_def)

end

text \<open>A table that is only ever refilled stays what a fresh copy would be.\<close>

lemma fold_refresh:
  assumes "\<And>M t. M \<in> set Ms \<Longrightarrow> good t \<Longrightarrow> upd M t = rd M \<and> (\<exists>t'. rd M = Some t' \<and> good t')"
    and "rd N = Some first" and "good first"
  shows "fold (\<lambda>M t. Option.bind t (upd M)) Ms (rd N) = rd (last (N # Ms))"
  using assms
proof (induction Ms arbitrary: N first)
  case (Cons M Ms)
  then obtain t where "upd M first = rd M" "rd M = Some t" "good t"
    by (metis list.set_intros(1))
  with Cons.IH [of M t] Cons.prems show ?case by auto
qed simp

interpretation small1: consistent_manager shm_storage small_manager1
  by unfold_locales (rule small_manager1_ok)

section \<open>Properties\<close>

text \<open>C18: A copy of the shared tables is exact: it lists the records in use, in slot order, and nothing
  else, and looking up a node in its copy gives the node in shared memory.\<close>

theorem table_copies_exact:
  assumes "manager_storage S" and "manager_ok M"
  shows "\<exists>v c b n. read_vhost_table S M k = Some v \<and> read_context_table S M k = Some c \<and>
     read_balancer_table S M k = Some b \<and> read_node_table S M k = Some n \<and>
     tc_info v = map ((!) (items (hoststatsmem M))) (used_slots (hoststatsmem M)) \<and>
     tc_info c = map ((!) (items (contextstatsmem M))) (used_slots (contextstatsmem M)) \<and>
     tc_info b = map ((!) (items (balancerstatsmem M))) (used_slots (balancerstatsmem M)) \<and>
     tc_info n = map ((!) (items (nodestatsmem M))) (used_slots (nodestatsmem M)) \<and>
     (\<forall>i. table_get_node n i = (if used (nodestatsmem M) i then Some (slot (nodestatsmem M) i) else None))"
proof -
  have cm: "consistent_manager S M"
    using assms by (simp add: consistent_manager_def consistent_manager_axioms_def)
  show ?thesis
    using consistent_manager.vhost_snapshot [OF cm, of k] consistent_manager.context_snapshot [OF cm, of k]
      consistent_manager.balancer_snapshot [OF cm, of k] consistent_manager.node_snapshot [OF cm, of k]
      consistent_manager.table_get_node_exact [OF cm, of k]
    by fastforce
qed

theorem table_copies_exact_witness:
  "\<exists>v c b n. read_vhost_table shm_storage small_manager1 True = Some v \<and>
     read_context_table shm_storage small_manager1 True = Some c \<and>
     read_balancer_table shm_storage small_manager1 True = Some b \<and>
     read_node_table shm_storage small_manager1 True = Some n \<and>
     tc_info v = map ((!) (items (hoststatsmem small_manager1))) (used_slots (hoststatsmem small_manager1)) \<and>
     table_get_node n 0 = Some (slot (nodestatsmem small_manager1) 0)"
proof -
  have "used (nodestatsmem small_manager1) 0"
    by (simp add: small_manager1_def used_def in_range_def)
  then show ?thesis
    using table_copies_exact [OF shm_mgr.manager_storage_axioms small_manager1_ok, of True] by auto
qed

lemma vhost_cached_fold:
  assumes cm: "\<And>M. M \<in> set (M0 # Ms) \<Longrightarrow> consistent_manager S M"
    and size: "\<forall>M \<in> set Ms. loc_get_max_size_host S M = loc_get_max_size_host S M0"
  shows "fold (\<lambda>M t. Option.bind t (update_vhost_table_cached S M)) Ms (read_vhost_table S M0 True) =
    read_vhost_table S (last (M0 # Ms)) True"
proof -
  have "consistent_manager S M0" using cm by simp
  then obtain x where x: "read_vhost_table S M0 True = Some x"
      "cap_ids x = loc_get_max_size_host S M0" "cap_info x = loc_get_max_size_host S M0"
    using consistent_manager.vhost_refresh [OF _ refl, of S M0 "\<lparr>tc_ids = [], tc_info = [],
        cap_ids = loc_get_max_size_host S M0, cap_info = loc_get_max_size_host S M0\<rparr>"] by auto
  show ?thesis using size x
    by (intro fold_refresh [where good = "\<lambda>t. cap_ids t = loc_get_max_size_host S M0 \<and>
        cap_info t = loc_get_max_size_host S M0" and first = x])
      (simp_all add: consistent_manager.vhost_refresh [OF cm, of _ "loc_get_max_size_host S M0"])
qed

lemma context_cached_fold:
  assumes cm: "\<And>M. M \<in> set (M0 # Ms) \<Longrightarrow> consistent_manager S M"
    and size: "\<forall>M \<in> set Ms. loc_get_max_size_context S M = loc_get_max_size_context S M0"
  shows "fold (\<lambda>M t. Option.bind t (update_context_table_cached S M)) Ms (read_context_table S M0 True) =
    read_context_table S (last (M0 # Ms)) True"
proof -
  have "consistent_manager S M0" using cm by simp
  then obtain x where x: "read_context_table S M0 True = Some x"
      "cap_ids x = loc_get_max_size_context S M0" "cap_info x = loc_get_max_size_context S M0"
    using consistent_manager.context_refresh [OF _ refl, of S M0 "\<lparr>tc_ids = [], tc_info = [],
        cap_ids = loc_get_max_size_context S M0, cap_info = loc_get_max_size_context S M0\<rparr>"] by auto
  show ?thesis using size x
    by (intro fold_refresh [where good = "\<lambda>t. cap_ids t = loc_get_max_size_context S M0 \<and>
        cap_info t = loc_get_max_size_context S M0" and first = x])
      (simp_all add: consistent_manager.context_refresh [OF cm, of _ "loc_get_max_size_context S M0"])
qed

lemma balancer_cached_fold:
  assumes cm: "\<And>M. M \<in> set (M0 # Ms) \<Longrightarrow> consistent_manager S M"
    and size: "\<forall>M \<in> set Ms. loc_get_max_size_balancer S M = loc_get_max_size_balancer S M0"
  shows "fold (\<lambda>M t. Option.bind t (update_balancer_table_cached S M)) Ms (read_balancer_table S M0 True) =
    read_balancer_table S (last (M0 # Ms)) True"
proof -
  have "consistent_manager S M0" using cm by simp
  then obtain x where x: "read_balancer_table S M0 True = Some x"
      "cap_ids x = loc_get_max_size_balancer S M0" "cap_info x = loc_get_max_size_balancer S M0"
    using consistent_manager.balancer_refresh [OF _ refl, of S M0 "\<lparr>tc_ids = [], tc_info = [],
        cap_ids = loc_get_max_size_balancer S M0, cap_info = loc_get_max_size_balancer S M0\<rparr>"] by auto
  show ?thesis using size x
    by (intro fold_refresh [where good = "\<lambda>t. cap_ids t = loc_get_max_size_balancer S M0 \<and>
        cap_info t = loc_get_max_size_balancer S M0" and first = x])
      (simp_all add: consistent_manager.balancer_refresh [OF cm, of _ "loc_get_max_size_balancer S M0"])
qed

lemma node_cached_fold:
  assumes cm: "\<And>M. M \<in> set (M0 # Ms) \<Longrightarrow> consistent_manager S M"
    and size: "\<forall>M \<in> set Ms. loc_get_max_size_node S M = loc_get_max_size_node S M0"
  shows "fold (\<lambda>M t. Option.bind t (update_node_table_cached S M)) Ms (read_node_table S M0 True) =
    read_node_table S (last (M0 # Ms)) True"
proof -
  have "consistent_manager S M0" using cm by simp
  then obtain x where x: "read_node_table S M0 True = Some x"
      "cap_ids x = loc_get_max_size_node S M0" "cap_info x = loc_get_max_size_node S M0"
      "loc_get_max_size_node S M0 = 0 \<longrightarrow> ptr_node x = []"
    using consistent_manager.node_refresh [OF _ refl, of S M0 "\<lparr>tc_ids = [], tc_info = [],
        cap_ids = loc_get_max_size_node S M0, cap_info = loc_get_max_size_node S M0, ptr_node = []\<rparr>"] by auto
  show ?thesis using size x
    by (intro fold_refresh [where good = "\<lambda>t. cap_ids t = loc_get_max_size_node S M0 \<and>
        cap_info t = loc_get_max_size_node S M0 \<and> (loc_get_max_size_node S M0 = 0 \<longrightarrow> ptr_node t = [])" and first = x])
      (simp_all add: consistent_manager.node_refresh [OF cm, of _ "loc_get_max_size_node S M0"])
qed

text \<open>C19: The copies a child process caches (\<open>CacheShareFor\<close>) can be refilled for ever: through any
  sequence of consistent states with the same number of slots no refill leaves the memory allocated
  once, and after it the cache equals a fresh copy.\<close>

theorem cached_copies_fit:
  assumes "manager_storage S" and "\<forall>M \<in> set (M0 # Ms). manager_ok M"
    and "\<forall>M \<in> set Ms. loc_get_max_size_host S M = loc_get_max_size_host S M0 \<and>
           loc_get_max_size_context S M = loc_get_max_size_context S M0 \<and>
           loc_get_max_size_balancer S M = loc_get_max_size_balancer S M0 \<and>
           loc_get_max_size_node S M = loc_get_max_size_node S M0"
  shows "fold (\<lambda>M t. Option.bind t (update_vhost_table_cached S M)) Ms (read_vhost_table S M0 True) =
           read_vhost_table S (last (M0 # Ms)) True \<and>
         fold (\<lambda>M t. Option.bind t (update_context_table_cached S M)) Ms (read_context_table S M0 True) =
           read_context_table S (last (M0 # Ms)) True \<and>
         fold (\<lambda>M t. Option.bind t (update_balancer_table_cached S M)) Ms (read_balancer_table S M0 True) =
           read_balancer_table S (last (M0 # Ms)) True \<and>
         fold (\<lambda>M t. Option.bind t (update_node_table_cached S M)) Ms (read_node_table S M0 True) =
           read_node_table S (last (M0 # Ms)) True \<and>
         read_node_table S (last (M0 # Ms)) True \<noteq> None"
proof -
  have cm: "consistent_manager S M" if "M \<in> set (M0 # Ms)" for M
    using assms(1,2) that by (auto simp: consistent_manager_def consistent_manager_axioms_def)
  have "read_node_table S (last (M0 # Ms)) True \<noteq> None"
    using consistent_manager.node_snapshot [OF cm [of "last (M0 # Ms)"], of True] by auto
  then show ?thesis
    using assms(3) vhost_cached_fold [OF cm] context_cached_fold [OF cm] balancer_cached_fold [OF cm] node_cached_fold [OF cm]
    by blast
qed

theorem cached_copies_fit_witness:
  "fold (\<lambda>M t. Option.bind t (update_vhost_table_cached shm_storage M)) [small_manager1, small_manager]
     (read_vhost_table shm_storage small_manager True) = read_vhost_table shm_storage small_manager True"
proof -
  have "loc_get_max_size_host shm_storage small_manager1 = loc_get_max_size_host shm_storage small_manager"
    "loc_get_max_size_context shm_storage small_manager1 = loc_get_max_size_context shm_storage small_manager"
    "loc_get_max_size_balancer shm_storage small_manager1 = loc_get_max_size_balancer shm_storage small_manager"
    "loc_get_max_size_node shm_storage small_manager1 = loc_get_max_size_node shm_storage small_manager"
    by code_simp+
  then show ?thesis
    using cached_copies_fit [OF shm_mgr.manager_storage_axioms, of small_manager "[small_manager1, small_manager]"]
      small_manager_ok small_manager1_ok by simp
qed

end
