(* ===== verification/Session_Id.thy ===== *)
theory Session_Id
  imports Table_Copies
begin

text \<open>
  Session identifiers in requests, \<open>common/common.c\<close>: the session cookie
  (\<open>get_cookie_param\<close>), the session parameter of a path (\<open>get_path_param\<close>), the search in both
  (\<open>cluster_get_sessionid\<close>) and the test for a session of a node's balancer
  (\<open>hassession_byname\<close>); and the parameters of \<open>ModProxyClusterHCTemplate\<close>. The two scans walk
  over C strings with pointers that may step behind the terminating NUL or before the string;
  such a read is \<open>Undefined\<close>.
\<close>

section \<open>Requests and balancers as the proxy side sees them\<close>

text \<open>
  Of httpd's \<open>request_rec\<close>: the fields, the headers, the notes and the environment variables the
  sources read or write. \<open>q_server_name\<close> is \<open>ap_get_server_name\<close>. A \<open>node_context\<close> array, ended by
  the node -1, is a list.
\<close>

type_synonym node_context = "int \<times> int"

record preq =
  q_uri :: string
  q_unparsed_uri :: string
  q_filename :: "string option"
  q_cookie :: "string option"
  q_set_cookie :: "string option"
  q_server_name :: string
  q_handler :: "string option"
  q_proxyreq :: int
  q_status :: int
  q_args :: "string option"
  q_path_info :: "string option"
  nt_proxy_context :: "node_context list option"
  nt_session_id :: "string option"
  nt_session_route :: "string option"
  nt_session_sticky :: "string option"
  nt_cluster_domain :: "string option"
  nt_session_domain_ok :: bool
  nt_no_context_error :: bool
  nt_nocanon :: bool
  ev_session_route :: "string option"
  ev_session_sticky :: "string option"
  ev_context_id :: "string option"
  ev_route_changed :: bool
  ev_balancer_name :: "string option"
  ev_worker_name :: "string option"
  ev_worker_route :: "string option"

text \<open>Of httpd's \<open>proxy_balancer_shared\<close>: what the sources use.\<close>

record balancer_shared =
  bs_name :: string
  bs_lbpname :: string
  bs_sticky :: string
  bs_sticky_path :: string
  bs_sticky_force :: bool
  bs_sticky_force_set :: bool
  bs_timeout :: apr_time
  bs_max_attempts :: int
  bs_max_attempts_set :: bool

definition BALANCER_PREFIX :: string where
  "BALANCER_PREFIX = ''balancer://''"

abbreviation (input) BALANCER_PREFIX_LENGTH :: nat where "BALANCER_PREFIX_LENGTH \<equiv> 11"

text \<open>The test several functions make: is this the balancer that serves a node's balancer name.\<close>

definition balancer_serves :: "('a) balancer_shared_scheme \<Rightarrow> string \<Rightarrow> bool" where
  "balancer_serves b name \<longleftrightarrow>
     BALANCER_PREFIX_LENGTH < length (bs_name b) \<and> strcasecmp0 (drop BALANCER_PREFIX_LENGTH (bs_name b)) name"

section \<open>Cookies\<close>

definition cookie_sep :: "char option \<Rightarrow> bool" where
  "cookie_sep p = (case p of None \<Rightarrow> True | Some c \<Rightarrow> c = CHR '';'' \<or> c = CHR '','' \<or> c_isspace c)"

definition cookie_value :: "string \<Rightarrow> string" where
  "cookie_value s =
     (let c = truncate_at (CHR '','') (truncate_at (CHR '';'') s) in
      if c \<noteq> [] \<and> hd c = CHR 0x22 \<and> last c = CHR 0x22 then butlast (tl c) else c)"

text \<open>
  \<open>p\<close> is the character before the scanned text, \<open>None\<close> at the start of the header. The scan
  goes on one character behind the place the inner loop stopped at; when that place is the
  terminating NUL, it goes on behind the string.
\<close>

function cookie_scan :: "string \<Rightarrow> char option \<Rightarrow> string \<Rightarrow> string option outcome" where
  "cookie_scan name p s =
     (case strstr s name of
        None \<Rightarrow> Value None
      | Some k \<Rightarrow>
          (let before = (if k = 0 then p else Some (s ! (k - 1))); start = drop k s in
           if cookie_sep before then
             (case dropWhile c_isspace (drop (length name) start) of
                [] \<Rightarrow> Undefined
              | c # rest \<Rightarrow>
                  if c = CHR ''='' \<and> rest \<noteq> [] then Value (Some (cookie_value rest))
                  else cookie_scan name (Some c) rest)
           else (case start of
                   [] \<Rightarrow> Undefined
                 | c # rest \<Rightarrow> cookie_scan name (Some c) rest)))"
  by pat_completeness auto
termination
proof (relation "measure (\<lambda>(_, _, s). length s)")
  fix name :: string and p s k and x :: "char option" and xa c rest
  assume "strstr s name = Some k" and "xa = drop k s" and "dropWhile c_isspace (drop (length name) xa) = c # rest"
  then have "length (c # rest) \<le> length s"
    by (metis (no_types, lifting) drop_drop dropWhile_eq_drop length_drop diff_le_self)
  then show "((name, Some c, rest), name, p, s) \<in> measure (\<lambda>(_, _, s). length s)" by simp
next
  fix name :: string and p s k and x :: "char option" and xa c rest
  assume "strstr s name = Some k" and "xa = drop k s" and "xa = c # rest"
  then have "length (c # rest) \<le> length s" by (metis length_drop diff_le_self)
  then show "((name, Some c, rest), name, p, s) \<in> measure (\<lambda>(_, _, s). length s)" by simp
qed simp

declare cookie_scan.simps [simp del]

definition get_cookie_param :: "preq \<Rightarrow> string \<Rightarrow> bool \<Rightarrow> string option outcome" where
  "get_cookie_param r name inp =
     (case (if inp then q_cookie r else q_set_cookie r) of
        None \<Rightarrow> Value None
      | Some cookies \<Rightarrow> cookie_scan name None cookies)"

section \<open>Path parameters\<close>

definition path_delim :: "char \<Rightarrow> bool" where
  "path_delim c \<longleftrightarrow> c = CHR '';'' \<or> c = CHR ''?'' \<or> c = CHR ''&''"

definition apr_strtok :: "(char \<Rightarrow> bool) \<Rightarrow> string \<Rightarrow> string option" where
  "apr_strtok delim s =
     (case dropWhile delim s of [] \<Rightarrow> None | t \<Rightarrow> Some (takeWhile (\<lambda>c. \<not> delim c) t))"

text \<open>
  \<open>p\<close> is the character the memory holds before the scanned text, \<open>None\<close> when the text starts
  its buffer.
\<close>

function path_scan :: "string \<Rightarrow> char option \<Rightarrow> string \<Rightarrow> string option outcome" where
  "path_scan name p s =
     (case strstr s name of
        None \<Rightarrow> Value None
      | Some k \<Rightarrow>
          (case (if k = 0 then p else Some (s ! (k - 1))) of
             None \<Rightarrow> Undefined
           | Some before \<Rightarrow>
               (if before = CHR '';'' then
                  (case drop (length name) (drop k s) of
                     [] \<Rightarrow> Undefined
                   | c # rest \<Rightarrow>
                       if c = CHR ''='' then
                         (if rest \<noteq> [] then Value (apr_strtok path_delim rest) else Undefined)
                       else path_scan name (Some c) rest)
                else (case drop k s of
                        [] \<Rightarrow> Undefined
                      | c # rest \<Rightarrow> path_scan name (Some c) rest))))"
  by pat_completeness auto
termination
proof (relation "measure (\<lambda>(_, _, s). length s)")
  fix name :: string and p s k and x :: char and c rest
  assume "drop (length name) (drop k s) = c # rest"
  then have "length (c # rest) \<le> length s" by (metis drop_drop length_drop diff_le_self)
  then show "((name, Some c, rest), name, p, s) \<in> measure (\<lambda>(_, _, s). length s)" by simp
next
  fix name :: string and p s k and x :: char and c rest
  assume "drop k s = c # rest"
  then have "length (c # rest) \<le> length s" by (metis length_drop diff_le_self)
  then show "((name, Some c, rest), name, p, s) \<in> measure (\<lambda>(_, _, s). length s)" by simp
qed simp

declare path_scan.simps [simp del]

definition get_path_param :: "char option \<Rightarrow> string \<Rightarrow> string \<Rightarrow> string option outcome" where
  "get_path_param p url name = path_scan name p url"

section \<open>Sessions\<close>

text \<open>The session found, if any, and the name reported as the one it was found under.\<close>

definition cluster_get_sessionid ::
  "preq \<Rightarrow> string \<Rightarrow> char option \<Rightarrow> string \<Rightarrow> (string option \<times> string) outcome" where
  "cluster_get_sessionid r stickyval p uri =
     (case (case strchr (CHR ''|'') stickyval of None \<Rightarrow> (stickyval, stickyval) | Some (a, b) \<Rightarrow> (a, b)) of
        (sticky, sticky_path) \<Rightarrow>
          bind_outcome (get_cookie_param r sticky True) (\<lambda>route.
            case route of
              Some v \<Rightarrow> Value (Some v, sticky_path)
            | None \<Rightarrow> bind_outcome (get_path_param p uri sticky_path) (\<lambda>route'. Value (route', sticky))))"

definition sticky_names :: "('a) balancer_shared_scheme \<Rightarrow> string" where
  "sticky_names b = bs_sticky b @ ''|'' @ bs_sticky_path b"

definition hassession_byname ::
  "('a) balancer_shared_scheme list \<Rightarrow> preq \<Rightarrow> int \<Rightarrow> string option \<Rightarrow> proxy_node_table \<Rightarrow> bool outcome" where
  "hassession_byname balancers r nodeid route nt =
     (if route \<noteq> None \<and> route \<noteq> Some [] then Value True
      else (case table_get_node nt nodeid of
              None \<Rightarrow> Value False
            | Some node \<Rightarrow>
                (case find (\<lambda>b. balancer_serves b (n_balancer (mess node))) balancers of
                   None \<Rightarrow> Value False
                 | Some b \<Rightarrow>
                     (case q_filename r of
                        None \<Rightarrow> bind_outcome (cluster_get_sessionid r (sticky_names b) None (q_unparsed_uri r))
                                 (\<lambda>(sessionid, _). Value (sessionid \<noteq> None))
                      | Some f \<Rightarrow>
                          (if length f < 6 then Undefined
                           else bind_outcome (cluster_get_sessionid r (sticky_names b) (Some (f ! 5)) (drop 6 f))
                                  (\<lambda>(sessionid, _). Value (sessionid \<noteq> None)))))))"

section \<open>Health check parameters\<close>

text \<open>
  \<open>ap_getword_conf\<close> is httpd's: it gives the next word and the rest of the line. The loop
  ends because each word is cut off the line; a word function that leaves the line as it is
  would never return, which the bound makes visible as \<open>Undefined\<close>.
\<close>

fun parse_hc_words ::
  "(string \<Rightarrow> string \<times> string) \<Rightarrow> nat \<Rightarrow> string \<Rightarrow> (string \<times> string) list \<Rightarrow> (string \<times> string) list \<times> string option outcome" where
  "parse_hc_words getword 0 arg params = (params, if arg = [] then Value None else Undefined)"
| "parse_hc_words getword (Suc n) arg params =
     (if arg = [] then (params, Value None)
      else (case getword arg of (key, rest) \<Rightarrow>
              case strchr (CHR ''='') key of
                None \<Rightarrow> (params, Value (Some (''Invalid ProxyHCTemplate parameter. Parameter must be in the form '' @
                           [CHR 0x27] @ ''key=value'' @ [CHR 0x27])))
              | Some (k, v) \<Rightarrow> parse_hc_words getword n rest (params @ [(k, v)])))"

definition parse_proxyhctemplate_params ::
  "(string \<Rightarrow> string \<times> string) \<Rightarrow> string \<Rightarrow> (string \<times> string) list \<Rightarrow> (string \<times> string) list \<times> string option outcome" where
  "parse_proxyhctemplate_params getword arg params = parse_hc_words getword (length arg) arg params"

section \<open>Scanning a cookie header\<close>

text \<open>The scan is a walk: places where the name does not start a cookie are passed over.\<close>

lemma cookie_scan_skip:
  assumes "\<not> (prefix name (c # s) \<and> cookie_sep p)"
  shows "cookie_scan name p (c # s) = cookie_scan name (Some c) s"
proof (cases "prefix name (c # s)")
  case True
  with assms show ?thesis by (simp add: cookie_scan.simps [of name p])
next
  case False
  then show ?thesis
    by (cases "strstr s name") (auto simp: cookie_scan.simps Let_def nth_Cons' split: nat.split)
qed

lemma cookie_scan_token:
  assumes "\<not> cookie_sep (Some p)" and "\<forall>c \<in> set t. \<not> cookie_sep (Some c)"
  shows "cookie_scan name (Some p) (t @ rest) = cookie_scan name (Some (last (p # t))) rest"
  using assms by (induction t arbitrary: p) (simp_all add: cookie_scan_skip)

definition token_char :: "char \<Rightarrow> bool" where
  "token_char c \<longleftrightarrow> \<not> cookie_sep (Some c)"

fun cookie_header :: "(string \<times> string) list \<Rightarrow> string" where
  "cookie_header [] = []"
| "cookie_header [(n, v)] = n @ ''='' @ v"
| "cookie_header ((n, v) # cs) = n @ ''='' @ v @ ''; '' @ cookie_header cs"

definition cookie_ok :: "string \<times> string \<Rightarrow> bool" where
  "cookie_ok c \<longleftrightarrow> fst c \<noteq> [] \<and> snd c \<noteq> [] \<and> list_all token_char (fst c) \<and> list_all token_char (snd c) \<and>
     CHR ''='' \<notin> set (fst c) \<and> CHR 0x22 \<notin> set (snd c)"

lemma token_char_simps [simp]:
  "token_char (CHR ''='')" "\<not> token_char (CHR '';'')" "\<not> token_char (CHR '','')" "\<not> token_char (CHR '' '')"
  by (simp_all add: token_char_def cookie_sep_def c_isspace_def)

lemma token_not_space: "token_char c \<Longrightarrow> \<not> c_isspace c"
  by (simp add: token_char_def cookie_sep_def)

lemma strstr_prefix: "prefix t s \<Longrightarrow> strstr s t = Some 0"
  by (cases s) auto

lemma cookie_scan_other:
  assumes p: "cookie_sep p" and ok: "list_all token_char n" "CHR ''='' \<notin> set n" "n \<noteq> []" "list_all token_char v"
    and name: "CHR ''='' \<notin> set name" "name \<noteq> n"
  shows "cookie_scan name p (n @ ''='' @ v @ rest) = cookie_scan name (Some (last (n @ ''='' @ v))) rest"
proof (cases "prefix name (n @ ''='' @ v @ rest)")
  case False
  obtain c t where n: "n = c # t" using ok(3) by (cases n) auto
  have "cookie_scan name p (n @ ''='' @ v @ rest) = cookie_scan name (Some c) ((t @ ''='' @ v) @ rest)"
    using False n by (simp add: cookie_scan_skip)
  also have "\<dots> = cookie_scan name (Some (last (c # t @ ''='' @ v))) rest"
    using ok n by (intro cookie_scan_token) (auto simp: list_all_iff token_char_def [symmetric] simp flip: token_char_def)
  finally show ?thesis using n by simp
next
  case True
  then obtain x t where n: "n = name @ x # t"
  proof (cases "length name < length n")
    case True
    with \<open>prefix name (n @ ''='' @ v @ rest)\<close> obtain z where "n = name @ z" "z \<noteq> []"
      by (metis append_eq_append_conv_if prefix_def take_append less_le_not_le append_take_drop_id
          append_Nil2 order_less_imp_le)
    with that show ?thesis by (cases z) auto
  next
    case False
    then have "prefix n name"
      using \<open>prefix name (n @ ''='' @ v @ rest)\<close> by (metis leI prefix_length_prefix prefixI)
    then obtain z where z: "name = n @ z" by (auto simp: prefix_def)
    with name(2) obtain y ys where "z = y # ys" by (cases z) auto
    with z \<open>prefix name (n @ ''='' @ v @ rest)\<close> have "CHR ''='' \<in> set name" by auto
    with name(1) show ?thesis by simp
  qed
  have x: "x \<noteq> CHR ''=''" "token_char x" using ok n by auto
  then have "strstr (n @ ''='' @ v @ rest) name = Some 0"
    using True by (simp add: strstr_prefix)
  then have "cookie_scan name p (n @ ''='' @ v @ rest) = cookie_scan name (Some x) ((t @ ''='' @ v) @ rest)"
    using p x n by (simp add: cookie_scan.simps [of name p] Let_def token_not_space)
  also have "\<dots> = cookie_scan name (Some (last (x # t @ ''='' @ v))) rest"
    using ok n x by (intro cookie_scan_token) (auto simp: list_all_iff simp flip: token_char_def)
  finally show ?thesis using n by simp
qed

text \<open>A cookie of another name is passed over with its separator.\<close>

lemma cookie_scan_pass:
  assumes "cookie_sep p" and "cookie_ok (n, v)"
    and name: "name \<noteq> []" "list_all token_char name" "CHR ''='' \<notin> set name" "name \<noteq> n"
  shows "cookie_scan name p (n @ ''='' @ v @ ''; '' @ rest) = cookie_scan name (Some (CHR '' '')) rest"
proof -
  have ok: "n \<noteq> []" "v \<noteq> []" "list_all token_char n" "list_all token_char v" "CHR ''='' \<notin> set n"
    using assms(2) by (simp_all add: cookie_ok_def)
  have "\<not> cookie_sep (Some (last (n @ ''='' @ v)))"
    using ok last_in_set [OF ok(2)] by (auto simp: list_all_iff simp flip: token_char_def)
  moreover have "\<not> prefix name (CHR '' '' # rest)" using name by (cases name) auto
  ultimately show ?thesis
    using cookie_scan_other [OF assms(1) ok(3,5,1,4) name(3,4), of "''; '' @ rest"] by (simp add: cookie_scan_skip)
qed

lemma cookie_sep_space [simp]: "cookie_sep (Some (CHR '' ''))"
  by (simp add: cookie_sep_def c_isspace_def)

lemma cookie_scan_hit:
  assumes "cookie_sep p" and "v \<noteq> []"
  shows "cookie_scan name p (name @ ''='' @ v) = Value (Some (cookie_value v))"
  using assms by (simp add: cookie_scan.simps [of name p] strstr_prefix c_isspace_def)

lemma cookie_scan_end: "name \<noteq> [] \<Longrightarrow> cookie_scan name p [] = Value None"
  by (simp add: cookie_scan.simps)

lemma cookie_value_token:
  assumes "list_all token_char v" and "CHR 0x22 \<notin> set v" and "v \<noteq> []"
  shows "cookie_value v = v" and "cookie_value (v @ CHR '';'' # rest) = v"
proof -
  have "\<forall>c \<in> set v. c \<noteq> CHR '';''" "\<forall>c \<in> set v. c \<noteq> CHR '',''" using assms(1) by (auto simp: list_all_iff)
  then have "truncate_at (CHR '';'') v = v" "truncate_at (CHR '','') v = v"
    "truncate_at (CHR '';'') (v @ CHR '';'' # rest) = v"
    by (simp_all add: truncate_at_def)
  moreover have "hd v \<noteq> CHR 0x22" using assms(2,3) by (metis list.set_sel(1))
  ultimately show "cookie_value v = v" "cookie_value (v @ CHR '';'' # rest) = v"
    by (simp_all add: cookie_value_def)
qed

lemma cookie_scan_header:
  assumes "list_all cookie_ok cs" and "cookie_sep p"
    and name: "name \<noteq> []" "list_all token_char name" "CHR ''='' \<notin> set name"
  shows "cookie_scan name p (cookie_header cs) = Value (map_of cs name)"
  using assms(1,2)
proof (induction cs arbitrary: p rule: cookie_header.induct)
  case 1
  with name show ?case by (simp add: cookie_scan_end)
next
  case (2 n v)
  then have ok: "n \<noteq> []" "v \<noteq> []" "list_all token_char n" "list_all token_char v" "CHR ''='' \<notin> set n" "CHR 0x22 \<notin> set v"
    by (simp_all add: cookie_ok_def)
  show ?case
  proof (cases "name = n")
    case True
    with cookie_scan_hit [OF 2(2) ok(2), of name] ok show ?thesis by (simp add: cookie_value_token)
  next
    case False
    with cookie_scan_other [OF 2(2) ok(3,5,1,4) name(3) False, of "[]"] name show ?thesis
      by (simp add: cookie_scan_end)
  qed
next
  case (3 n v c cs)
  then have ok: "n \<noteq> []" "v \<noteq> []" "list_all token_char n" "list_all token_char v" "CHR ''='' \<notin> set n" "CHR 0x22 \<notin> set v"
    by (simp_all add: cookie_ok_def)
  show ?case
  proof (cases "name = n")
    case True
    with cookie_scan_hit [OF 3(3), of "v @ ''; '' @ cookie_header (c # cs)" name] ok show ?thesis
      by (simp add: cookie_value_token)
  next
    case False
    with cookie_scan_pass [OF 3(3), of n v name "cookie_header (c # cs)"] 3 name show ?thesis by simp
  qed
qed

section \<open>Scanning a path\<close>

lemma path_scan_skip:
  assumes "\<not> prefix name (c # s) \<or> (\<exists>b. p = Some b \<and> b \<noteq> CHR '';'')"
  shows "path_scan name p (c # s) = path_scan name (Some c) s"
proof (cases "prefix name (c # s)")
  case True
  with assms show ?thesis by (auto simp: path_scan.simps [of name p])
next
  case False
  then show ?thesis
    by (cases "strstr s name") (auto simp: path_scan.simps nth_Cons' split: nat.split)
qed

lemma path_scan_text:
  assumes "p \<noteq> CHR '';''" and "CHR '';'' \<notin> set t"
  shows "path_scan name (Some p) (t @ rest) = path_scan name (Some (last (p # t))) rest"
  using assms
proof (induction t arbitrary: p)
  case (Cons a t)
  then have "a \<noteq> CHR '';''" "CHR '';'' \<notin> set t" by auto
  with Cons.IH [of a] Cons.prems show ?case by (simp add: path_scan_skip)
qed simp

lemma path_scan_hit:
  "v \<noteq> [] \<Longrightarrow> path_scan name (Some (CHR '';'')) (name @ ''='' @ v) = Value (apr_strtok path_delim v)"
  by (simp add: path_scan.simps [of name] strstr_prefix)

lemma apr_strtok_token:
  assumes "v \<noteq> []" and "\<forall>c \<in> set v. \<not> delim c" and "rest = [] \<or> delim (hd rest)"
  shows "apr_strtok delim (v @ rest) = Some v"
proof -
  obtain c w where v: "v = c # w" using assms(1) by (cases v) auto
  have "takeWhile (\<lambda>c. \<not> delim c) (v @ rest) = v"
    using assms(2,3) by (cases rest) (auto simp: takeWhile_append)
  with v assms(2) show ?thesis by (simp add: apr_strtok_def)
qed

section \<open>Properties\<close>

text \<open>C20: In a well-formed Cookie header the session cookie is found by name: the value of the first
  cookie of that name, and nothing when there is none, whatever other cookies contain the name in their
  names or values.\<close>

theorem get_cookie_param_lookup:
  assumes "q_cookie r = Some (cookie_header cs)" and "list_all cookie_ok cs"
    and "name \<noteq> []" and "list_all token_char name" and "CHR ''='' \<notin> set name"
  shows "get_cookie_param r name True = Value (map_of cs name)"
  using assms cookie_scan_header [OF assms(2), of None name]
  by (simp add: get_cookie_param_def cookie_sep_def)

definition small_request :: preq where
  "small_request = \<lparr>q_uri = ''/app/x'', q_unparsed_uri = ''/app/x'', q_filename = None,
     q_cookie = Some ''JSESSIONIDX=7; JSESSIONID=12.n1'', q_set_cookie = None, q_server_name = ''h'', q_handler = None,
     q_proxyreq = 0, q_status = 200, q_args = None, q_path_info = None, nt_proxy_context = None, nt_session_id = None,
     nt_session_route = None, nt_session_sticky = None, nt_cluster_domain = None, nt_session_domain_ok = False,
     nt_no_context_error = False, nt_nocanon = False, ev_session_route = None, ev_session_sticky = None,
     ev_context_id = None, ev_route_changed = False, ev_balancer_name = None, ev_worker_name = None,
     ev_worker_route = None\<rparr>"

theorem get_cookie_param_lookup_witness:
  "get_cookie_param small_request ''JSESSIONID'' True = Value (Some ''12.n1'')"
  using get_cookie_param_lookup [of small_request "[(''JSESSIONIDX'', ''7''), (''JSESSIONID'', ''12.n1'')]" "''JSESSIONID''"]
  by (simp add: small_request_def cookie_ok_def token_char_def cookie_sep_def c_isspace_def)

text \<open>A session parameter that is the first parameter of the path is found whole, up to the next
  delimiter, whatever the path before it contains.\<close>

theorem get_path_param_found:
  assumes "name \<noteq> []" and "hd name \<noteq> CHR ''/''" and "CHR '';'' \<notin> set t"
    and "sid \<noteq> []" and "\<forall>c \<in> set sid. \<not> path_delim c" and "rest = [] \<or> path_delim (hd rest)"
  shows "get_path_param p (''/'' @ t @ '';'' @ name @ ''='' @ sid @ rest) name = Value (Some sid)"
proof -
  let ?tail = "name @ ''='' @ sid @ rest"
  have "\<not> prefix name (CHR ''/'' # t @ '';'' @ ?tail)" using assms(1,2) by (cases name) auto
  then have "path_scan name p (''/'' @ t @ '';'' @ ?tail) = path_scan name (Some (CHR ''/'')) (t @ '';'' @ ?tail)"
    by (simp add: path_scan_skip)
  also have "\<dots> = path_scan name (Some (last (CHR ''/'' # t))) ('';'' @ ?tail)"
    using assms(3) by (intro path_scan_text) simp_all
  also have "\<dots> = path_scan name (Some (CHR '';'')) ?tail"
  proof -
    have "last (CHR ''/'' # t) \<noteq> CHR '';''" using assms(3) by (simp, metis last_in_set)
    then show ?thesis by (simp add: path_scan_skip)
  qed
  also have "\<dots> = Value (Some sid)"
    using assms(4-6) by (simp add: path_scan_hit [simplified] apr_strtok_token)
  finally show ?thesis by (simp add: get_path_param_def)
qed

theorem get_path_param_found_witness:
  "get_path_param None ''/app/jsessionid;jsessionid=12.n1?x=y'' ''jsessionid'' = Value (Some ''12.n1'')"
  using get_path_param_found [of "''jsessionid''" "''app/jsessionid''" "''12.n1''" "''?x=y''" None]
  by (simp add: path_delim_def)

text \<open>The name \<open>cluster_get_sessionid\<close> reports for a session it found is the other one: the name of the
  path parameter when the session came in the cookie, the name of the cookie when it came in the path.\<close>

theorem sticky_used_swapped:
  assumes "CHR ''|'' \<notin> set cookie_name"
    and "get_cookie_param r cookie_name True = Value c" and "get_path_param p uri path_name = Value q"
  shows "cluster_get_sessionid r (cookie_name @ ''|'' @ path_name) p uri =
     Value (case c of Some sid \<Rightarrow> (Some sid, path_name) | None \<Rightarrow> (q, cookie_name))"
  using assms by (cases c) (simp_all add: cluster_get_sessionid_def strchr_append)

theorem sticky_used_swapped_witness:
  "cluster_get_sessionid small_request ''JSESSIONID|jsessionid'' None ''/app/x'' = Value (Some ''12.n1'', ''jsessionid'')"
proof -
  have "get_cookie_param small_request ''JSESSIONID'' True = Value (Some ''12.n1'')"
    "get_path_param None ''/app/x'' ''jsessionid'' = Value None"
    by code_simp+
  then show ?thesis
    using sticky_used_swapped [of "''JSESSIONID''" small_request "Some ''12.n1''" None "''/app/x''" "''jsessionid''" None]
    by simp
qed



end
