(* ===== verification/Context_Choice.thy ===== *)
theory Context_Choice
  imports Session_Id
begin

text \<open>
  Mapping a request to the nodes that serve it, \<open>common/common.c\<close>: the contexts of the virtual
  host and the balancer that match the path best (\<open>find_node_context_host\<close>), the balancer of the
  session's route (\<open>get_route_balancer\<close>) or of the context (\<open>get_context_host_balancer\<close>), and the
  test whether a node serves the request (\<open>context_host_ok\<close>). \<open>bals\<close> are the balancers of the
  server's proxy configuration, \<open>vt\<close>, \<open>ct\<close> and \<open>nt\<close> the copies of the virtual host, context and
  node tables.
\<close>

section \<open>The best matching contexts\<close>

definition uri_path :: "string \<Rightarrow> string" where
  "uri_path luri =
     (case strchr (CHR ''?'') luri of
        Some (a, _) \<Rightarrow> a
      | None \<Rightarrow> (case strchr (CHR '';'') luri of Some (a, _) \<Rightarrow> a | None \<Rightarrow> luri))"

definition mark_contexts :: "hostinfo \<Rightarrow> contextinfo list \<Rightarrow> bool list \<Rightarrow> bool list" where
  "mark_contexts v cs ok = map2 (\<lambda>c b. b \<or> (c_vhost c = h_vhost v \<and> c_node c = h_node v)) cs ok"

fun mark_hosts :: "string \<Rightarrow> hostinfo list \<Rightarrow> contextinfo list \<Rightarrow> bool list \<Rightarrow> bool list" where
  "mark_hosts hostname [] cs ok = ok"
| "mark_hosts hostname (v # vs) cs ok =
     mark_hosts hostname vs cs (if hostname = h_host v then mark_contexts v cs ok else ok)"

definition host_marks :: "bool \<Rightarrow> preq \<Rightarrow> proxy_vhost_table \<Rightarrow> contextinfo list \<Rightarrow> bool list" where
  "host_marks use_alias r vt cs =
     (if use_alias then mark_hosts (q_server_name r) (tc_info vt) cs (replicate (length cs) False)
      else replicate (length cs) True)"

text \<open>The length of the match, 0 when the context does not match the path.\<close>

definition context_len :: "string \<Rightarrow> contextinfo \<Rightarrow> nat" where
  "context_len uri c =
     (let len = length (c_context c) in
      if strncmp0 uri (c_context c) len \<and>
         (length uri \<le> len \<or> uri ! len = CHR ''/'' \<or> len = 1)
      then len else 0)"

definition context_of_balancer ::
  "('a) balancer_shared_scheme option \<Rightarrow> proxy_node_table \<Rightarrow> contextinfo \<Rightarrow> bool" where
  "context_of_balancer bal nt c =
     (case bal of
        None \<Rightarrow> True
      | Some b \<Rightarrow> (case table_get_node nt (c_node c) of
                     None \<Rightarrow> False
                   | Some node \<Rightarrow> balancer_serves b (n_balancer (mess node))))"

text \<open>The lengths of all contexts, the longest of them and whether any context was in question.\<close>

fun check_contexts ::
  "(contextinfo \<Rightarrow> bool) \<Rightarrow> string \<Rightarrow> (contextinfo \<times> bool) list \<Rightarrow> nat \<Rightarrow> bool \<Rightarrow> nat list \<times> nat \<times> bool" where
  "check_contexts keep uri [] mx has = ([], mx, has)"
| "check_contexts keep uri ((c, ok) # rows) mx has =
     (if \<not> ok \<or> \<not> keep c
      then (case check_contexts keep uri rows mx has of (ls, mx', has') \<Rightarrow> (0 # ls, mx', has'))
      else (let len = context_len uri c in
            case check_contexts keep uri rows (if mx < len then len else mx) True of
              (ls, mx', has') \<Rightarrow> (len # ls, mx', has')))"

fun best_contexts ::
  "(int \<Rightarrow> bool outcome) \<Rightarrow> nat \<Rightarrow> (contextinfo \<times> nat) list \<Rightarrow> node_context list outcome" where
  "best_contexts session mx [] = Value []"
| "best_contexts session mx ((c, len) # rows) =
     (if len \<noteq> mx then best_contexts session mx rows
      else bind_outcome
             (if c_status c = ENABLED then Value True
              else if c_status c = DISABLED then session (c_node c)
              else Value False)
             (\<lambda>ok. bind_outcome (best_contexts session mx rows)
                (\<lambda>bs. Value (if ok then (c_node c, c_id c) # bs else bs))))"

text \<open>The nodes found, whether the balancer has contexts, and the request with the result noted.\<close>

definition find_node_context_host ::
  "('a) balancer_shared_scheme list \<Rightarrow> preq \<Rightarrow> ('a) balancer_shared_scheme option \<Rightarrow> string option \<Rightarrow> bool
     \<Rightarrow> proxy_vhost_table \<Rightarrow> proxy_context_table \<Rightarrow> proxy_node_table
     \<Rightarrow> (node_context list option \<times> bool \<times> preq) outcome" where
  "find_node_context_host bals r bal route use_alias vt ct nt =
     (if nt_proxy_context r \<noteq> None then Value (nt_proxy_context r, False, r)
      else
        let uri = uri_path (q_uri r); cs = tc_info ct in
        if cs = [] then Value (None, False, r)
        else (case check_contexts (context_of_balancer bal nt) uri (zip cs (host_marks use_alias r vt cs)) 0 False of
               (lengths, mx, has) \<Rightarrow>
                 if mx = 0 then Value (None, has, r)
                 else bind_outcome
                        (best_contexts (\<lambda>n. hassession_byname bals r n route nt) mx (zip cs lengths))
                        (\<lambda>best. if best = [] then Value (None, has, r)
                                 else Value (Some best, has, r\<lparr>nt_proxy_context := Some best\<rparr>))))"

section \<open>The balancer of a request\<close>

fun nodedomain_loop :: "string \<Rightarrow> string \<Rightarrow> nodeinfo list \<Rightarrow> string option option" where
  "nodedomain_loop route balancer [] = None"
| "nodedomain_loop route balancer (ou # rest) =
     (if JVMRoute (mess ou) = route \<and> strcasecmp0 balancer (n_balancer (mess ou))
      then Some (if Domain (mess ou) \<noteq> [] then Some (Domain (mess ou)) else None)
      else nodedomain_loop route balancer rest)"

text \<open>\<open>None\<close> is \<open>APR_NOTFOUND\<close>; the domain of a node without one stays unset.\<close>

definition find_nodedomain :: "string \<Rightarrow> string \<Rightarrow> proxy_node_table \<Rightarrow> string option option" where
  "find_nodedomain route balancer nt = nodedomain_loop route balancer (tc_info nt)"

definition session_route :: "string \<Rightarrow> string option" where
  "session_route sessionid = (case strchr (CHR ''.'') sessionid of None \<Rightarrow> None | Some (_, route) \<Rightarrow> Some route)"

text \<open>One balancer: its name when it is the balancer of the session's route, else the next one is tried.\<close>

definition route_step ::
  "('a) balancer_shared_scheme list \<Rightarrow> bool \<Rightarrow> proxy_vhost_table \<Rightarrow> proxy_context_table \<Rightarrow> proxy_node_table
     \<Rightarrow> ('a) balancer_shared_scheme \<Rightarrow> preq \<Rightarrow> (string option \<times> preq) outcome" where
  "route_step bals use_alias vt ct nt b r =
     (if bs_sticky b = [] \<or> bs_sticky_path b = [] \<or> length (bs_name b) \<le> BALANCER_PREFIX_LENGTH
         \<or> \<not> strncmp0 (bs_lbpname b) ''MC'' 2
      then Value (None, r)
      else bind_outcome (cluster_get_sessionid r (sticky_names b) None (q_uri r)) (\<lambda>(sessionid, sticky_used).
        case sessionid of
          None \<Rightarrow> Value (None, r)
        | Some sid \<Rightarrow>
            let r1 = r\<lparr>nt_session_id := Some sid\<rparr> in
            (case session_route sid of
               None \<Rightarrow> Value (None, r1)
             | Some route \<Rightarrow>
                 if route = [] then Value (None, r1)
                 else bind_outcome (find_node_context_host bals r1 (Some b) (Some route) use_alias vt ct nt)
                   (\<lambda>(nodes, _, r2).
                      let name = drop BALANCER_PREFIX_LENGTH (bs_name b) in
                      if nodes = None then Value (None, r2)
                      else (case find_nodedomain route name nt of
                              None \<Rightarrow> Value (None, r2)
                            | Some domain \<Rightarrow>
                                Value (Some name,
                                  r2\<lparr>nt_session_sticky := Some sticky_used, nt_session_route := Some route,
                                     ev_session_route := Some route, ev_session_sticky := Some sticky_used,
                                     nt_cluster_domain := (if domain \<noteq> None then domain else nt_cluster_domain r2)\<rparr>))))))"

primrec route_loop ::
  "('a) balancer_shared_scheme list \<Rightarrow> bool \<Rightarrow> proxy_vhost_table \<Rightarrow> proxy_context_table \<Rightarrow> proxy_node_table
     \<Rightarrow> ('a) balancer_shared_scheme list \<Rightarrow> preq \<Rightarrow> (string option \<times> preq) outcome" where
  "route_loop bals use_alias vt ct nt [] r = Value (None, r)"
| "route_loop bals use_alias vt ct nt (b # bs) r =
     bind_outcome (route_step bals use_alias vt ct nt b r) (\<lambda>(found, r').
       case found of
         Some name \<Rightarrow> Value (Some name, r')
       | None \<Rightarrow> route_loop bals use_alias vt ct nt bs r')"

definition get_route_balancer ::
  "('a) balancer_shared_scheme list \<Rightarrow> preq \<Rightarrow> proxy_vhost_table \<Rightarrow> proxy_context_table \<Rightarrow> proxy_node_table
     \<Rightarrow> bool \<Rightarrow> (string option \<times> preq) outcome" where
  "get_route_balancer bals r vt ct nt use_alias = route_loop bals use_alias vt ct nt bals r"

text \<open>
  \<open>ap_proxy_get_balancer\<close> is httpd's: given the names of the configured balancers it gives the
  position of the one an address belongs to. A list of nodes ends at the node -1.
\<close>

fun context_balancer_loop ::
  "(string list \<Rightarrow> string \<Rightarrow> nat option) \<Rightarrow> string list \<Rightarrow> proxy_node_table \<Rightarrow> node_context list \<Rightarrow> string option" where
  "context_balancer_loop getbal names nt [] = None"
| "context_balancer_loop getbal names nt ((n, c) # nodes) =
     (if n = -1 then None
      else (case table_get_node nt n of
              None \<Rightarrow> context_balancer_loop getbal names nt nodes
            | Some node \<Rightarrow>
                let b = n_balancer (mess node) in
                if b \<noteq> [] \<and> getbal names (BALANCER_PREFIX @ b) \<noteq> None then Some b
                else context_balancer_loop getbal names nt nodes))"

definition get_context_host_balancer ::
  "(string list \<Rightarrow> string \<Rightarrow> nat option) \<Rightarrow> ('a) balancer_shared_scheme list \<Rightarrow> preq
     \<Rightarrow> proxy_vhost_table \<Rightarrow> proxy_context_table \<Rightarrow> proxy_node_table \<Rightarrow> bool \<Rightarrow> (string option \<times> preq) outcome" where
  "get_context_host_balancer getbal bals r vt ct nt use_alias =
     bind_outcome (find_node_context_host bals r None None use_alias vt ct nt) (\<lambda>(nodes, _, r').
       Value (case nodes of
                None \<Rightarrow> None
              | Some ns \<Rightarrow> context_balancer_loop getbal (map bs_name bals) nt ns, r'))"

fun find_best_node :: "int \<Rightarrow> node_context list \<Rightarrow> node_context option" where
  "find_best_node node [] = None"
| "find_best_node node ((n, c) # best) =
     (if n = -1 then None else if n = node then Some (n, c) else find_best_node node best)"

definition context_host_ok ::
  "('a) balancer_shared_scheme list \<Rightarrow> preq \<Rightarrow> ('a) balancer_shared_scheme \<Rightarrow> int \<Rightarrow> bool
     \<Rightarrow> proxy_vhost_table \<Rightarrow> proxy_context_table \<Rightarrow> proxy_node_table \<Rightarrow> (node_context option \<times> preq) outcome" where
  "context_host_ok bals r b node use_alias vt ct nt =
     bind_outcome (find_node_context_host bals r (Some b) (nt_session_route r) use_alias vt ct nt) (\<lambda>(best, _, r').
       Value (case best of None \<Rightarrow> None | Some bs \<Rightarrow> find_best_node node bs, r'))"

section \<open>What is chosen\<close>

text \<open>
  The specification: of the contexts of the host and the balancer that match the path, those
  with the longest match, of them the enabled ones and, for a request that has a session, the
  disabled ones.
\<close>

definition context_of_host :: "bool \<Rightarrow> string \<Rightarrow> proxy_vhost_table \<Rightarrow> contextinfo \<Rightarrow> bool" where
  "context_of_host use_alias hostname vt c \<longleftrightarrow>
     \<not> use_alias \<or> (\<exists>v \<in> set (tc_info vt). h_host v = hostname \<and> h_vhost v = c_vhost c \<and> h_node v = c_node c)"

definition in_question ::
  "bool \<Rightarrow> preq \<Rightarrow> ('a) balancer_shared_scheme option \<Rightarrow> proxy_vhost_table \<Rightarrow> proxy_node_table \<Rightarrow> contextinfo \<Rightarrow> bool" where
  "in_question use_alias r bal vt nt c \<longleftrightarrow>
     context_of_host use_alias (q_server_name r) vt c \<and> context_of_balancer bal nt c"

definition matching ::
  "bool \<Rightarrow> preq \<Rightarrow> ('a) balancer_shared_scheme option \<Rightarrow> proxy_vhost_table \<Rightarrow> proxy_context_table \<Rightarrow> proxy_node_table
     \<Rightarrow> contextinfo list" where
  "matching use_alias r bal vt ct nt =
     filter (\<lambda>c. in_question use_alias r bal vt nt c \<and> 0 < context_len (uri_path (q_uri r)) c) (tc_info ct)"

definition longest :: "string \<Rightarrow> contextinfo list \<Rightarrow> contextinfo list" where
  "longest uri cs = filter (\<lambda>c. \<forall>d \<in> set cs. context_len uri d \<le> context_len uri c) cs"

definition served :: "(int \<Rightarrow> bool) \<Rightarrow> contextinfo \<Rightarrow> bool" where
  "served session c \<longleftrightarrow> c_status c = ENABLED \<or> c_status c = DISABLED \<and> session (c_node c)"

definition contexts_chosen ::
  "(int \<Rightarrow> bool) \<Rightarrow> bool \<Rightarrow> preq \<Rightarrow> ('a) balancer_shared_scheme option \<Rightarrow> proxy_vhost_table \<Rightarrow> proxy_context_table
     \<Rightarrow> proxy_node_table \<Rightarrow> node_context list" where
  "contexts_chosen session use_alias r bal vt ct nt =
     map (\<lambda>c. (c_node c, c_id c))
       (filter (served session) (longest (uri_path (q_uri r)) (matching use_alias r bal vt ct nt)))"

lemma mark_contexts_length [simp]: "length ok = length cs \<Longrightarrow> length (mark_contexts v cs ok) = length cs"
  by (simp add: mark_contexts_def)

lemma mark_contexts_map:
  "mark_contexts v cs (map f cs) = map (\<lambda>c. f c \<or> (c_vhost c = h_vhost v \<and> c_node c = h_node v)) cs"
  by (induction cs) (simp_all add: mark_contexts_def)

lemma mark_hosts_map:
  "mark_hosts hostname vs cs (map f cs) =
     map (\<lambda>c. f c \<or> (\<exists>v \<in> set vs. h_host v = hostname \<and> h_vhost v = c_vhost c \<and> h_node v = c_node c)) cs"
  by (induction vs arbitrary: f) (auto simp: mark_contexts_map)

lemma check_contexts_map:
  "check_contexts keep uri (map (\<lambda>c. (c, ok c)) cs) mx has =
     (map (\<lambda>c. if ok c \<and> keep c then context_len uri c else 0) cs,
      fold (\<lambda>c m. max m (if ok c \<and> keep c then context_len uri c else 0)) cs mx,
      has \<or> (\<exists>c \<in> set cs. ok c \<and> keep c))"
  by (induction cs arbitrary: mx has) (auto simp: Let_def max_def)

lemma best_contexts_map:
  assumes "\<forall>c \<in> set cs. session (c_node c) = Value (sess (c_node c))"
  shows "best_contexts session mx (map (\<lambda>c. (c, f c)) cs) =
     Value (map (\<lambda>c. (c_node c, c_id c)) (filter (\<lambda>c. f c = mx \<and> served sess c) cs))"
  using assms by (induction cs) (auto simp: served_def)

lemma fold_max_eq:
  fixes f :: "'a \<Rightarrow> nat"
  shows "fold (\<lambda>c m. max m (f c)) cs mx = Max (insert mx (f ` set cs))"
proof (induction cs arbitrary: mx)
  case (Cons c cs)
  have "Max (insert mx (insert (f c) (f ` set cs))) = max mx (Max (insert (f c) (f ` set cs)))"
    by (rule Max_insert) simp_all
  moreover have "Max (insert (max mx (f c)) (f ` set cs)) = max mx (Max (insert (f c) (f ` set cs)))"
    by (cases "set cs = {}") (simp_all add: Max_insert max.assoc)
  ultimately show ?case using Cons.IH [of "max mx (f c)"] by simp
qed simp

lemma matching_longest:
  fixes f :: "'a \<Rightarrow> nat"
  assumes "m = Max (insert 0 (f ` set cs))" and "m \<noteq> 0"
  shows "filter (\<lambda>c. f c = m) cs = filter (\<lambda>c. \<forall>d \<in> set (filter (\<lambda>c. 0 < f c) cs). f d \<le> f c) (filter (\<lambda>c. 0 < f c) cs)"
proof -
  have le: "\<forall>c \<in> set cs. f c \<le> m" and in_img: "m \<in> f ` set cs"
    using assms Max_in [of "insert 0 (f ` set cs)"] by auto
  show ?thesis unfolding filter_filter
  proof (rule filter_cong [OF refl])
    fix c assume "c \<in> set cs"
    with le in_img assms(2) show "f c = m \<longleftrightarrow> 0 < f c \<and> (\<forall>d \<in> set (filter (\<lambda>c. 0 < f c) cs). f d \<le> f c)"
      by (auto simp: image_iff) (metis le_antisym neq0_conv)+
  qed
qed

lemma longest_matching:
  fixes q :: "contextinfo \<Rightarrow> bool" and uri :: string
  defines "f \<equiv> \<lambda>c. if q c then context_len uri c else 0"
  shows "longest uri (filter (\<lambda>c. q c \<and> 0 < context_len uri c) cs) =
     filter (\<lambda>c. \<forall>d \<in> set (filter (\<lambda>c. 0 < f c) cs). f d \<le> f c) (filter (\<lambda>c. 0 < f c) cs)"
proof -
  have "filter (\<lambda>c. q c \<and> 0 < context_len uri c) cs = filter (\<lambda>c. 0 < f c) cs"
    by (rule filter_cong) (auto simp: f_def)
  moreover have "longest uri (filter (\<lambda>c. 0 < f c) cs) =
      filter (\<lambda>c. \<forall>d \<in> set (filter (\<lambda>c. 0 < f c) cs). f d \<le> f c) (filter (\<lambda>c. 0 < f c) cs)"
    unfolding longest_def by (rule filter_cong [OF refl]) (auto simp: f_def split: if_splits)
  ultimately show ?thesis by simp
qed

lemma zip_self_map: "zip cs (map f cs) = map (\<lambda>c. (c, f c)) cs"
  by (induction cs) simp_all

lemma check_contexts_marks:
  fixes cs r use_alias bal vt nt uri
  defines "f \<equiv> \<lambda>c. if in_question use_alias r bal vt nt c then context_len uri c else 0"
  shows "check_contexts (context_of_balancer bal nt) uri (zip cs (host_marks use_alias r vt cs)) 0 False =
     (map f cs, Max (insert 0 (f ` set cs)), \<exists>c \<in> set cs. in_question use_alias r bal vt nt c)"
proof -
  have "host_marks use_alias r vt cs = map (context_of_host use_alias (q_server_name r) vt) cs"
    using mark_hosts_map [of "q_server_name r" "tc_info vt" cs "\<lambda>_. False"]
    by (simp add: host_marks_def map_replicate_const context_of_host_def [abs_def])
  then show ?thesis
    using check_contexts_map [of "context_of_balancer bal nt" uri "context_of_host use_alias (q_server_name r) vt" cs 0 False]
    by (simp add: fold_max_eq f_def in_question_def zip_self_map)
qed

lemma find_node_context_host_eq:
  fixes bals :: "('a) balancer_shared_scheme list"
  assumes "nt_proxy_context r = None"
    and sess: "\<forall>c \<in> set (tc_info ct). hassession_byname bals r (c_node c) route nt = Value (session (c_node c))"
  shows "find_node_context_host bals r bal route use_alias vt ct nt =
     (let best = contexts_chosen session use_alias r bal vt ct nt;
          has = (\<exists>c \<in> set (tc_info ct). in_question use_alias r bal vt nt c) in
      if best = [] then Value (None, has, r)
      else Value (Some best, has, r\<lparr>nt_proxy_context := Some best\<rparr>))"
proof -
  let ?cs = "tc_info ct" and ?uri = "uri_path (q_uri r)"
  define q where "q = in_question use_alias r bal vt nt"
  define f where "f = (\<lambda>c. if q c then context_len ?uri c else 0)"
  define ok where "ok = host_marks use_alias r vt ?cs"
  define mx where "mx = Max (insert 0 (f ` set ?cs))"
  have check: "check_contexts (context_of_balancer bal nt) ?uri (zip ?cs ok) 0 False =
      (map f ?cs, mx, \<exists>c \<in> set ?cs. q c)"
    by (simp add: ok_def mx_def f_def q_def check_contexts_marks)
  have best: "best_contexts (\<lambda>n. hassession_byname bals r n route nt) mx (zip ?cs (map f ?cs)) =
      Value (contexts_chosen session use_alias r bal vt ct nt)" if "mx \<noteq> 0"
  proof -
    have "filter (\<lambda>c. f c = mx) ?cs = longest ?uri (matching use_alias r bal vt ct nt)"
      using matching_longest [OF mx_def that] longest_matching [of ?uri q ?cs]
      by (simp add: matching_def f_def flip: q_def)
    then have "filter (\<lambda>c. f c = mx \<and> served session c) ?cs =
        filter (served session) (longest ?uri (matching use_alias r bal vt ct nt))"
      by (metis filter_filter)
    then show ?thesis
      unfolding zip_self_map best_contexts_map [OF sess] by (simp add: contexts_chosen_def)
  qed
  have none: "contexts_chosen session use_alias r bal vt ct nt = []" if "mx = 0"
  proof -
    have "f c = 0" if "c \<in> set ?cs" for c
      using Max_ge [of "insert 0 (f ` set ?cs)" "f c"] that \<open>mx = 0\<close> unfolding mx_def by fastforce
    then have "matching use_alias r bal vt ct nt = []"
      by (fastforce simp: matching_def filter_empty_conv f_def simp flip: q_def)
    then show ?thesis by (simp add: contexts_chosen_def longest_def)
  qed
  have "contexts_chosen session use_alias r bal vt ct nt = []" if "?cs = []"
    using that by (simp add: contexts_chosen_def longest_def matching_def)
  with check best none show ?thesis
    using assms(1) by (auto simp: find_node_context_host_def Let_def simp flip: ok_def q_def)
qed

lemma best_contexts_rows:
  assumes "best_contexts session mx rows = Value bs" and "(n, i) \<in> set bs"
  shows "\<exists>c. (c, mx) \<in> set rows \<and> n = c_node c \<and> i = c_id c \<and> (c_status c = ENABLED \<or> c_status c = DISABLED)"
  using assms
proof (induction rows arbitrary: bs)
  case (Cons row rows)
  obtain c len where row: "row = (c, len)" by (cases row)
  show ?case
  proof (cases "len = mx")
    case False
    with Cons row show ?thesis by auto
  next
    case True
    let ?st = "if c_status c = ENABLED then Value True else if c_status c = DISABLED then session (c_node c) else Value False"
    obtain ok bs' where "?st = Value ok" "best_contexts session mx rows = Value bs'"
      "bs = (if ok then (c_node c, c_id c) # bs' else bs')"
      using Cons.prems(1) row True
      by (auto simp: bind_outcome_Value split: if_splits)
    with Cons row True show ?thesis by (auto split: if_splits)
  qed
qed simp

text \<open>Every node the search returns comes from a matching context that is not stopped.\<close>

lemma find_node_context_host_Some:
  assumes "nt_proxy_context r = None"
    and "find_node_context_host bals r bal route use_alias vt ct nt = Value (Some best, has, r')"
    and "(n, i) \<in> set best"
  shows "\<exists>c \<in> set (tc_info ct). n = c_node c \<and> i = c_id c \<and> in_question use_alias r bal vt nt c \<and>
     0 < context_len (uri_path (q_uri r)) c \<and> (c_status c = ENABLED \<or> c_status c = DISABLED)"
proof -
  let ?f = "\<lambda>c. if in_question use_alias r bal vt nt c then context_len (uri_path (q_uri r)) c else 0"
  let ?mx = "Max (insert 0 (?f ` set (tc_info ct)))"
  have "best_contexts (\<lambda>n. hassession_byname bals r n route nt) ?mx (map (\<lambda>c. (c, ?f c)) (tc_info ct)) = Value best"
    and "?mx \<noteq> 0"
    using assms(1,2)
    by (auto simp: find_node_context_host_def Let_def check_contexts_marks zip_self_map bind_outcome_Value split: if_splits)
  from best_contexts_rows [OF this(1) assms(3)] this(2) show ?thesis
    by (auto split: if_splits)
qed

lemma context_len_prefix: "0 < context_len uri c \<Longrightarrow> prefix (c_context c) uri"
  by (auto simp: context_len_def strncmp0_def Let_def split: if_splits) (metis take_is_prefix)+

context consistent_manager
begin

lemma context_row_live:
  assumes "read_context_table S M k = Some ct" and "c \<in> set (tc_info ct)"
  shows "used (nodestatsmem M) (c_node c) \<and> used (contextstatsmem M) (c_id c) \<and> slot (contextstatsmem M) (c_id c) = c"
proof -
  let ?m = "contextstatsmem M"
  obtain j where j: "j \<in> set (used_slots ?m)" "c = items ?m ! j"
    using assms context_snapshot [of k] by auto
  then have "c_id c = int j" using contexts_table by (auto simp: table_ok_def ids_ok_def set_used_slots)
  moreover have "used ?m (int j)" using j contexts_table by (simp add: used_slots_used table_ok_def)
  moreover have "used (nodestatsmem M) (c_node c)"
    using j consistent
    by (fastforce simp: manager_ok_def refs_ok_def contexts_ref_def hosts_ref_def set_used_slots)
  ultimately show ?thesis using j by (simp add: slot_def)
qed

end

section \<open>Properties\<close>

text \<open>C22: The context search implements longest-prefix routing: over the contexts of the virtual host and of
  the balancer it returns exactly those with the longest matching path that are enabled, or disabled
  while the request belongs to a session, in table order; it reports whether there were contexts at
  all and notes a result in the request.\<close>

theorem find_node_context_host_spec:
  fixes bals :: "('a) balancer_shared_scheme list"
  assumes "nt_proxy_context r = None"
    and "\<forall>c \<in> set (tc_info ct). hassession_byname bals r (c_node c) route nt = Value (session (c_node c))"
  shows "find_node_context_host bals r bal route use_alias vt ct nt =
     (let best = contexts_chosen session use_alias r bal vt ct nt;
          has = (\<exists>c \<in> set (tc_info ct). in_question use_alias r bal vt nt c) in
      if best = [] then Value (None, has, r)
      else Value (Some best, has, r\<lparr>nt_proxy_context := Some best\<rparr>))"
  by (rule find_node_context_host_eq [OF assms])

text \<open>Two applications, the root and \<open>/app\<close>, on two nodes of the balancer \<open>mycluster\<close>.\<close>

definition small_context :: "int \<Rightarrow> string \<Rightarrow> int \<Rightarrow> int \<Rightarrow> contextinfo" where
  "small_context i path node st = \<lparr>c_id = i, c_context = path, c_vhost = 1, c_node = node, c_status = st,
     c_nbrequests = 0, c_updatetime = 0\<rparr>"

definition small_nodeinfo :: "int \<Rightarrow> string \<Rightarrow> nodeinfo" where
  "small_nodeinfo i route = zero_node\<lparr>mess := zero_mess\<lparr>n_id := i, JVMRoute := route, n_balancer := ''mycluster''\<rparr>\<rparr>"

definition small_ct :: proxy_context_table where
  "small_ct = \<lparr>tc_ids = [0, 1, 2], tc_info = [small_context 0 ''/'' 0 ENABLED,
     small_context 1 ''/app'' 0 DISABLED, small_context 2 ''/app'' 1 ENABLED], cap_ids = 3, cap_info = 3\<rparr>"

definition small_vt :: proxy_vhost_table where
  "small_vt = \<lparr>tc_ids = [0, 1], tc_info =
     [\<lparr>h_id = 0, h_host = ''h'', h_vhost = 1, h_node = 0, h_updatetime = 0\<rparr>,
      \<lparr>h_id = 1, h_host = ''h'', h_vhost = 1, h_node = 1, h_updatetime = 0\<rparr>], cap_ids = 2, cap_info = 2\<rparr>"

definition small_nt :: proxy_node_table where
  "small_nt = \<lparr>tc_ids = [0, 1], tc_info = [small_nodeinfo 0 ''n0'', small_nodeinfo 1 ''n1''],
     cap_ids = 2, cap_info = 2, ptr_node = [Some 0, Some 1]\<rparr>"

definition small_balancer :: balancer_shared where
  "small_balancer = \<lparr>bs_name = ''balancer://mycluster'', bs_lbpname = ''MC'', bs_sticky = ''JSESSIONID'',
     bs_sticky_path = ''jsessionid'', bs_sticky_force = False, bs_sticky_force_set = False, bs_timeout = 0,
     bs_max_attempts = 1, bs_max_attempts_set = True\<rparr>"

theorem find_node_context_host_spec_witness:
  "find_node_context_host [small_balancer] (small_request\<lparr>q_cookie := None\<rparr>) (Some small_balancer) None True
     small_vt small_ct small_nt =
   Value (Some [(1, 2)], True, small_request\<lparr>q_cookie := None, nt_proxy_context := Some [(1, 2)]\<rparr>)"
proof -
  let ?r = "small_request\<lparr>q_cookie := None\<rparr>"
  have "nt_proxy_context ?r = None" by (simp add: small_request_def)
  moreover have "hassession_byname [small_balancer] ?r 0 None small_nt = Value False"
    "hassession_byname [small_balancer] ?r 1 None small_nt = Value False"
    by code_simp+
  then have "\<forall>c \<in> set (tc_info small_ct). hassession_byname [small_balancer] ?r (c_node c) None small_nt = Value False"
    by (simp add: small_ct_def small_context_def)
  moreover have "contexts_chosen (\<lambda>_. False) True ?r (Some small_balancer) small_vt small_ct small_nt = [(1, 2)]"
    "\<exists>c \<in> set (tc_info small_ct). in_question True ?r (Some small_balancer) small_vt small_nt c"
    by code_simp+
  ultimately show ?thesis
    using find_node_context_host_spec [of ?r small_ct "[small_balancer]" None small_nt "\<lambda>_. False" "Some small_balancer" True small_vt]
    by (simp add: Let_def)
qed

text \<open>C23: Requests reach live applications only: on copies of a consistent manager's tables, every node
  returned is in use, and the context returned with it is an application in use on that node, neither
  stopped nor removed, whose path is a prefix of the request's.\<close>

theorem chosen_contexts_live:
  assumes "manager_storage S" and "manager_ok M"
    and "read_vhost_table S M k = Some vt" and "read_context_table S M k = Some ct" and "read_node_table S M k = Some nt"
    and "nt_proxy_context r = None"
    and "find_node_context_host bals r bal route use_alias vt ct nt = Value (Some best, has, r')"
  shows "\<forall>(n, i) \<in> set best. used (nodestatsmem M) n \<and> used (contextstatsmem M) i \<and>
     (let c = slot (contextstatsmem M) i in c_node c = n \<and> (c_status c = ENABLED \<or> c_status c = DISABLED) \<and>
        prefix (c_context c) (uri_path (q_uri r)))"
proof -
  have "consistent_manager S M" using assms(1,2) by (simp add: consistent_manager_def consistent_manager_axioms_def)
  from consistent_manager.context_row_live [OF this assms(4)] find_node_context_host_Some [OF assms(6,7)] show ?thesis
    by (fastforce simp: Let_def dest: context_len_prefix)
qed

definition small_manager2 :: manager where
  "small_manager2 = small_manager1\<lparr>contextstatsmem :=
     \<lparr>items = [small_context 0 ''/app'' 0 ENABLED, small_context 0 [] 0 0], inuse = [True, False]\<rparr>\<rparr>"

lemma small_manager2_ok: "manager_ok small_manager2"
  using small_manager1_ok
  by (simp add: manager_ok_def tables_ok_def refs_ok_def table_ok_def wf_slotmem_def ids_ok_def keys_ok_def
      contexts_ref_def small_manager2_def small_manager1_def small_context_def All_less_Suc Ex_less_Suc)

theorem chosen_contexts_live_witness:
  "used (nodestatsmem small_manager2) 0 \<and> c_status (slot (contextstatsmem small_manager2) 0) = ENABLED \<and>
   prefix (c_context (slot (contextstatsmem small_manager2) 0)) ''/app/x''"
proof -
  have "read_vhost_table shm_storage small_manager2 False = Some (the (read_vhost_table shm_storage small_manager2 False))"
    "read_context_table shm_storage small_manager2 False = Some (the (read_context_table shm_storage small_manager2 False))"
    "read_node_table shm_storage small_manager2 False = Some (the (read_node_table shm_storage small_manager2 False))"
    by code_simp+
  moreover have "find_node_context_host [] small_request (None :: balancer_shared option) None True
       (the (read_vhost_table shm_storage small_manager2 False)) (the (read_context_table shm_storage small_manager2 False))
       (the (read_node_table shm_storage small_manager2 False)) =
     Value (Some [(0, 0)], True, small_request\<lparr>nt_proxy_context := Some [(0, 0)]\<rparr>)"
    by code_simp
  moreover have "nt_proxy_context small_request = None" "uri_path (q_uri small_request) = ''/app/x''"
    "c_status (slot (contextstatsmem small_manager2) 0) = ENABLED" by code_simp+
  ultimately show ?thesis
    using chosen_contexts_live [OF shm_mgr.manager_storage_axioms small_manager2_ok, of False _ _ _ small_request]
    by (fastforce simp: Let_def)
qed

lemma nodedomain_loop_Some:
  "nodedomain_loop route name nodes = Some d \<Longrightarrow>
   \<exists>node \<in> set nodes. strcasecmp0 name (n_balancer (mess node)) \<and> route = JVMRoute (mess node)"
  by (induction nodes) (auto split: if_splits)

lemma route_step_Some:
  assumes "route_step bals use_alias vt ct nt b r = Value (Some name, r')"
  shows "bs_name b = take BALANCER_PREFIX_LENGTH (bs_name b) @ name \<and> strncmp0 (bs_lbpname b) ''MC'' 2 \<and>
     (\<exists>node \<in> set (tc_info nt). strcasecmp0 name (n_balancer (mess node)) \<and> nt_session_route r' = Some (JVMRoute (mess node)))"
proof -
  note a = assms [unfolded route_step_def]
  obtain sess used where s: "cluster_get_sessionid r (sticky_names b) None (q_uri r) = Value (sess, used)"
    using a by (auto simp: bind_outcome_Value split: if_splits)
  obtain sid where sid: "sess = Some sid" using a s by (cases sess) (auto split: if_splits)
  obtain route where route: "session_route sid = Some route"
    using a s sid by (cases "session_route sid") (auto simp: Let_def split: if_splits)
  let ?f = "find_node_context_host bals (r\<lparr>nt_session_id := Some sid\<rparr>) (Some b) (Some route) use_alias vt ct nt"
  obtain nodes has r2 where f: "?f = Value (nodes, has, r2)"
    using a s sid route by (cases ?f) (auto simp: Let_def split: if_splits)
  let ?name = "drop BALANCER_PREFIX_LENGTH (bs_name b)"
  obtain d where d: "find_nodedomain route ?name nt = Some d"
    using a s sid route f by (cases "find_nodedomain route ?name nt") (auto simp: Let_def split: if_splits)
  have "name = ?name" "nt_session_route r' = Some route" "strncmp0 (bs_lbpname b) ''MC'' 2"
    using a s sid route f d by (auto simp: Let_def split: if_splits)
  with nodedomain_loop_Some [OF d [unfolded find_nodedomain_def]] show ?thesis by auto
qed



end
