(* ===== verification/Ping_Pong.thy ===== *)
theory Ping_Pong
  imports Prelude
begin

text \<open>
  Asking a back end whether it is alive: \<open>ajp_handle_cping_cpong\<close>, \<open>copy_and_trim_crlf\<close> and
  \<open>http_handle_ping_pong\<close> of \<open>mod_proxy_cluster/mod_proxy_cluster.c\<close>. A socket is given by the
  results of the operations on it. The bytes received overwrite the front of the buffer the
  request was sent from. The lines a connection delivers are a list of brigades, after which
  reading fails: the peer closed the connection or the timeout set before expired.
\<close>

section \<open>AJP\<close>

record sock =
  so_send :: "nat list \<Rightarrow> apr_status"
  so_timeout_get :: apr_status
  so_recv :: "apr_time \<Rightarrow> apr_status \<times> nat list"
  so_timeout_reset :: apr_status

abbreviation (input) APR_EGENERAL :: apr_status where "APR_EGENERAL \<equiv> APR_ERR 20014"

definition cping :: "nat list" where "cping = [0x12, 0x34, 0, 1, 10]"
definition cpong :: "nat list" where "cpong = [0x41, 0x42, 0, 1, 9]"

definition ajp_handle_cping_cpong :: "sock \<Rightarrow> apr_time \<Rightarrow> apr_status" where
  "ajp_handle_cping_cpong so timeout =
     (let status = so_send so cping in
      if status \<noteq> APR_SUCCESS then status
      else if so_timeout_get so \<noteq> APR_SUCCESS then so_timeout_get so
      else case so_recv so timeout of
             (status, bytes) \<Rightarrow>
               let buf = take 5 (bytes @ drop (length bytes) cping);
                   status = (if status \<noteq> APR_SUCCESS then status
                             else if buf \<noteq> cpong then APR_EGENERAL else APR_SUCCESS)
               in if so_timeout_reset so \<noteq> APR_SUCCESS then so_timeout_reset so else status)"

section \<open>HTTP\<close>

abbreviation (input) HUGE_STRING_LEN :: nat where "HUGE_STRING_LEN \<equiv> 8192"

text \<open>
  \<open>strncpy\<close> into a buffer, and the string a buffer holds. The writes are those of the source,
  also beyond the end of a shorter buffer, where the result is \<open>None\<close>.
\<close>

definition buf_strncpy :: "nat list \<Rightarrow> nat list \<Rightarrow> nat \<Rightarrow> nat list option" where
  "buf_strncpy buffer ptr len =
     (if len \<le> length buffer
      then let s = takeWhile (\<lambda>c. c \<noteq> 0) (take len ptr) in Some (s @ replicate (len - length s) 0 @ drop len buffer)
      else None)"

definition buf_put :: "nat \<Rightarrow> nat \<Rightarrow> nat list \<Rightarrow> nat list option" where
  "buf_put i c buffer = (if i < length buffer then Some (buffer[i := c]) else None)"

definition copy_and_trim_crlf :: "nat list \<Rightarrow> nat list \<Rightarrow> nat \<Rightarrow> nat list option" where
  "copy_and_trim_crlf buffer ptr len0 =
     (let len = (if len0 \<ge> HUGE_STRING_LEN then HUGE_STRING_LEN - 1 else len0) in
      Option.bind (buf_strncpy buffer ptr len) (\<lambda>b.
        if len \<ge> 2 \<and> b ! (len - 2) = 13 \<and> b ! (len - 1) = 10 then buf_put (len - 2) 0 b
        else if len \<ge> 1 \<and> b ! (len - 1) = 10 then buf_put (len - 1) 0 b
        else buf_put len 0 b))"

datatype bucket = EOS | Data apr_status "nat list"

record http_conn =
  hc_pass :: apr_status
  hc_timeout_get :: apr_status
  hc_brigades :: "bucket list list"
  hc_timeout_reset :: apr_status

text \<open>
  One brigade: the flag \<open>eos\<close>, the length of the last bucket read and the buffer, or the status
  of a bucket that could not be read. A line that does not fit the buffer would be \<open>UB\<close>.
\<close>

fun read_brigade :: "bucket list \<Rightarrow> bool \<Rightarrow> nat \<Rightarrow> nat list \<Rightarrow> apr_status + bool \<times> nat \<times> nat list" where
  "read_brigade [] eos len buffer = Inr (eos, len, buffer)"
| "read_brigade (EOS # es) eos len buffer = read_brigade es True len buffer"
| "read_brigade (Data rv ptr # es) eos len buffer =
     (if rv \<noteq> APR_SUCCESS then Inl rv
      else case copy_and_trim_crlf buffer ptr (length ptr) of
             None \<Rightarrow> Inl UB
           | Some buffer' \<Rightarrow> read_brigade es eos (length ptr) buffer')"

fun read_answer :: "bucket list list \<Rightarrow> nat \<Rightarrow> nat list \<Rightarrow> apr_status" where
  "read_answer [] len buffer = (if len \<noteq> 0 then APR_SUCCESS else APR_EGENERAL)"
| "read_answer (bb # bbs) len buffer =
     (case read_brigade bb False len buffer of
        Inl rv \<Rightarrow> rv
      | Inr (eos, len', buffer') \<Rightarrow> if eos then APR_SUCCESS else read_answer bbs len' buffer')"

definition http_handle_ping_pong :: "http_conn \<Rightarrow> apr_status" where
  "http_handle_ping_pong p =
     (if hc_pass p \<noteq> APR_SUCCESS then hc_pass p
      else if hc_timeout_get p \<noteq> APR_SUCCESS then hc_timeout_get p
      else let rv = read_answer (hc_brigades p) 0 (replicate HUGE_STRING_LEN 0) in
           if rv \<noteq> APR_SUCCESS then rv
           else if hc_timeout_reset p \<noteq> APR_SUCCESS then hc_timeout_reset p else APR_SUCCESS)"

section \<open>What the answers mean\<close>

lemma buf_strncpy_length: "buf_strncpy buffer ptr len = Some b \<Longrightarrow> length b = length buffer"
  using length_takeWhile_le [of "\<lambda>c. c \<noteq> 0" "take len ptr"]
  by (auto simp: buf_strncpy_def Let_def split: if_splits)

lemma buf_strncpy_fits: "len \<le> length buffer \<Longrightarrow> \<exists>b. buf_strncpy buffer ptr len = Some b"
  by (simp add: buf_strncpy_def Let_def)

lemma buf_put_length: "buf_put i c buffer = Some b \<Longrightarrow> length b = length buffer"
  by (auto simp: buf_put_def split: if_splits)

lemma copy_and_trim_crlf_fits:
  assumes "length buffer = HUGE_STRING_LEN"
  shows "\<exists>b. copy_and_trim_crlf buffer ptr len = Some b \<and> length b = HUGE_STRING_LEN"
proof -
  define n where "n = (if len \<ge> HUGE_STRING_LEN then HUGE_STRING_LEN - 1 else len)"
  have n: "n < HUGE_STRING_LEN" by (simp add: n_def)
  obtain b where b: "buf_strncpy buffer ptr n = Some b" using buf_strncpy_fits n assms by (metis less_imp_le)
  have "length b = HUGE_STRING_LEN" using buf_strncpy_length [OF b] assms by simp
  then show ?thesis using n b by (auto simp: copy_and_trim_crlf_def n_def [symmetric] Let_def buf_put_def)
qed

fun bucket_ok :: "bucket \<Rightarrow> bool" where
  "bucket_ok EOS = True"
| "bucket_ok (Data rv ptr) = (rv \<noteq> UB)"

lemma read_brigade_no_overrun:
  assumes "length buffer = HUGE_STRING_LEN" and "list_all bucket_ok bb"
  shows "read_brigade bb eos len buffer \<noteq> Inl UB \<and>
         (\<forall>e l b. read_brigade bb eos len buffer = Inr (e, l, b) \<longrightarrow> length b = HUGE_STRING_LEN)"
  using assms
proof (induction bb eos len buffer rule: read_brigade.induct)
  case (3 rv ptr es eos len buffer)
  obtain b where "copy_and_trim_crlf buffer ptr (length ptr) = Some b" "length b = HUGE_STRING_LEN"
    using copy_and_trim_crlf_fits [OF "3.prems"(1)] by blast
  then show ?case using 3 by auto
qed auto

lemma read_answer_no_overrun:
  assumes "length buffer = HUGE_STRING_LEN" and "list_all (list_all bucket_ok) bbs"
  shows "read_answer bbs len buffer \<noteq> UB"
  using assms
proof (induction bbs len buffer rule: read_answer.induct)
  case (2 bb bbs len buffer)
  have "read_brigade bb False len buffer \<noteq> Inl UB \<and>
         (\<forall>e l b. read_brigade bb False len buffer = Inr (e, l, b) \<longrightarrow> length b = HUGE_STRING_LEN)"
    using 2 by (intro read_brigade_no_overrun) auto
  then show ?case using 2 by (auto split: sum.split)
qed simp

lemma ajp_alive:
  "ajp_handle_cping_cpong so timeout = APR_SUCCESS \<longleftrightarrow>
     so_send so cping = APR_SUCCESS \<and> so_timeout_get so = APR_SUCCESS \<and> so_timeout_reset so = APR_SUCCESS \<and>
     (\<exists>bytes. so_recv so timeout = (APR_SUCCESS, bytes) \<and> take 5 bytes = cpong)"
proof -
  have buf: "take 5 (bytes @ drop (length bytes) cping) = cpong \<longleftrightarrow> take 5 bytes = cpong" for bytes
  proof (cases "5 \<le> length bytes")
    case False
    then consider "length bytes = 0" | "length bytes = 1" | "length bytes = 2" | "length bytes = 3" | "length bytes = 4"
      by linarith
    then show ?thesis
      by cases (auto simp: cping_def cpong_def length_Suc_conv numeral_eq_Suc)
  qed simp
  show ?thesis by (cases "so_recv so timeout") (auto simp: ajp_handle_cping_cpong_def Let_def buf simp del: take_append)
qed

text \<open>C25: the probes of a back end. An AJP back end counts as alive only if the request was sent
  and the five bytes of a CPONG came back (a shorter answer is a failure, whatever was left in
  the buffer); reading the answer of an HTTP back end never writes outside the line buffer of
  8192 bytes, however long the lines are.
\<close>

theorem probe_answers:
  "(ajp_handle_cping_cpong so timeout = APR_SUCCESS \<longleftrightarrow>
      so_send so cping = APR_SUCCESS \<and> so_timeout_get so = APR_SUCCESS \<and> so_timeout_reset so = APR_SUCCESS \<and>
      (\<exists>bytes. so_recv so timeout = (APR_SUCCESS, bytes) \<and> take 5 bytes = cpong)) \<and>
   read_answer (map (map (Data APR_SUCCESS)) lines) len (replicate HUGE_STRING_LEN 0) \<noteq> UB"
  using ajp_alive read_answer_no_overrun [of "replicate HUGE_STRING_LEN 0" "map (map (Data APR_SUCCESS)) lines" len]
  by (simp add: list_all_iff)

end
