(* ===== verification/Proxy_Worker.thy ===== *)
theory Proxy_Worker
  imports Context_Choice Ping_Pong
begin

unbundle bit_operations_syntax

text \<open>
  Balancers and workers of a child process, the first half of
  \<open>mod_proxy_cluster/mod_proxy_cluster.c\<close>: httpd's \<open>proxy_worker\<close> and \<open>proxy_balancer\<close> as this
  module uses them, creating workers for the nodes of the node table
  (\<open>create_worker\<close>, \<open>add_balancer_node\<close>, \<open>update_workers_node\<close>), detaching them from removed
  nodes (\<open>remove_workers_node\<close>, \<open>check_workers\<close>) and the functions the module provides to
  mod_manager (\<open>balancerhandler\<close>): \<open>proxy_node_isup\<close>, \<open>proxy_host_isup\<close>, \<open>proxy_node_getid\<close>,
  \<open>reenable_proxy_worker\<close>, \<open>proxy_node_get_free_id\<close>.

  The status block of a worker (\<open>worker->s\<close>) is a pointer: it points either to the block httpd
  allocated with the worker (\<open>helper->shared\<close>), or to the block behind a node in shared memory,
  which other processes see. Pointers to nodes and to their blocks are slot numbers here.
\<close>

section \<open>The process\<close>

datatype wref = Own | InNode int

text \<open>
  \<open>w_shared\<close> is the block \<open>helper->shared\<close> points to. Every worker has a helper: the module
  refuses to start when a balancer has members of its own (\<open>proxy_cluster_post_config\<close>).
\<close>

record pworker =
  w_s :: wref
  w_shared :: worker_shared
  count_active :: int
  hp_index :: int
  isinnodes :: bool

record pbalancer = balancer_shared +
  bal_workers :: "pworker list"
  errstatuses :: "int list"

text \<open>
  The servers with the main server first, and whether an \<open>ap_assert\<close> failed, which ends the
  process.
\<close>

record process =
  servers :: "pbalancer list list"
  aborted :: bool

text \<open>The module's static settings.\<close>

record pconf =
  creat_bal :: int
  pc_use_alias :: bool
  deterministic_failover :: bool
  use_nocanon :: bool
  responsecode_when_no_context :: int
  lbstatus_recalc_time :: apr_time
  wait_for_remove :: apr_time
  enable_options :: bool
  cache_share_for :: apr_time
  hctemplate :: "(string \<times> string) list"
  mc_thread_pool_size :: int

abbreviation (input) CREAT_ALL :: int where "CREAT_ALL \<equiv> 0"
abbreviation (input) CREAT_NONE :: int where "CREAT_NONE \<equiv> 1"
abbreviation (input) CREAT_ROOT :: int where "CREAT_ROOT \<equiv> 2"

text \<open>
  What httpd and APR provide: the searches for a balancer and for a worker by name, the
  definition and the initialisation of a worker, the health check parameters, address parsing,
  the status bits of mod_proxy, the sizes of the fields of \<open>proxy_worker_shared\<close>, the network, the
  retry of a worker in error, the lock of a balancer, the hash of a worker's name, and splitting
  and encoding URLs.
\<close>

record proxy_env =
  pe_storage :: storage
  pe_get_balancer :: "string list \<Rightarrow> string \<Rightarrow> nat option"
  pe_get_worker :: "string list \<Rightarrow> string \<Rightarrow> nat option"
  pe_define_worker :: "string \<Rightarrow> worker_shared option"
  pe_initialize_worker :: "worker_shared \<Rightarrow> apr_status \<times> worker_shared"
  pe_hc_param :: "(string \<Rightarrow> string \<Rightarrow> worker_shared \<Rightarrow> worker_shared) option"
  pe_uri_parse :: "string \<Rightarrow> (string option \<times> int) option"
  pe_uri_unparse_noport :: "string \<Rightarrow> string"
  pe_port_of_scheme :: "string \<Rightarrow> int"
  pf_initialized :: "32 word"
  pf_in_error :: "32 word"
  pf_stopped :: "32 word"
  pf_disabled :: "32 word"
  pf_standby :: "32 word"
  pf_hc_fail :: "32 word"
  pf_not_usable :: "32 word"
  pf_hc_none :: int
  pf_default_retry :: int
  sz_route :: nat
  sz_upgrade :: nat
  sz_secret :: nat
  sz_balancer_name :: nat
  sz_sticky :: nat
  pe_ssl_enable :: bool
  pe_acquire :: "worker_shared \<Rightarrow> apr_status \<times> worker_shared"
  pe_determine :: "worker_shared \<Rightarrow> string \<Rightarrow> apr_status"
  pe_connect :: "worker_shared \<Rightarrow> apr_status \<times> worker_shared"
  pe_conn_sock :: "worker_shared \<Rightarrow> sock"
  pe_connection :: "worker_shared \<Rightarrow> apr_status"
  pe_conn_http :: "worker_shared \<Rightarrow> apr_time \<Rightarrow> http_conn"
  pe_sock_create :: apr_status
  pe_sockaddr :: "string \<Rightarrow> int \<Rightarrow> apr_status"
  pe_sock_connect :: "string \<Rightarrow> int \<Rightarrow> apr_status"
  pe_host_sock :: "string \<Rightarrow> int \<Rightarrow> sock"
  pe_retry :: "worker_shared \<Rightarrow> worker_shared"
  pe_thread_lock :: apr_status
  pe_hash :: "string \<Rightarrow> 32 word \<times> 32 word"
  pe_canon_netloc :: "string \<Rightarrow> (string \<times> string) option"
  pe_canonenc :: "string \<Rightarrow> int \<Rightarrow> string option"

section \<open>Status blocks\<close>

definition set_stat :: "int \<Rightarrow> (worker_shared \<Rightarrow> worker_shared) \<Rightarrow> manager \<Rightarrow> manager" where
  [manager_defs]: "set_stat k f M = update_node_slot k (\<lambda>x. x\<lparr>stat := f (stat x)\<rparr>) M"

definition set_mess :: "int \<Rightarrow> (nodemess \<Rightarrow> nodemess) \<Rightarrow> manager \<Rightarrow> manager" where
  [manager_defs]: "set_mess k f M = update_node_slot k (\<lambda>x. x\<lparr>mess := f (mess x)\<rparr>) M"

text \<open>Reading and writing through \<open>worker->s\<close>.\<close>

definition ws :: "manager \<Rightarrow> pworker \<Rightarrow> worker_shared" where
  "ws M w = (case w_s w of Own \<Rightarrow> w_shared w | InNode k \<Rightarrow> stat (slot (nodestatsmem M) k))"

definition ws_update :: "(worker_shared \<Rightarrow> worker_shared) \<Rightarrow> pworker \<Rightarrow> manager \<Rightarrow> pworker \<times> manager" where
  "ws_update f w M =
     (case w_s w of
        Own \<Rightarrow> (w\<lparr>w_shared := f (w_shared w)\<rparr>, M)
      | InNode k \<Rightarrow> (w, set_stat k f M))"

definition worker_is_usable :: "proxy_env \<Rightarrow> worker_shared \<Rightarrow> bool" where
  "worker_is_usable E s \<longleftrightarrow> ws_status s AND pf_not_usable E = 0 \<and> ws_status s AND pf_initialized E \<noteq> 0"

section \<open>Names\<close>

definition strncasecmp0 :: "string \<Rightarrow> string \<Rightarrow> nat \<Rightarrow> bool" where
  "strncasecmp0 s t n \<longleftrightarrow> map apr_tolower (take n s) = map apr_tolower (take n t)"

text \<open>
  Zero of the C function means equal. For the address \<open>[\<close> the length \<open>strlen(ptr) - 1\<close> is the
  largest \<open>size_t\<close>, so the whole strings are compared.
\<close>

definition compare_hostname :: "string \<Rightarrow> string \<Rightarrow> bool" where
  "compare_hostname proxyhost nodehost =
     (case nodehost of
        CHR ''['' # ptr \<Rightarrow>
          (if ptr = [] then strcasecmp0 ptr proxyhost else strncasecmp0 ptr proxyhost (length ptr - 1))
      | _ \<Rightarrow> strcasecmp0 proxyhost nodehost)"

definition normalize_hostname :: "string \<Rightarrow> string" where
  "normalize_hostname hostname = map apr_tolower hostname"

definition normalize_workername :: "proxy_env \<Rightarrow> string \<Rightarrow> string option" where
  "normalize_workername E url =
     (case pe_uri_parse E url of
        Some (Some scheme, port) \<Rightarrow>
          Some (if port \<noteq> 0 \<and> port = pe_port_of_scheme E scheme then pe_uri_unparse_noport E url else url)
      | _ \<Rightarrow> None)"

definition create_worker_build_name :: "proxy_env \<Rightarrow> nodemess \<Rightarrow> string option" where
  "create_worker_build_name E n =
     (let url = Type n @ ''://'' @ normalize_hostname (Host n) @ '':'' @ Port n in
      case pe_uri_parse E url of
        Some (Some scheme, port) \<Rightarrow>
          Some (if port \<noteq> 0 \<and> port = pe_port_of_scheme E scheme
                then Type n @ ''://'' @ normalize_hostname (Host n) else url)
      | _ \<Rightarrow> None)"

definition sport :: "worker_shared \<Rightarrow> string" where
  "sport s = strcpy_n 7 (show_int (ws_port s))"

section \<open>Workers and nodes\<close>

definition is_worker_empty :: "worker_shared \<Rightarrow> bool" where
  "is_worker_empty s \<longleftrightarrow> ws_port s = 0 \<or> ws_scheme s = [] \<or> ws_hostname s = []"

definition add_hcheck :: "proxy_env \<Rightarrow> pconf \<Rightarrow> worker_shared \<Rightarrow> worker_shared" where
  "add_hcheck E C s =
     (case pe_hc_param E of None \<Rightarrow> s | Some f \<Rightarrow> fold (\<lambda>(k, v) t. f k v t) (hctemplate C) s)"

definition pair_worker_node :: "nodemess \<Rightarrow> worker_shared \<Rightarrow> worker_shared" where
  "pair_worker_node n s = s\<lparr>ws_index := n_id n\<rparr>"

definition count_workers :: "nat \<Rightarrow> nodemess \<Rightarrow> nodemess" where
  "count_workers p n = n\<lparr>has_workers := has_workers n + of_nat p\<rparr>"

definition unpair_worker_node :: "int \<Rightarrow> pworker \<Rightarrow> manager \<Rightarrow> pworker \<times> manager" where
  "unpair_worker_node node w M =
     (case ws_update (\<lambda>s. s\<lparr>ws_index := -1\<rparr>) w M of
        (w', M') \<Rightarrow> (w', set_mess node
           (\<lambda>n. if has_workers n > 0 then n\<lparr>has_workers := has_workers n - 1\<rparr> else n) M'))"

definition node_has_workers :: "nodemess \<Rightarrow> bool" where
  "node_has_workers n \<longleftrightarrow> has_workers n > 0"

text \<open>The part of the description that a worker's block takes over from its node.\<close>

definition take_description :: "proxy_env \<Rightarrow> nodemess \<Rightarrow> worker_shared \<Rightarrow> worker_shared" where
  "take_description E n s =
     s\<lparr>ws_route := strcpy_n (sz_route E) (JVMRoute n),
       ws_upgrade := strcpy_n (sz_upgrade E) (Upgrade n),
       ws_secret := strcpy_n (sz_secret E) (AJPSecret n),
       ws_response_field_size := (if ResponseFieldSize n > 0 then ResponseFieldSize n else ws_response_field_size s),
       ws_response_field_size_set := ResponseFieldSize n > 0,
       ws_redirect := []\<rparr>"

definition finish_hcheck :: "proxy_env \<Rightarrow> pconf \<Rightarrow> apr_time \<Rightarrow> worker_shared \<Rightarrow> worker_shared" where
  "finish_hcheck E C now s =
     (let s' = s\<lparr>ws_updated := now\<rparr> in if hctemplate C \<noteq> [] then add_hcheck E C s' else s')"

text \<open>
  The functions that create a worker are given the node's description \<open>n\<close> (from a copy or from
  shared memory) and the slot \<open>k\<close> of the node. They also tell how often they paired the worker
  with the node: the caller's node counts them in \<open>has_workers\<close>.
\<close>

definition create_worker_reuse ::
  "proxy_env \<Rightarrow> pconf \<Rightarrow> apr_time \<Rightarrow> int \<Rightarrow> nodemess \<Rightarrow> pworker \<Rightarrow> manager
     \<Rightarrow> apr_status \<times> pworker \<times> manager \<times> nat" where
  "create_worker_reuse E C now k n w M =
     (if hp_index w = -1 then (APR_SUCCESS, w, M, 0)
      else if hp_index w = n_id n \<and> w_s w = InNode k then
        (APR_SUCCESS, w,
         (if ws_status (stat (slot (nodestatsmem M) k)) = 0 then
            set_stat k (\<lambda>s. finish_hcheck E C now
              ((take_description E n (s\<lparr>ws_status := pf_initialized E\<rparr>))
                 \<lparr>ws_lbstatus := 0, ws_lbfactor := -1, ws_busy := 0\<rparr>)) M
          else M), 0)
      else
        let w1 = w\<lparr>w_s := InNode k, isinnodes := True, hp_index := n_id n\<rparr>;
            s1 = (stat (slot (nodestatsmem M) k))\<lparr>ws_was_malloced := False, ws_status := 0\<rparr>
        in case pe_initialize_worker E s1 of
             (rv, s2) \<Rightarrow>
               if rv \<noteq> APR_SUCCESS then (rv, w1, set_stat k (\<lambda>_. s2) M, 0)
               else (APR_SUCCESS, w1, set_stat k (\<lambda>_. finish_hcheck E C now (pair_worker_node n s2)) M, 1))"

definition create_worker_arrange_shared_mem ::
  "proxy_env \<Rightarrow> pconf \<Rightarrow> apr_time \<Rightarrow> nodemess \<Rightarrow> worker_shared \<Rightarrow> worker_shared \<Rightarrow> worker_shared" where
  "create_worker_arrange_shared_mem E C now n shared s =
     finish_hcheck E C now
       ((take_description E n (pair_worker_node n s))
          \<lparr>ws_was_malloced := False, ws_name := ws_name shared, ws_hostname := ws_hostname shared,
           ws_hostname_ex := ws_hostname_ex shared, ws_scheme := ws_scheme shared, ws_port := ws_port shared,
           ws_hmax := ws_hmax shared, ws_smax := n_smax n, ws_ttl := n_ttl n,
           ws_timeout_set := (n_timeout n \<noteq> 0 \<or> ws_timeout_set s),
           ws_timeout := (if n_timeout n \<noteq> 0 then n_timeout n else ws_timeout s),
           ws_flush_packets := flushpackets n, ws_flush_wait := flushwait n,
           ws_ping_timeout := n_ping n, ws_ping_timeout_set := True, ws_acquire_set := True,
           ws_conn_timeout_set := True, ws_conn_timeout := n_ping n, ws_keepalive := True, ws_keepalive_set := True,
           ws_is_address_reusable := True, ws_address_ttl := 60, ws_address_ttl_set := True, ws_disablereuse := False,
           ws_acquire := 2000, ws_retry := apr_time_from_sec (pf_default_retry E)\<rparr>)"

definition create_worker ::
  "proxy_env \<Rightarrow> pconf \<Rightarrow> apr_time \<Rightarrow> int \<Rightarrow> nodemess \<Rightarrow> pworker list \<Rightarrow> manager
     \<Rightarrow> apr_status \<times> pworker list \<times> manager \<times> nat" where
  "create_worker E C now k n workers M =
     (case create_worker_build_name E n of
        None \<Rightarrow> (APR_EGENERAL, workers, M, 0)
      | Some url \<Rightarrow>
          (case pe_get_worker E (map (\<lambda>w. ws_name (ws M w)) workers) url of
             Some j \<Rightarrow>
               (case create_worker_reuse E C now k n (workers ! j) M of
                  (rv, w, M', p) \<Rightarrow> (rv, workers[j := w], M', p))
           | None \<Rightarrow>
               (case pe_define_worker E url of
                  None \<Rightarrow> (APR_EGENERAL, workers, M, 0)
                | Some shared \<Rightarrow>
                    let w = \<lparr>w_s = InNode k, w_shared = shared, count_active = 0, hp_index = n_id n, isinnodes = True\<rparr>;
                        s = stat (slot (nodestatsmem M) k);
                        (s1, p) = (if ws_name s \<noteq> ws_name shared
                                   then (create_worker_arrange_shared_mem E C now n shared s, 1)
                                   else (s\<lparr>ws_was_malloced := False\<rparr>, 0));
                        (rv, s2) = pe_initialize_worker E s1
                    in if rv \<noteq> APR_SUCCESS then (rv, workers @ [w], set_stat k (\<lambda>_. s2) M, p)
                       else let s3 = pair_worker_node n s2;
                                s4 = (if ws_status s3 = 0
                                      then s3\<lparr>ws_status := pf_initialized E, ws_redirect := [], ws_lbstatus := 0,
                                              ws_lbfactor := -1, ws_busy := 0\<rparr>
                                      else s3)
                            in (APR_SUCCESS, workers @ [w], set_stat k (\<lambda>_. s4) M, p + 1))))"

section \<open>Balancers\<close>

definition MC_STICKY :: string where "MC_STICKY = ''MC''"
definition MC_NOT_STICKY :: string where "MC_NOT_STICKY = ''MC_NS''"
definition MC_REMOVE_SESSION :: string where "MC_REMOVE_SESSION = ''MC_R''"
definition MC_NO_FAILOVER :: string where "MC_NO_FAILOVER = ''MC_NF''"

definition read_balancer_name :: "storage \<Rightarrow> manager \<Rightarrow> string \<Rightarrow> balancerinfo option" where
  "read_balancer_name S M name =
     (if loc_get_max_size_balancer S M = 0 then None
      else find (\<lambda>b. b_balancer b = name)
             (map (slot (balancerstatsmem M)) (loc_get_ids_used_balancer S M)))"

definition zero_balancer :: "string \<Rightarrow> pbalancer" where
  "zero_balancer name = \<lparr>bs_name = name, bs_lbpname = [], bs_sticky = [], bs_sticky_path = [], bs_sticky_force = False,
     bs_sticky_force_set = False, bs_timeout = 0, bs_max_attempts = 0, bs_max_attempts_set = False,
     bal_workers = [], errstatuses = []\<rparr>"

text \<open>The settings of a balancer without workers are those of the balancer table.\<close>

definition balancer_settings :: "proxy_env \<Rightarrow> balancerinfo \<Rightarrow> pbalancer \<Rightarrow> pbalancer" where
  "balancer_settings E i b =
     b\<lparr>bs_lbpname := (if StickySessionForce i \<noteq> 0 then MC_NO_FAILOVER
                      else if StickySessionRemove i \<noteq> 0 then MC_REMOVE_SESSION
                      else if StickySession i \<noteq> 0 then MC_STICKY else MC_NOT_STICKY),
       bs_sticky := strcpy_n (sz_sticky E) (StickySessionCookie i),
       bs_sticky_path := strcpy_n (sz_sticky E) (StickySessionPath i),
       bs_sticky_force := (StickySessionForce i \<noteq> 0 \<or> bs_sticky_force b),
       bs_sticky_force_set := (StickySessionForce i \<noteq> 0 \<or> bs_sticky_force_set b),
       bs_timeout := b_Timeout i, bs_max_attempts := Maxattempts i, bs_max_attempts_set := True\<rparr>"

text \<open>
  The position of the balancer is returned. A balancer name has less than 40 characters, which
  fits httpd's buffer with the prefix, so a new balancer is never given up.
\<close>

definition add_balancer_node :: "proxy_env \<Rightarrow> nodemess \<Rightarrow> pbalancer list \<Rightarrow> manager \<Rightarrow> pbalancer list \<times> nat" where
  "add_balancer_node E n bals M =
     (let name = BALANCER_PREFIX @ n_balancer n;
          (bals1, j) = (case pe_get_balancer E (map bs_name bals) name of
                          Some j \<Rightarrow> (bals, j)
                        | None \<Rightarrow> (bals @ [zero_balancer (strcpy_n (sz_balancer_name E) name)], length bals))
      in if bal_workers (bals1 ! j) = [] then
           (case read_balancer_name (pe_storage E) M (drop BALANCER_PREFIX_LENGTH (bs_name (bals1 ! j))) of
              None \<Rightarrow> (bals1, j)
            | Some i \<Rightarrow> (bals1[j := balancer_settings E i (bals1 ! j)], j))
         else (bals1, j))"

text \<open>The tests of \<open>reuse_balancer\<close> that change the method name, in their order.\<close>

definition reuse_lbpname :: "balancerinfo \<Rightarrow> bool \<Rightarrow> string \<Rightarrow> string" where
  "reuse_lbpname i force0 name0 =
     (let force = StickySessionForce i \<noteq> 0;
          n1 = (if \<not> strncmp0 name0 ''MC'' 2 then MC_STICKY else name0);
          n2 = (if force \<and> \<not> force0 then MC_NO_FAILOVER else n1);
          n3 = (if \<not> force \<and> force0 then MC_STICKY else n2);
          n4 = (if force \<and> n3 \<noteq> MC_NO_FAILOVER then MC_NO_FAILOVER else n3);
          n5 = (if StickySessionRemove i \<noteq> 0 \<and> n4 \<noteq> MC_REMOVE_SESSION then MC_REMOVE_SESSION else n4)
      in if StickySession i = 0 \<and> n5 \<noteq> MC_NOT_STICKY then MC_NOT_STICKY else n5)"

definition reuse_balancer :: "proxy_env \<Rightarrow> manager \<Rightarrow> pbalancer \<Rightarrow> pbalancer" where
  "reuse_balancer E M b =
     (case read_balancer_name (pe_storage E) M (drop BALANCER_PREFIX_LENGTH (bs_name b)) of
        None \<Rightarrow> b
      | Some i \<Rightarrow>
          b\<lparr>bs_lbpname := reuse_lbpname i (bs_sticky_force b) (bs_lbpname b),
            bs_sticky_force := (StickySessionForce i \<noteq> 0),
            bs_sticky_force_set := (bs_sticky_force_set b \<or> StickySessionForce i \<noteq> 0 \<and> \<not> bs_sticky_force b),
            bs_sticky := (if StickySessionCookie i \<noteq> bs_sticky b
                          then strcpy_n (sz_sticky E) (StickySessionCookie i) else bs_sticky b),
            bs_sticky_path := (if StickySessionPath i \<noteq> bs_sticky_path b
                               then strcpy_n (sz_sticky E) (StickySessionPath i) else bs_sticky_path b),
            bs_timeout := b_Timeout i, bs_max_attempts := Maxattempts i, bs_max_attempts_set := True\<rparr>)"

definition add_balancers_workers_for_server ::
  "proxy_env \<Rightarrow> pconf \<Rightarrow> apr_time \<Rightarrow> int \<Rightarrow> nodemess \<Rightarrow> bool \<Rightarrow> pbalancer list \<Rightarrow> manager
     \<Rightarrow> pbalancer list \<times> manager \<times> nat" where
  "add_balancers_workers_for_server E C now k n is_main bals M =
     (let found = pe_get_balancer E (map bs_name bals) (BALANCER_PREFIX @ n_balancer n) in
      if found = None \<and> (creat_bal C = CREAT_NONE \<or> creat_bal C = CREAT_ROOT \<and> \<not> is_main) then (bals, M, 0)
      else
        let (bals1, j) = (case found of
                            None \<Rightarrow> add_balancer_node E n bals M
                          | Some j \<Rightarrow> (bals[j := reuse_balancer E M (bals ! j)], j))
        in case create_worker E C now k n (bal_workers (bals1 ! j)) M of
             (rv, workers, M', p) \<Rightarrow> (bals1[j := (bals1 ! j)\<lparr>bal_workers := workers\<rparr>], M', p))"

fun add_to_servers ::
  "proxy_env \<Rightarrow> pconf \<Rightarrow> apr_time \<Rightarrow> int \<Rightarrow> bool \<Rightarrow> pbalancer list list \<Rightarrow> manager \<Rightarrow> pbalancer list list \<times> manager" where
  "add_to_servers E C now k is_main [] M = ([], M)"
| "add_to_servers E C now k is_main (bals # rest) M =
     (case add_balancers_workers_for_server E C now k (mess (slot (nodestatsmem M) k)) is_main bals M of
        (bals', M1, p) \<Rightarrow>
          (case add_to_servers E C now k False rest (set_mess k (count_workers p) M1) of
             (rest', M2) \<Rightarrow> (bals' # rest', M2)))"

text \<open>Here the node is the one in shared memory, which counts the pairings.\<close>

definition add_balancers_workers ::
  "proxy_env \<Rightarrow> pconf \<Rightarrow> apr_time \<Rightarrow> int \<Rightarrow> process \<Rightarrow> manager \<Rightarrow> process \<times> manager" where
  "add_balancers_workers E C now k Q M =
     (case add_to_servers E C now k True (servers Q) M of (sv, M') \<Rightarrow> (Q\<lparr>servers := sv\<rparr>, M'))"

text \<open>
  Here the node is a row of a copy of the node table; the pairings are counted in the copy,
  which nobody reads.
\<close>

fun update_rows ::
  "proxy_env \<Rightarrow> pconf \<Rightarrow> apr_time \<Rightarrow> bool \<Rightarrow> (nodeinfo \<times> int option) list \<Rightarrow> pbalancer list \<Rightarrow> manager
     \<Rightarrow> pbalancer list \<times> manager" where
  "update_rows E C now is_main [] bals M = (bals, M)"
| "update_rows E C now is_main ((ou, ptr) # rows) bals M =
     (case ptr of
        Some k \<Rightarrow>
          (if n_remove (mess ou) \<noteq> 0 then update_rows E C now is_main rows bals M
           else (case add_balancers_workers_for_server E C now k (mess ou) is_main bals M of
                   (bals', M', _) \<Rightarrow> update_rows E C now is_main rows bals' M'))
      | None \<Rightarrow> update_rows E C now is_main rows bals M)"

definition update_workers_node ::
  "proxy_env \<Rightarrow> pconf \<Rightarrow> apr_time \<Rightarrow> bool \<Rightarrow> bool \<Rightarrow> proxy_node_table option \<Rightarrow> pbalancer list \<Rightarrow> manager
     \<Rightarrow> pbalancer list \<times> manager" where
  "update_workers_node E C now is_main check table bals M =
     (case table of
        None \<Rightarrow> (bals, M)
      | Some nt \<Rightarrow>
          if check \<and> loc_worker_nodes_need_update (pe_storage E) M = 0 then (bals, M)
          else update_rows E C now is_main (zip (tc_info nt) (ptr_node nt)) bals M)"

section \<open>Finding, checking and detaching workers\<close>

text \<open>
  The walk stops at the worker with the wanted number and block; on its way it takes every
  other worker with that number off the node. A worker whose block is blank counts as none.
\<close>

fun worker_from_id ::
  "int \<Rightarrow> int \<Rightarrow> int \<Rightarrow> pworker list \<Rightarrow> manager \<Rightarrow> nat option option \<times> pworker list \<times> manager" where
  "worker_from_id i k node [] M = (None, [], M)"
| "worker_from_id i k node (w # workers) M =
     (if w_s w = InNode k \<and> hp_index w = i
      then (Some (if is_worker_empty (ws M w) then None else Some 0), w # workers, M)
      else
        let (w1, M1) = (if hp_index w = i then unpair_worker_node node w M else (w, M)) in
        case worker_from_id i k node workers M1 of
          (found, workers', M2) \<Rightarrow> (map_option (map_option Suc) found, w1 # workers', M2))"

fun get_worker_from_id_stat ::
  "int \<Rightarrow> int \<Rightarrow> int \<Rightarrow> pbalancer list \<Rightarrow> manager \<Rightarrow> (nat \<times> nat) option option \<times> pbalancer list \<times> manager" where
  "get_worker_from_id_stat i k node [] M = (None, [], M)"
| "get_worker_from_id_stat i k node (b # bals) M =
     (case worker_from_id i k node (bal_workers b) M of
        (found, workers, M1) \<Rightarrow>
          let b1 = b\<lparr>bal_workers := workers\<rparr> in
          (case found of
             Some j \<Rightarrow> (Some (map_option (Pair 0) j), b1 # bals, M1)
           | None \<Rightarrow>
               (case get_worker_from_id_stat i k node bals M1 of
                  (found', bals', M2) \<Rightarrow> (map_option (map_option (\<lambda>(bi, wi). (Suc bi, wi))) found', b1 # bals', M2))))"

definition the_worker :: "(nat \<times> nat) option option \<Rightarrow> (nat \<times> nat) option" where
  "the_worker found = Option.bind found id"

abbreviation worker_at :: "pbalancer list \<Rightarrow> nat \<times> nat \<Rightarrow> pworker" where
  "worker_at bals p \<equiv> bal_workers (bals ! fst p) ! snd p"

definition set_worker_at :: "nat \<times> nat \<Rightarrow> pworker \<Rightarrow> pbalancer list \<Rightarrow> pbalancer list" where
  "set_worker_at p w bals =
     bals[fst p := (bals ! fst p)\<lparr>bal_workers := (bal_workers (bals ! fst p))[snd p := w]\<rparr>]"

definition stop_hcheck :: "proxy_env \<Rightarrow> pconf \<Rightarrow> worker_shared \<Rightarrow> worker_shared" where
  "stop_hcheck E C s =
     (if hctemplate C \<noteq> [] then s\<lparr>ws_method := pf_hc_none E, ws_updated := 0, ws_status := ws_status s OR pf_stopped E\<rparr>
      else s)"

text \<open>\<open>worker_stop_hcheck\<close> and the same lines of \<open>check_workers\<close>, on a worker that has its own block again.\<close>

definition worker_stop_hcheck :: "proxy_env \<Rightarrow> pconf \<Rightarrow> pworker \<Rightarrow> pworker" where
  "worker_stop_hcheck E C w = w\<lparr>w_shared := stop_hcheck E C (w_shared w)\<rparr>"

text \<open>Detaching fails an \<open>ap_assert\<close> when the worker's own block has no port.\<close>

definition check_worker :: "proxy_env \<Rightarrow> pconf \<Rightarrow> manager \<Rightarrow> pworker \<Rightarrow> pworker \<times> bool" where
  "check_worker E C M w =
     (let s = ws M w; own = w_shared w in
      if is_worker_empty s \<or> ws_port s \<noteq> ws_port own \<or> ws_scheme s \<noteq> ws_scheme own \<or> ws_hostname s \<noteq> ws_hostname own
      then (worker_stop_hcheck E C (w\<lparr>count_active := 0, w_s := Own, isinnodes := False\<rparr>), ws_port own = 0)
      else (w, False))"

definition check_workers :: "proxy_env \<Rightarrow> pconf \<Rightarrow> manager \<Rightarrow> pbalancer list \<Rightarrow> pbalancer list \<times> bool" where
  "check_workers E C M bals =
     (map (\<lambda>b. b\<lparr>bal_workers := map (fst \<circ> check_worker E C M) (bal_workers b)\<rparr>) bals,
      \<exists>b \<in> set bals. \<exists>w \<in> set (bal_workers b). snd (check_worker E C M w))"

definition remove_workers_node ::
  "proxy_env \<Rightarrow> pconf \<Rightarrow> apr_time \<Rightarrow> int \<Rightarrow> pbalancer list \<Rightarrow> manager \<Rightarrow> pbalancer list \<times> manager \<times> bool" where
  "remove_workers_node E C now k bals M =
     (case get_worker_from_id_stat (n_id (mess (slot (nodestatsmem M) k))) k k bals M of
        (found, bals1, M1) \<Rightarrow>
          (case the_worker found of
             None \<Rightarrow> (bals1, M1, False)
           | Some p \<Rightarrow>
               let M2 = set_stat k (\<lambda>s. s\<lparr>ws_status := ws_status s OR pf_in_error E\<rparr>) M1;
                   w = worker_at bals1 p
               in if count_active w \<noteq> 0
                  then (bals1, set_mess k (\<lambda>n. n\<lparr>lastcleantry := now\<rparr>) M2, False)
                  else
                    let w1 = w\<lparr>w_s := Own, isinnodes := False,
                               w_shared := (w_shared w)\<lparr>ws_index := ws_index (stat (slot (nodestatsmem M2) k))\<rparr>\<rparr>
                    in (set_worker_at p (worker_stop_hcheck E C w1) bals1, M2, ws_port (w_shared w1) = 0)))"

fun remove_rows ::
  "proxy_env \<Rightarrow> pconf \<Rightarrow> apr_time \<Rightarrow> int list \<Rightarrow> pbalancer list \<Rightarrow> manager \<Rightarrow> pbalancer list \<times> manager \<times> bool" where
  "remove_rows E C now [] bals M = (bals, M, False)"
| "remove_rows E C now (i # is) bals M =
     (if mgr_read_node (pe_storage E) M i \<noteq> APR_SUCCESS \<or> n_remove (mess (slot (nodestatsmem M) i)) = 0
      then remove_rows E C now is bals M
      else (case remove_workers_node E C now i bals M of
              (bals1, M1, a) \<Rightarrow> (case remove_rows E C now is bals1 M1 of (bals2, M2, a') \<Rightarrow> (bals2, M2, a \<or> a'))))"

definition remove_workers_nodes ::
  "proxy_env \<Rightarrow> pconf \<Rightarrow> apr_time \<Rightarrow> pbalancer list \<Rightarrow> manager \<Rightarrow> pbalancer list \<times> manager \<times> bool" where
  "remove_workers_nodes E C now bals M =
     (if loc_get_max_size_node (pe_storage E) M = 0 then (bals, M, False)
      else remove_rows E C now (loc_get_ids_used_node (pe_storage E) M) bals M)"

section \<open>What creating workers changes of the manager\<close>

lemma same_desc_trans:
  assumes "same_desc x y" and "same_desc y z"
  shows "same_desc x z"
proof -
  have "mess z = (mess y)\<lparr>has_workers := has_workers (mess z)\<rparr>"
    and "mess y = (mess x)\<lparr>has_workers := has_workers (mess y)\<rparr>" using assms by (simp_all add: same_desc_def)
  then have "mess z = ((mess x)\<lparr>has_workers := has_workers (mess y)\<rparr>)\<lparr>has_workers := has_workers (mess z)\<rparr>" by simp
  then show ?thesis by (simp add: same_desc_def)
qed

lemma worker_only_trans [trans]:
  assumes "worker_only M M'" and "worker_only M' M''"
  shows "worker_only M M''"
proof -
  have "M'' = M'\<lparr>nodestatsmem := nodestatsmem M''\<rparr>" and "M' = M\<lparr>nodestatsmem := nodestatsmem M'\<rparr>"
    using assms by (simp_all add: worker_only_def)
  then have "M'' = M\<lparr>nodestatsmem := nodestatsmem M''\<rparr>" by (metis manager.cases manager.update_convs(1))
  moreover have "list_all2 same_desc (items (nodestatsmem M)) (items (nodestatsmem M''))"
    using assms by (auto simp: worker_only_def intro: list_all2_trans [OF same_desc_trans])
  ultimately show ?thesis using assms by (simp add: worker_only_def)
qed

lemma worker_only_slot_update:
  assumes f: "\<And>x. same_desc x (f x)"
  shows "worker_only M (update_node_slot k f M)"
proof -
  have "same_desc (xs ! i) (xs[j := f (xs ! j)] ! i)" if "i < length xs" for xs i j
    using f that by (cases "i = j") (simp_all add: same_desc_def)
  then show ?thesis
    by (simp add: worker_only_def update_node_slot_def store_def slot_def list_all2_conv_all_nth)
qed

lemma worker_only_stat [simp]: "worker_only M (set_stat k f M)"
  unfolding set_stat_def by (rule worker_only_slot_update) (simp add: same_desc_def)

lemma worker_only_count [simp]: "worker_only M (set_mess k (count_workers p) M)"
  unfolding set_mess_def by (rule worker_only_slot_update) (simp add: same_desc_def count_workers_def)

lemma worker_only_locked:
  "worker_only (loc_lock_nodes M) M' \<Longrightarrow> worker_only M (loc_unlock_nodes M')"
  by (cases M; cases M') (simp add: worker_only_def manager_defs)

lemma create_worker_only: "create_worker E C now k n workers M = (rv, workers', M', p) \<Longrightarrow> worker_only M M'"
  by (auto simp: create_worker_def create_worker_reuse_def Let_def split: option.splits if_splits prod.splits)

lemma add_for_server_only:
  "add_balancers_workers_for_server E C now k n main bals M = (bals', M', p) \<Longrightarrow> worker_only M M'"
  by (auto simp: add_balancers_workers_for_server_def Let_def split: if_splits prod.splits dest: create_worker_only)

lemma add_to_servers_only: "add_to_servers E C now k main bs M = (bs', M') \<Longrightarrow> worker_only M M'"
proof (induction bs arbitrary: main M bs')
  case (Cons bals rest)
  obtain bals1 M1 p rest' where
    1: "add_balancers_workers_for_server E C now k (mess (slot (nodestatsmem M) k)) main bals M = (bals1, M1, p)"
    and 2: "add_to_servers E C now k False rest (set_mess k (count_workers p) M1) = (rest', M')"
    using Cons.prems by (auto split: prod.splits)
  have "worker_only M M1" using 1 by (rule add_for_server_only)
  also have "worker_only M1 (set_mess k (count_workers p) M1)" by simp
  also have "worker_only \<dots> M'" using 2 by (rule Cons.IH)
  finally show ?case .
qed simp

lemma add_balancers_workers_only: "add_balancers_workers E C now k Q M = (Q', M') \<Longrightarrow> worker_only M M'"
  by (auto simp: add_balancers_workers_def split: prod.splits dest: add_to_servers_only)

lemma update_rows_only: "update_rows E C now main rows bals M = (bals', M') \<Longrightarrow> worker_only M M'"
proof (induction rows arbitrary: bals M)
  case (Cons r rows)
  show ?case
  proof (cases "snd r = None \<or> n_remove (mess (fst r)) \<noteq> 0")
    case True
    then show ?thesis using Cons by (cases r) (auto split: option.splits)
  next
    case False
    then obtain k bals1 M1 p where
      "add_balancers_workers_for_server E C now k (mess (fst r)) main bals M = (bals1, M1, p)"
      and "update_rows E C now main rows bals1 M1 = (bals', M')"
      using Cons.prems by (cases r) (auto split: prod.splits)
    then show ?thesis using Cons.IH add_for_server_only worker_only_trans by blast
  qed
qed simp

lemma update_workers_node_only: "update_workers_node E C now main check t bals M = (bals', M') \<Longrightarrow> worker_only M M'"
  by (auto simp: update_workers_node_def split: option.splits if_splits dest: update_rows_only)

lemma ws_update_only: "ws_update f w M = (w', M') \<Longrightarrow> worker_only M M'"
  by (auto simp: ws_update_def split: wref.splits)

lemma unpair_only: "unpair_worker_node k w M = (w', M') \<Longrightarrow> worker_only M M'"
proof -
  have "worker_only M2 (set_mess k (\<lambda>n. if has_workers n > 0 then n\<lparr>has_workers := has_workers n - 1\<rparr> else n) M2)" for M2
    unfolding set_mess_def by (rule worker_only_slot_update) (simp add: same_desc_def)
  then show "unpair_worker_node k w M = (w', M') \<Longrightarrow> ?thesis"
    by (auto simp: unpair_worker_node_def split: prod.splits dest!: ws_update_only intro: worker_only_trans)
qed

lemma worker_from_id_only: "worker_from_id i k node workers M = (found, workers', M') \<Longrightarrow> worker_only M M'"
proof (induction workers arbitrary: M found workers')
  case (Cons w workers)
  show ?case
  proof (cases "w_s w = InNode k \<and> hp_index w = i")
    case False
    then obtain w1 M1 found1 workers1 where
      1: "(if hp_index w = i then unpair_worker_node node w M else (w, M)) = (w1, M1)"
      and 2: "worker_from_id i k node workers M1 = (found1, workers1, M')"
      using Cons.prems by (auto simp: Let_def split: prod.splits)
    have "worker_only M M1" using 1 by (auto split: if_splits dest: unpair_only)
    with Cons.IH [OF 2] show ?thesis by (blast intro: worker_only_trans)
  qed (use Cons.prems in simp)
qed simp

lemma get_worker_from_id_stat_only:
  "get_worker_from_id_stat i k node bals M = (found, bals', M') \<Longrightarrow> worker_only M M'"
  by (induction i k node bals M arbitrary: found bals' M' rule: get_worker_from_id_stat.induct)
    (auto simp: Let_def split: prod.splits option.splits dest!: worker_from_id_only intro: worker_only_trans)

lemma set_stat_slot:
  "nat k < length (items (nodestatsmem M)) \<Longrightarrow> stat (slot (nodestatsmem (set_stat k f M)) k) = f (stat (slot (nodestatsmem M) k))"
  by (simp add: set_stat_def update_node_slot_def slot_def store_def)

lemma worker_only_length: "worker_only M M' \<Longrightarrow> length (items (nodestatsmem M')) = length (items (nodestatsmem M))"
  by (auto simp: worker_only_def dest: list_all2_lengthD)

end
