(* ===== verification/Balancer_Provider.thy ===== *)
theory Balancer_Provider
  imports Manager_Handler Proxy_Worker
begin

unbundle bit_operations_syntax

text \<open>
  The functions \<open>mod_proxy_cluster/mod_proxy_cluster.c\<close> provides to mod_manager
  (\<open>balancerhandler\<close>): bringing a node up with its load (\<open>proxy_node_isup\<close>), probing an address
  (\<open>proxy_host_isup\<close>), finding the worker of an address (\<open>proxy_node_getid\<close>), re-enabling a worker
  (\<open>reenable_proxy_worker\<close>) and choosing a slot for a new node (\<open>proxy_node_get_free_id\<close>). They
  meet the contract \<open>balancer_provider\<close> that mod_manager's commands are verified against.
\<close>

section \<open>Load and liveness of a node\<close>

definition set_worker_load :: "proxy_env \<Rightarrow> int \<Rightarrow> worker_shared \<Rightarrow> worker_shared" where
  "set_worker_load E load s =
     (if load < -1 \<or> load > 100 then s
      else if load = -1 then s\<lparr>ws_status := ws_status s OR pf_in_error E, ws_lbfactor := load\<rparr>
      else if load = 0 then
        s\<lparr>ws_status := (ws_status s AND NOT (pf_in_error E)) OR pf_standby E, ws_lbfactor := load\<rparr>
      else s\<lparr>ws_status := ws_status s AND NOT (pf_in_error E) AND NOT (pf_stopped E) AND NOT (pf_disabled E)
                            AND NOT (pf_standby E), ws_lbfactor := load\<rparr>)"

definition proxy_cluster_try_pingpong ::
  "proxy_env \<Rightarrow> pconf \<Rightarrow> string \<Rightarrow> worker_shared \<Rightarrow> apr_status \<times> worker_shared" where
  "proxy_cluster_try_pingpong E C url s =
     (let scheme = ws_scheme s in
      if (strcasecmp0 scheme ''HTTPS'' \<or> strcasecmp0 scheme ''WSS'' \<or> strcasecmp0 scheme ''WS'' \<or> strcasecmp0 scheme ''HTTP'') \<and>
         \<not> enable_options C
      then (APR_SUCCESS, s)
      else if (strcasecmp0 scheme ''HTTPS'' \<or> strcasecmp0 scheme ''WSS'') \<and> \<not> pe_ssl_enable E then (APR_EGENERAL, s)
      else
        case pe_acquire E s of
          (status, s1) \<Rightarrow>
            if status \<noteq> APR_SUCCESS then (status, s1)
            else if pe_determine E s1 url \<noteq> APR_SUCCESS then (pe_determine E s1 url, s1)
            else
              let timeout = (if ws_ping_timeout s1 \<le> 0 then apr_time_from_sec 10 else ws_ping_timeout s1) in
              case pe_connect E s1 of
                (status, s2) \<Rightarrow>
                  if status \<noteq> APR_SUCCESS then (status, s2)
                  else if strcasecmp0 scheme ''AJP'' then (ajp_handle_cping_cpong (pe_conn_sock E s2) timeout, s2)
                  else if pe_connection E s2 \<noteq> APR_SUCCESS then (pe_connection E s2, s2)
                  else (http_handle_ping_pong (pe_conn_http E s2 timeout), s2))"

definition node_url :: "worker_shared \<Rightarrow> string" where
  "node_url s =
     (if CHR '':'' \<in> set (ws_hostname s) then ws_scheme s @ ''://['' @ ws_hostname s @ '']:'' @ sport s @ ''/''
      else ws_scheme s @ ''://'' @ ws_hostname s @ '':'' @ sport s @ ''/'')"

text \<open>The search through the servers, under the lock each time.\<close>

fun search_servers ::
  "int \<Rightarrow> int \<Rightarrow> pbalancer list list \<Rightarrow> manager \<Rightarrow> bool \<times> pbalancer list list \<times> manager" where
  "search_servers i k [] M = (False, [], M)"
| "search_servers i k (bals # rest) M =
     (case get_worker_from_id_stat i k k bals (loc_lock_nodes M) of
        (found, bals', M1) \<Rightarrow>
          if the_worker found \<noteq> None then (True, bals' # rest, loc_unlock_nodes M1)
          else (case search_servers i k rest (loc_unlock_nodes M1) of (f, rest', M2) \<Rightarrow> (f, bals' # rest', M2)))"

text \<open>Probing the node whose status block is that of slot \<open>k\<close>, and whether it answered.\<close>

definition node_probe :: "proxy_env \<Rightarrow> pconf \<Rightarrow> int \<Rightarrow> int \<Rightarrow> manager \<Rightarrow> bool \<times> manager" where
  "node_probe E C k load M =
     (if load \<ge> 0 \<or> load = -2 then
        if hctemplate C \<noteq> [] then (ws_status (stat (slot (nodestatsmem M) k)) AND pf_not_usable E = 0, M)
        else
          let s = (stat (slot (nodestatsmem M) k))\<lparr>ws_error_time := 0\<rparr> in
          case proxy_cluster_try_pingpong E C (node_url s) s of
            (rv, s') \<Rightarrow>
              if rv \<noteq> APR_SUCCESS then (False, set_stat k (\<lambda>_. s'\<lparr>ws_status := ws_status s' OR pf_in_error E\<rparr>) M)
              else (True, set_stat k (\<lambda>_. s') M)
      else (True, M))"

text \<open>
  The node of number \<open>i\<close> is the record in slot \<open>i\<close>. The worker found is attached to its block, so
  what the source writes through \<open>worker->s\<close> is written there.
\<close>

definition proxy_node_isup ::
  "proxy_env \<Rightarrow> pconf \<Rightarrow> apr_time \<Rightarrow> process \<Rightarrow> manager \<Rightarrow> int \<Rightarrow> int \<Rightarrow> int \<times> process \<times> manager" where
  "proxy_node_isup E C now Q M i load =
     (if mgr_read_node (pe_storage E) M i \<noteq> APR_SUCCESS then (HTTP_INTERNAL_SERVER_ERROR, Q, M)
      else if n_remove (mess (slot (nodestatsmem M) i)) \<noteq> 0 then (HTTP_INTERNAL_SERVER_ERROR, Q, M)
      else
        case add_balancers_workers E C now i Q (loc_lock_nodes M) of
          (Q1, M1) \<Rightarrow>
            case search_servers i i (servers Q1) (loc_unlock_nodes M1) of
              (found, sv, M2) \<Rightarrow>
                let Q2 = Q1\<lparr>servers := sv\<rparr> in
                if \<not> found then (HTTP_INTERNAL_SERVER_ERROR, Q2, M2)
                else case node_probe E C i load M2 of
                       (alive, M3) \<Rightarrow>
                         if \<not> alive then (HTTP_INTERNAL_SERVER_ERROR, Q2, M3)
                         else (0, Q2, set_stat i (set_worker_load E load) M3))"

definition all_workers :: "process \<Rightarrow> pworker list" where
  "all_workers Q = concat (map (\<lambda>b. bal_workers b) (concat (servers Q)))"

definition http_like :: "string \<Rightarrow> bool" where
  "http_like scheme \<longleftrightarrow> strncasecmp0 scheme ''HTTP'' 4 \<or> strncasecmp0 scheme ''WS'' 2"

definition proxy_host_isup ::
  "proxy_env \<Rightarrow> pconf \<Rightarrow> process \<Rightarrow> manager \<Rightarrow> string \<Rightarrow> string \<Rightarrow> string \<Rightarrow> int" where
  "proxy_host_isup E C Q M scheme host port =
     (let nport = atoi port in
      if strcasecmp0 scheme ''AJP'' then
        if pe_sock_create E \<noteq> APR_SUCCESS \<or> pe_sockaddr E host nport \<noteq> APR_SUCCESS \<or>
           pe_sock_connect E host nport \<noteq> APR_SUCCESS \<or>
           ajp_handle_cping_cpong (pe_host_sock E host nport) (apr_time_from_sec 10) \<noteq> APR_SUCCESS
        then HTTP_INTERNAL_SERVER_ERROR else 0
      else if http_like scheme then
        (case find (\<lambda>w. ws_port (ws M w) = nport \<and> http_like (ws_scheme (ws M w)) \<and>
                        compare_hostname (ws_hostname (ws M w)) host) (all_workers Q) of
           None \<Rightarrow> HTTP_INTERNAL_SERVER_ERROR
         | Some w \<Rightarrow>
             (case normalize_workername E (ws_scheme (ws M w) @ ''://'' @ host @ '':'' @ port) of
                None \<Rightarrow> HTTP_INTERNAL_SERVER_ERROR
              | Some url \<Rightarrow> if fst (proxy_cluster_try_pingpong E C url (ws M w)) \<noteq> APR_SUCCESS
                            then HTTP_INTERNAL_SERVER_ERROR else 0))
      else 0)"

section \<open>Numbers of workers\<close>

text \<open>The worker is given by its server, its balancer and its place there.\<close>

fun searchworker ::
  "proxy_env \<Rightarrow> string \<Rightarrow> string \<Rightarrow> pbalancer list list \<Rightarrow> manager \<Rightarrow> (pworker \<times> int) option" where
  "searchworker E bal url [] M = None"
| "searchworker E bal url (bals # rest) M =
     (case pe_get_balancer E (map bs_name bals) bal of
        None \<Rightarrow> searchworker E bal url rest M
      | Some j \<Rightarrow>
          (case pe_get_worker E (map (\<lambda>w. ws_name (ws M w)) (bal_workers (bals ! j))) url of
             None \<Rightarrow> searchworker E bal url rest M
           | Some p \<Rightarrow>
               let w = bal_workers (bals ! j) ! p in
               Some (w, if ws_index (ws M w) \<noteq> -1 then ws_index (ws M w)
                        else if hp_index w \<noteq> -1 then hp_index w
                        else ws_index (w_shared w))))"

definition proxy_node_getid ::
  "proxy_env \<Rightarrow> process \<Rightarrow> manager \<Rightarrow> string \<Rightarrow> string \<Rightarrow> string \<Rightarrow> string \<Rightarrow> (worker_shared \<times> int) option" where
  "proxy_node_getid E Q M bal scheme host port =
     (let url = scheme @ ''://'' @ host @ '':'' @ port in
      if normalize_workername E url = None then None
      else map_option (\<lambda>(w, i). (ws M w, i)) (searchworker E (BALANCER_PREFIX @ bal) url (servers Q) M))"

text \<open>The array \<open>ids\<close>; marking a number outside it is undefined behaviour, \<open>None\<close>.\<close>

fun mark_ids :: "int list \<Rightarrow> bool list \<Rightarrow> bool list option" where
  "mark_ids [] ids = Some ids"
| "mark_ids (i # is) ids = (if 0 \<le> i \<and> i < int (length ids) then mark_ids is (ids[nat i := True]) else None)"

definition worker_ids :: "nat \<Rightarrow> manager \<Rightarrow> pworker \<Rightarrow> int list" where
  "worker_ids node_table_size M w =
     (if ws_index (ws M w) \<ge> int node_table_size then []
      else filter (\<lambda>i. i \<noteq> -1) [ws_index (ws M w), hp_index w])"

definition taken_ids :: "storage \<Rightarrow> process \<Rightarrow> manager \<Rightarrow> nat \<Rightarrow> int list" where
  "taken_ids S Q M node_table_size =
     loc_get_ids_used_node S M @ concat (map (worker_ids node_table_size M) (all_workers Q))"

definition proxy_node_get_free_id :: "storage \<Rightarrow> process \<Rightarrow> manager \<Rightarrow> nat \<Rightarrow> int option" where
  "proxy_node_get_free_id S Q M node_table_size =
     map_option (\<lambda>ids. case find (\<lambda>i. \<not> ids ! i) [0..<node_table_size] of Some i \<Rightarrow> int i | None \<Rightarrow> -1)
       (mark_ids (taken_ids S Q M node_table_size) (replicate node_table_size False))"

definition init_proxy_worker :: "proxy_env \<Rightarrow> pconf \<Rightarrow> apr_time \<Rightarrow> nodemess \<Rightarrow> worker_shared \<Rightarrow> worker_shared" where
  "init_proxy_worker E C now n s =
     finish_hcheck E C now (pair_worker_node n
       ((take_description E n (s\<lparr>ws_status := pf_initialized E\<rparr>))\<lparr>ws_lbstatus := 0, ws_lbfactor := -1, ws_busy := 0\<rparr>))"

definition reenable_proxy_worker ::
  "proxy_env \<Rightarrow> pconf \<Rightarrow> apr_time \<Rightarrow> int \<Rightarrow> nodemess \<Rightarrow> pworker \<Rightarrow> manager \<Rightarrow> pworker \<times> manager" where
  "reenable_proxy_worker E C now k n w M =
     (w\<lparr>count_active := 0, isinnodes := True, w_s := InNode k\<rparr>, set_stat k (init_proxy_worker E C now n) M)"

text \<open>
  The provider as mod_manager sees it during a request. The process-local part of the effects
  stays in the process. A number outside the array of \<open>proxy_node_get_free_id\<close> has no meaning;
  it is answered like a full table here.
\<close>

definition balancerhandler :: "proxy_env \<Rightarrow> pconf \<Rightarrow> apr_time \<Rightarrow> process \<Rightarrow> manager \<Rightarrow> balancer_method" where
  "balancerhandler E C now Q M0 =
     \<lparr>bm_node_isup = (\<lambda>M i load. case proxy_node_isup E C now Q M i load of (rv, _, M') \<Rightarrow> (rv, M')),
      bm_host_isup = proxy_host_isup E C Q M0,
      bm_node_getid = proxy_node_getid E Q M0,
      bm_reenable = (\<lambda>x info. x\<lparr>stat := init_proxy_worker E C now (mess info) (stat x)\<rparr>),
      bm_get_free_id = (\<lambda>m sz. case proxy_node_get_free_id (pe_storage E) Q (M0\<lparr>nodestatsmem := m\<rparr>) sz of
                                  Some i \<Rightarrow> i | None \<Rightarrow> -1)\<rparr>"

section \<open>The contract with mod_manager\<close>

lemma search_servers_only: "search_servers i k bs M = (found, bs', M') \<Longrightarrow> worker_only M M'"
proof (induction bs arbitrary: M found bs')
  case (Cons bals rest)
  obtain f bals1 M1 where 1: "get_worker_from_id_stat i k k bals (loc_lock_nodes M) = (f, bals1, M1)"
    by (cases "get_worker_from_id_stat i k k bals (loc_lock_nodes M)") auto
  have 2: "worker_only M (loc_unlock_nodes M1)"
    using 1 by (intro worker_only_locked get_worker_from_id_stat_only)
  show ?case
  proof (cases "the_worker f = None")
    case True
    then obtain f' rest' where "search_servers i k rest (loc_unlock_nodes M1) = (f', rest', M')"
      using Cons.prems 1 by (auto split: prod.splits)
    with Cons.IH 2 show ?thesis by (blast intro: worker_only_trans)
  qed (use Cons.prems 1 2 in auto)
qed simp

lemma node_probe_only: "node_probe E C k load M = (alive, M') \<Longrightarrow> worker_only M M'"
  by (auto simp: node_probe_def Let_def split: if_splits prod.splits)

lemma proxy_node_isup_only:
  assumes "proxy_node_isup E C now Q M i load = (rv, Q', M')"
  shows "worker_only M M'"
proof (cases "mgr_read_node (pe_storage E) M i \<noteq> APR_SUCCESS \<or> n_remove (mess (slot (nodestatsmem M) i)) \<noteq> 0")
  case False
  obtain Q1 M1 where 1: "add_balancers_workers E C now i Q (loc_lock_nodes M) = (Q1, M1)"
    by (cases "add_balancers_workers E C now i Q (loc_lock_nodes M)") auto
  obtain found sv M2 where 2: "search_servers i i (servers Q1) (loc_unlock_nodes M1) = (found, sv, M2)"
    by (cases "search_servers i i (servers Q1) (loc_unlock_nodes M1)") auto
  obtain alive M3 where 3: "node_probe E C i load M2 = (alive, M3)" by (cases "node_probe E C i load M2") auto
  have "worker_only M (loc_unlock_nodes M1)" using 1 by (intro worker_only_locked add_balancers_workers_only)
  also have "worker_only \<dots> M2" using 2 by (rule search_servers_only)
  finally have M2: "worker_only M M2" .
  also have "worker_only M2 M3" using 3 by (rule node_probe_only)
  finally have M3: "worker_only M M3" .
  from M2 M3 assms False show ?thesis
    by (auto simp: proxy_node_isup_def 1 2 3 Let_def split: if_splits intro: worker_only_trans)
qed (use assms in \<open>simp add: proxy_node_isup_def split: if_splits\<close>)

interpretation mc: balancer_provider "balancerhandler E C now Q M0" for E C now Q M0
proof unfold_locales
  show "mess (bm_reenable (balancerhandler E C now Q M0) x info) = mess x" for x info
    by (simp add: balancerhandler_def)
next
  fix M i load rv M'
  assume "bm_node_isup (balancerhandler E C now Q M0) M i load = (rv, M')"
  then obtain Q' where "proxy_node_isup E C now Q M i load = (rv, Q', M')"
    by (cases "proxy_node_isup E C now Q M i load") (simp add: balancerhandler_def)
  then show "worker_only M M'" by (rule proxy_node_isup_only)
qed

section \<open>Free numbers\<close>

lemma mark_ids_spec:
  "\<forall>i \<in> set is. 0 \<le> i \<and> i < int (length ids) \<Longrightarrow>
   \<exists>ids'. mark_ids is ids = Some ids' \<and> length ids' = length ids \<and>
     (\<forall>j < length ids. ids' ! j \<longleftrightarrow> ids ! j \<or> int j \<in> set is)"
proof (induction "is" arbitrary: ids)
  case (Cons i "is")
  have i: "0 \<le> i" "i < int (length ids)" using Cons.prems by auto
  obtain ids' where ids': "mark_ids is (ids[nat i := True]) = Some ids'" "length ids' = length ids"
    "\<forall>j < length ids. ids' ! j \<longleftrightarrow> ids[nat i := True] ! j \<or> int j \<in> set is"
    using Cons.IH [of "ids[nat i := True]"] Cons.prems by auto
  have "ids[nat i := True] ! j \<longleftrightarrow> ids ! j \<or> int j = i" if "j < length ids" for j
    using that i by (cases "nat i = j") auto
  then show ?case using i ids' by auto
qed simp

lemma find_upt:
  "find P [0..<n] = None \<longleftrightarrow> (\<forall>i<n. \<not> P i)"
  "find P [0..<n] = Some k \<longleftrightarrow> k < n \<and> P k \<and> (\<forall>i<k. \<not> P i)"
  by (auto simp: find_None_iff find_Some_iff)

definition ids_fit :: "process \<Rightarrow> manager \<Rightarrow> nat \<Rightarrow> bool" where
  "ids_fit Q M n \<longleftrightarrow> list_all (\<lambda>w. -1 \<le> ws_index (ws M w) \<and> -1 \<le> hp_index w \<and> hp_index w < int n) (all_workers Q)"

lemma taken_ids_fit:
  assumes "consistent_manager S M" and "ids_fit Q M (length (items (nodestatsmem M)))"
    and "i \<in> set (taken_ids S Q M (length (items (nodestatsmem M))))"
  shows "0 \<le> i \<and> i < int (length (items (nodestatsmem M)))"
proof -
  have wf: "wf_slotmem (nodestatsmem M)"
    using consistent_manager.nodes_table [OF assms(1)] by (simp add: nodes_ok_def)
  consider "i \<in> set (loc_get_ids_used_node S M)"
    | w where "w \<in> set (all_workers Q)" "i \<in> set (worker_ids (length (items (nodestatsmem M))) M w)"
    using assms(3) by (auto simp: taken_ids_def)
  then show ?thesis
  proof cases
    case 1
    then show ?thesis using wf consistent_manager.node_ids [OF assms(1)]
      by (auto simp: set_used_slots wf_slotmem_def)
  next
    case 2
    then show ?thesis using assms(2) by (auto simp: ids_fit_def list_all_iff worker_ids_def split: if_splits)
  qed
qed

lemma free_id_choice:
  assumes "\<forall>i \<in> set (taken_ids S Q M n). 0 \<le> i \<and> i < int n"
  shows "\<exists>r. proxy_node_get_free_id S Q M n = Some r \<and>
           (r = -1 \<and> (\<forall>i<n. int i \<in> set (taken_ids S Q M n)) \<or>
            0 \<le> r \<and> r < int n \<and> r \<notin> set (taken_ids S Q M n) \<and> (\<forall>i. 0 \<le> i \<and> i < r \<longrightarrow> i \<in> set (taken_ids S Q M n)))"
proof -
  obtain ids where ids: "mark_ids (taken_ids S Q M n) (replicate n False) = Some ids"
    "\<forall>j < n. ids ! j \<longleftrightarrow> int j \<in> set (taken_ids S Q M n)"
    using mark_ids_spec [of "taken_ids S Q M n" "replicate n False"] assms by auto
  show ?thesis
  proof (cases "find (\<lambda>i. \<not> ids ! i) [0..<n]")
    case None
    then have "\<forall>i<n. ids ! i" by (simp add: find_upt)
    then show ?thesis using None ids by (auto simp: proxy_node_get_free_id_def)
  next
    case (Some k)
    then have k: "k < n" "\<not> ids ! k" "\<forall>i<k. ids ! i" by (simp_all add: find_upt)
    have "i \<in> set (taken_ids S Q M n)" if "0 \<le> i" "i < int k" for i
      using that k ids(2) by (metis less_trans of_nat_less_iff zero_le_imp_eq_int)
    then show ?thesis using Some ids k by (auto simp: proxy_node_get_free_id_def)
  qed
qed

text \<open>C26: when a node registers that no worker knows, \<open>proxy_node_get_free_id\<close> gives it a slot. For a
  consistent manager and workers whose numbers lie in the table it never writes outside its
  arrays; the number it returns is the smallest one that is neither used in the node table nor
  held by a worker of the process, and \<open>-1\<close> means that every number is taken.
\<close>

theorem proxy_node_get_free_id_smallest:
  assumes "manager_storage S" and "manager_ok M" and "n = loc_get_max_size_node S M" and "ids_fit Q M n"
  shows "\<exists>r. proxy_node_get_free_id S Q M n = Some r \<and>
           (r = -1 \<and> (\<forall>i<n. int i \<in> set (taken_ids S Q M n)) \<or>
            0 \<le> r \<and> r < int n \<and> \<not> used (nodestatsmem M) r \<and>
            (\<forall>w \<in> set (all_workers Q). ws_index (ws M w) < int n \<longrightarrow> r \<noteq> ws_index (ws M w) \<and> r \<noteq> hp_index w) \<and>
            (\<forall>i. 0 \<le> i \<and> i < r \<longrightarrow> i \<in> set (taken_ids S Q M n)))"
proof -
  have cm: "consistent_manager S M"
    using assms(1,2) by (simp add: consistent_manager_def consistent_manager_axioms_def)
  have wf: "wf_slotmem (nodestatsmem M)"
    using consistent_manager.nodes_table [OF cm] by (simp add: nodes_ok_def)
  have n: "n = length (items (nodestatsmem M))"
    using assms(3) consistent_manager.max_size_node [OF cm] by simp
  obtain r where r: "proxy_node_get_free_id S Q M n = Some r"
    "r = -1 \<and> (\<forall>i<n. int i \<in> set (taken_ids S Q M n)) \<or>
     0 \<le> r \<and> r < int n \<and> r \<notin> set (taken_ids S Q M n) \<and> (\<forall>i. 0 \<le> i \<and> i < r \<longrightarrow> i \<in> set (taken_ids S Q M n))"
    using free_id_choice [of S Q M n] taken_ids_fit [OF cm] assms(4) n by blast
  have "\<not> used (nodestatsmem M) r" if "0 \<le> r" "r \<notin> set (taken_ids S Q M n)"
    using that used_iff_slots [OF wf, of r] consistent_manager.node_ids [OF cm] by (force simp: taken_ids_def image_iff)
  moreover have "r \<noteq> ws_index (ws M w) \<and> r \<noteq> hp_index w"
    if "0 \<le> r" "r \<notin> set (taken_ids S Q M n)" "w \<in> set (all_workers Q)" "ws_index (ws M w) < int n" for w
  proof -
    have "r \<notin> set (worker_ids n M w)" using that by (simp add: taken_ids_def)
    then show ?thesis using that by (simp add: worker_ids_def split: if_splits)
  qed
  ultimately show ?thesis using r by blast
qed

section \<open>A small system\<close>

text \<open>
  A process with one server and an environment in which every node can be reached: balancers
  and workers are found by their exact names, a worker is defined with the address of the small
  node.
\<close>

definition index_of :: "string list \<Rightarrow> string \<Rightarrow> nat option" where
  "index_of names name = find (\<lambda>i. names ! i = name) [0..<length names]"

definition small_shared :: "string \<Rightarrow> worker_shared" where
  "small_shared url = zero_shared\<lparr>ws_index := -1, ws_name := url, ws_scheme := ''ajp'', ws_hostname := ''h'', ws_port := 8009\<rparr>"

definition small_sock :: sock where
  "small_sock = \<lparr>so_send = (\<lambda>_. APR_SUCCESS), so_timeout_get = APR_SUCCESS, so_recv = (\<lambda>_. (APR_SUCCESS, cpong)),
     so_timeout_reset = APR_SUCCESS\<rparr>"

definition small_proxy :: proxy_env where
  "small_proxy = \<lparr>pe_storage = shm_storage, pe_get_balancer = index_of, pe_get_worker = index_of,
     pe_define_worker = (\<lambda>url. Some (small_shared url)),
     pe_initialize_worker = (\<lambda>s. (APR_SUCCESS, s\<lparr>ws_status := ws_status s OR 1\<rparr>)),
     pe_hc_param = None, pe_uri_parse = (\<lambda>_. Some (Some ''ajp'', 8009)), pe_uri_unparse_noport = (\<lambda>url. url),
     pe_port_of_scheme = (\<lambda>_. 0), pf_initialized = 1, pf_in_error = 128, pf_stopped = 64, pf_disabled = 32, pf_standby = 256,
     pf_hc_fail = 1024, pf_not_usable = 1248, pf_hc_none = 0, pf_default_retry = 60, sz_route = 96, sz_upgrade = 16,
     sz_secret = 64, sz_balancer_name = 64, sz_sticky = 64, pe_ssl_enable = False,
     pe_acquire = (\<lambda>s. (APR_SUCCESS, s)), pe_determine = (\<lambda>_ _. APR_SUCCESS), pe_connect = (\<lambda>s. (APR_SUCCESS, s)),
     pe_conn_sock = (\<lambda>_. small_sock), pe_connection = (\<lambda>_. APR_SUCCESS),
     pe_conn_http = (\<lambda>_ _. \<lparr>hc_pass = APR_SUCCESS, hc_timeout_get = APR_SUCCESS, hc_brigades = [], hc_timeout_reset = APR_SUCCESS\<rparr>),
     pe_sock_create = APR_SUCCESS, pe_sockaddr = (\<lambda>_ _. APR_SUCCESS), pe_sock_connect = (\<lambda>_ _. APR_SUCCESS),
     pe_host_sock = (\<lambda>_ _. small_sock), pe_retry = (\<lambda>s. s), pe_thread_lock = APR_SUCCESS,
     pe_hash = (\<lambda>name. (of_nat (length name), 0)), pe_canon_netloc = (\<lambda>url. Some (url, [])),
     pe_canonenc = (\<lambda>path _. Some path)\<rparr>"

definition small_conf :: pconf where
  "small_conf = \<lparr>creat_bal = CREAT_ROOT, pc_use_alias = True, deterministic_failover = False, use_nocanon = False,
     responsecode_when_no_context = 404, lbstatus_recalc_time = 5000000, wait_for_remove = 10000000, enable_options = True,
     cache_share_for = 0, hctemplate = [], mc_thread_pool_size = 0\<rparr>"

definition small_conf_hc :: pconf where
  "small_conf_hc = small_conf\<lparr>hctemplate := [(''hcmethod'', ''ping'')]\<rparr>"

definition small_process :: process where
  "small_process = \<lparr>servers = [[]], aborted = False\<rparr>"

text \<open>The process after the node of the small manager came up.\<close>

definition small_worker :: pworker where
  "small_worker = \<lparr>w_s = InNode 0, w_shared = small_shared ''ajp://h:8009'', count_active = 0, hp_index = 0, isinnodes = True\<rparr>"

definition small_process1 :: process where
  "small_process1 = \<lparr>servers = [[(zero_balancer ''balancer://'')\<lparr>bal_workers := [small_worker]\<rparr>]], aborted = False\<rparr>"

theorem proxy_node_get_free_id_smallest_witness:
  "\<exists>r. proxy_node_get_free_id shm_storage small_process1 small_manager1 2 = Some r \<and>
       (r = -1 \<or> \<not> used (nodestatsmem small_manager1) r)"
proof -
  have "2 = loc_get_max_size_node shm_storage small_manager1" "ids_fit small_process1 small_manager1 2" by code_simp+
  from proxy_node_get_free_id_smallest [OF shm_mgr.manager_storage_axioms small_manager1_ok this] show ?thesis by blast
qed

section \<open>The load of a node\<close>

lemma set_worker_load_up:
  fixes x :: "32 word"
  shows "(x AND NOT e AND NOT s AND NOT d AND NOT h) AND (e OR s OR d OR h) = 0"
  by (rule bit_word_eqI) (auto simp: bit_simps)

lemma set_worker_load_standby: "((x :: 32 word) AND NOT e OR h) AND h = h" "((x :: 32 word) OR e) AND e = e"
  by (rule bit_word_eqI, auto simp: bit_simps)+

lemma proxy_node_isup_cases:
  assumes "proxy_node_isup E C now Q M i load = (rv, Q', M')"
  obtains "rv = HTTP_INTERNAL_SERVER_ERROR"
    | M3 where "rv = 0" "worker_only M M3" "M' = set_stat i (set_worker_load E load) M3"
      "mgr_read_node (pe_storage E) M i = APR_SUCCESS" "n_remove (mess (slot (nodestatsmem M) i)) = 0"
proof (cases "rv = HTTP_INTERNAL_SERVER_ERROR")
  case False
  then have r: "mgr_read_node (pe_storage E) M i = APR_SUCCESS" "n_remove (mess (slot (nodestatsmem M) i)) = 0"
    using assms by (auto simp: proxy_node_isup_def split: if_splits)
  obtain Q1 M1 where 1: "add_balancers_workers E C now i Q (loc_lock_nodes M) = (Q1, M1)"
    by (cases "add_balancers_workers E C now i Q (loc_lock_nodes M)") auto
  obtain found sv M2 where 2: "search_servers i i (servers Q1) (loc_unlock_nodes M1) = (found, sv, M2)"
    by (cases "search_servers i i (servers Q1) (loc_unlock_nodes M1)") auto
  obtain alive M3 where 3: "node_probe E C i load M2 = (alive, M3)" by (cases "node_probe E C i load M2") auto
  have "worker_only M (loc_unlock_nodes M1)" using 1 by (intro worker_only_locked add_balancers_workers_only)
  also have "worker_only \<dots> M2" using 2 by (rule search_servers_only)
  also have "worker_only M2 M3" using 3 by (rule node_probe_only)
  finally have "worker_only M M3" .
  with that(2) False r assms show thesis
    by (auto simp: proxy_node_isup_def 1 2 3 Let_def split: if_splits)
qed (rule that(1))

text \<open>C27: \<open>proxy_node_isup\<close>, which carries out the Load of a STATUS message. It answers 0 or 500. On
  success the node exists and is not marked as removed, and its status block holds the load: from
  1 to 100 it is the load factor and the node is neither in error nor stopped, disabled or a
  standby; 0 makes it a standby, -1 puts it in error. Whatever the answer, the manager keeps
  everything but the status blocks and the worker counts of its nodes.
\<close>

theorem proxy_node_isup_load:
  assumes "proxy_node_isup E C now Q M i load = (rv, Q', M')" and "nat i < length (items (nodestatsmem M))"
    and "-1 \<le> load" and "load \<le> 100"
  shows "worker_only M M' \<and>
    (rv = HTTP_INTERNAL_SERVER_ERROR \<or>
     rv = 0 \<and> mgr_read_node (pe_storage E) M i = APR_SUCCESS \<and> n_remove (mess (slot (nodestatsmem M) i)) = 0 \<and>
     (let s = stat (slot (nodestatsmem M') i) in
        ws_lbfactor s = load \<and>
        (if load = -1 then ws_status s AND pf_in_error E = pf_in_error E
         else if load = 0 then ws_status s AND pf_standby E = pf_standby E
         else ws_status s AND (pf_in_error E OR pf_stopped E OR pf_disabled E OR pf_standby E) = 0)))"
  using assms(1)
proof (cases rule: proxy_node_isup_cases)
  case (2 M3)
  then show ?thesis using assms worker_only_length [OF 2(2)] proxy_node_isup_only [OF assms(1)]
    by (simp add: set_stat_slot Let_def set_worker_load_def set_worker_load_up set_worker_load_standby)
qed (use proxy_node_isup_only [OF assms(1)] in simp)

theorem proxy_node_isup_load_witness:
  "ws_lbfactor (stat (slot (nodestatsmem (snd (snd (proxy_node_isup small_proxy small_conf_hc 0 small_process small_manager1 0 7)))) 0)) = 7"
proof -
  obtain rv Q' M' where p: "proxy_node_isup small_proxy small_conf_hc 0 small_process small_manager1 0 7 = (rv, Q', M')"
    by (cases "proxy_node_isup small_proxy small_conf_hc 0 small_process small_manager1 0 7") auto
  have "fst (proxy_node_isup small_proxy small_conf_hc 0 small_process small_manager1 0 7) = 0" by code_simp
  moreover have "nat 0 < length (items (nodestatsmem small_manager1))" by code_simp
  ultimately show ?thesis using proxy_node_isup_load [OF p] by (simp add: p Let_def)
qed

end
