(* ===== verification/Watchdog.thy ===== *)
theory Watchdog
  imports Balancer_Provider
begin

unbundle bit_operations_syntax

text \<open>
  The maintenance thread of a child process, \<open>mod_proxy_cluster/mod_proxy_cluster.c\<close> from
  \<open>read_node_worker\<close> to \<open>remove_timeout_domain\<close> and from \<open>remove_removed_node\<close> to
  \<open>proxy_cluster_child_init\<close>. A run of the watchdog refreshes the cached copies of the tables,
  creates workers for new nodes and detaches those of removed nodes, recomputes the load status of
  the nodes and checks idle ones, drops old sessions, and frees the slots of removed nodes.
  \<open>child_stopping\<close> is constant during a run. A check pushed to the thread pool is a task of the
  process, to be run later by \<open>check_proxy_worker\<close>.
\<close>

section \<open>State\<close>

text \<open>A worker is addressed by its server, its balancer there and its place in the balancer.\<close>

record wtask =
  wt_server :: nat
  wt_pos :: "nat \<times> nat"
  wt_id :: int
  wt_now :: apr_time

record child = process +
  cached_tables :: "(proxy_vhost_table option \<times> proxy_context_table option \<times> proxy_balancer_table option \<times>
                     proxy_node_table option) option"
  last_cached :: apr_time
  thread_tasks :: "wtask list"

text \<open>What a run meets: the flag \<open>child_stopping\<close>, and whether the thread pool exists and takes a task.\<close>

record wrun =
  child_stopping :: bool
  pool_takes :: bool

section \<open>Checking idle nodes\<close>

definition worker_matches :: "worker_shared \<Rightarrow> nodemess \<Rightarrow> bool" where
  "worker_matches s n \<longleftrightarrow> ws_scheme s = Type n \<and> compare_hostname (ws_hostname s) (Host n) \<and> sport s = Port n"

definition read_node_worker :: "storage \<Rightarrow> manager \<Rightarrow> int \<Rightarrow> worker_shared \<Rightarrow> apr_status" where
  "read_node_worker S M i s =
     (let status = mgr_read_node S M i in
      if status \<noteq> APR_SUCCESS then status
      else if worker_matches s (mess (slot (nodestatsmem M) i)) then APR_SUCCESS else APR_NOTFOUND)"

text \<open>A failed check is counted; after more than 60 the node is marked as removed.\<close>

definition count_failure :: "apr_time \<Rightarrow> nodeinfo \<Rightarrow> nodeinfo" where
  "count_failure now ou =
     (let n = (mess ou)\<lparr>num_failure_idle := num_failure_idle (mess ou) + 1\<rparr> in
      if num_failure_idle n > 60 then ou\<lparr>mess := n\<lparr>n_remove := 1\<rparr>, n_updatetime := now\<rparr> else ou\<lparr>mess := n\<rparr>)"

definition clear_failures :: "nodeinfo \<Rightarrow> nodeinfo" where
  "clear_failures ou = ou\<lparr>mess := (mess ou)\<lparr>num_failure_idle := 0\<rparr>\<rparr>"

definition check_proxy_worker ::
  "proxy_env \<Rightarrow> pconf \<Rightarrow> wrun \<Rightarrow> apr_time \<Rightarrow> int \<Rightarrow> pworker \<Rightarrow> manager \<Rightarrow> pworker \<times> manager" where
  "check_proxy_worker E C R now i w M =
     (case proxy_cluster_try_pingpong E C (node_url (ws M w)) (ws M w) of
        (rv, s) \<Rightarrow>
          case ws_update (\<lambda>_. s) w M of
            (w1, M1) \<Rightarrow>
              if child_stopping R then (w1, M1)
              else
                let M2 = loc_lock_nodes M1 in
                if read_node_worker (pe_storage E) M2 i (ws M2 w1) \<noteq> APR_SUCCESS then (w1, loc_unlock_nodes M2)
                else if rv \<noteq> APR_SUCCESS then
                  (case ws_update (\<lambda>s. s\<lparr>ws_status := ws_status s OR pf_in_error E\<rparr>) w1 M2 of
                     (w2, M3) \<Rightarrow> (w2, loc_unlock_nodes (update_node_slot i (count_failure now) M3)))
                else (w1, loc_unlock_nodes (update_node_slot i clear_failures M2)))"

definition update_lbstatus_get_worker ::
  "int \<Rightarrow> pbalancer list \<Rightarrow> manager \<Rightarrow> (nat \<times> nat) option \<times> pbalancer list \<times> manager" where
  "update_lbstatus_get_worker i bals M =
     (case get_worker_from_id_stat i i i bals M of
        (found, bals', M') \<Rightarrow>
          ((case the_worker found of
              None \<Rightarrow> None
            | Some p \<Rightarrow> if worker_matches (ws M' (worker_at bals' p)) (mess (slot (nodestatsmem M') i)) then Some p else None),
           bals', M'))"

definition update_lbstatus_failure_idle :: "proxy_env \<Rightarrow> apr_time \<Rightarrow> int \<Rightarrow> pworker \<Rightarrow> manager \<Rightarrow> manager" where
  "update_lbstatus_failure_idle E now i w M =
     (if ws_status (ws M w) AND pf_not_usable E \<noteq> 0 then update_node_slot i (count_failure now) M
      else update_node_slot i clear_failures M)"

definition update_lbstatus_hcheck ::
  "proxy_env \<Rightarrow> pconf \<Rightarrow> apr_time \<Rightarrow> int \<Rightarrow> pbalancer list \<Rightarrow> manager \<Rightarrow> bool \<times> pbalancer list \<times> manager" where
  "update_lbstatus_hcheck E C now i bals M =
     (case update_lbstatus_get_worker i bals M of
        (None, bals', M') \<Rightarrow> (True, bals', M')
      | (Some p, bals', M') \<Rightarrow>
          if hctemplate C \<noteq> [] then (True, bals', update_lbstatus_failure_idle E now i (worker_at bals' p) M')
          else (False, bals', M'))"

text \<open>The result also tells whether the caller goes on, and the task left to the thread pool.\<close>

definition update_lbstatus_oldcheck ::
  "proxy_env \<Rightarrow> pconf \<Rightarrow> wrun \<Rightarrow> apr_time \<Rightarrow> nat \<Rightarrow> int \<Rightarrow> nat \<times> nat \<Rightarrow> pbalancer list \<Rightarrow> manager
     \<Rightarrow> bool \<times> pbalancer list \<times> manager \<times> wtask list" where
  "update_lbstatus_oldcheck E C R now server i p bals M =
     (if child_stopping R then (False, bals, M, [])
      else if pool_takes R then (False, bals, M, [\<lparr>wt_server = server, wt_pos = p, wt_id = i, wt_now = now\<rparr>])
      else case check_proxy_worker E C R now i (worker_at bals p) M of
             (w, M') \<Rightarrow> (\<not> child_stopping R, set_worker_at p w bals, M', []))"

text \<open>C's division of \<open>int\<close>s, and the \<open>int\<close>s the two \<open>size_t\<close> counters are assigned to.\<close>

definition c_div :: "int \<Rightarrow> int \<Rightarrow> int" where
  "c_div a b = (if (a < 0) \<noteq> (b < 0) then - (\<bar>a\<bar> div \<bar>b\<bar>) else \<bar>a\<bar> div \<bar>b\<bar>)"

definition new_lbstatus :: "worker_shared \<Rightarrow> nodemess \<Rightarrow> int" where
  "new_lbstatus s n =
     (if ws_lbfactor s > 0
      then c_div (to_int32 ((to_int32 (uint (ws_elected s)) - to_int32 (uint (oldelected n))) * 1000)) (ws_lbfactor s)
      else ws_lbstatus s)"

definition refresh_lbstatus :: "apr_time \<Rightarrow> nodeinfo \<Rightarrow> nodeinfo" where
  "refresh_lbstatus now ou =
     ou\<lparr>mess := (mess ou)\<lparr>updatetimelb := now, oldelected := word_of_int (to_int32 (uint (ws_elected (stat ou)))),
                          oldread := ws_read (stat ou)\<rparr>,
        stat := (stat ou)\<lparr>ws_lbstatus := new_lbstatus (stat ou) (mess ou)\<rparr>\<rparr>"

text \<open>
  One node, and whether the loop goes on. Every path takes the lock and releases it. The worker is
  looked up twice with the same result, so a check by the old method always has one.
\<close>

definition lbstatus_row ::
  "proxy_env \<Rightarrow> pconf \<Rightarrow> wrun \<Rightarrow> apr_time \<Rightarrow> nat \<Rightarrow> int \<Rightarrow> pbalancer list \<Rightarrow> manager
     \<Rightarrow> bool \<times> pbalancer list \<times> manager \<times> wtask list" where
  "lbstatus_row E C R now server i bals M0 =
     (let M = loc_lock_nodes M0; ou = slot (nodestatsmem M) i in
      if child_stopping R then (False, bals, loc_unlock_nodes M, [])
      else if mgr_read_node (pe_storage E) M i \<noteq> APR_SUCCESS then (True, bals, loc_unlock_nodes M, [])
      else if n_remove (mess ou) \<noteq> 0 then (True, bals, loc_unlock_nodes M, [])
      else if updatetimelb (mess ou) < now - lbstatus_recalc_time C then
        let M1 = update_node_slot i (refresh_lbstatus now) M in
        if ws_read (stat ou) = oldread (mess ou) then
          case update_lbstatus_get_worker i bals M1 of
            (worker, bals2, M2) \<Rightarrow>
              (case update_lbstatus_hcheck E C now i bals2 M2 of
                 (True, bals3, M3) \<Rightarrow> (True, bals3, loc_unlock_nodes M3, [])
               | (False, bals3, M3) \<Rightarrow>
                   (case worker of
                      None \<Rightarrow> (True, bals3, loc_unlock_nodes M3, [])
                    | Some p \<Rightarrow> update_lbstatus_oldcheck E C R now server i p bals3 (loc_unlock_nodes M3)))
        else (True, bals, loc_unlock_nodes (update_node_slot i clear_failures M1), [])
      else (True, bals, loc_unlock_nodes M, []))"

fun lbstatus_rows ::
  "proxy_env \<Rightarrow> pconf \<Rightarrow> wrun \<Rightarrow> apr_time \<Rightarrow> nat \<Rightarrow> int list \<Rightarrow> pbalancer list \<Rightarrow> manager
     \<Rightarrow> pbalancer list \<times> manager \<times> wtask list" where
  "lbstatus_rows E C R now server [] bals M = (bals, M, [])"
| "lbstatus_rows E C R now server (i # is) bals M =
     (case lbstatus_row E C R now server i bals M of
        (go, bals1, M1, ts) \<Rightarrow>
          if go then (case lbstatus_rows E C R now server is bals1 M1 of (bals2, M2, ts') \<Rightarrow> (bals2, M2, ts @ ts'))
          else (bals1, M1, ts))"

definition update_workers_lbstatus ::
  "proxy_env \<Rightarrow> pconf \<Rightarrow> wrun \<Rightarrow> apr_time \<Rightarrow> nat \<Rightarrow> pbalancer list \<Rightarrow> manager
     \<Rightarrow> pbalancer list \<times> manager \<times> wtask list" where
  "update_workers_lbstatus E C R now server bals M =
     (if loc_get_max_size_node (pe_storage E) M = 0 then (bals, M, [])
      else lbstatus_rows E C R now server (loc_get_ids_used_node (pe_storage E) M) bals M)"

section \<open>Sessions and domains\<close>

abbreviation (input) TIMESESSIONID :: int where "TIMESESSIONID \<equiv> 300"
abbreviation (input) TIMEDOMAIN :: int where "TIMEDOMAIN \<equiv> 300"

text \<open>The records a loop visits are read when their turn comes.\<close>

definition remove_timeout_sessionid :: "storage \<Rightarrow> apr_time \<Rightarrow> manager \<Rightarrow> manager" where
  "remove_timeout_sessionid S now M =
     (if loc_get_max_size_sessionid S M = 0 then M
      else case loc_get_ids_used_sessionid S M of
             None \<Rightarrow> M
           | Some ids \<Rightarrow>
               fold (\<lambda>i M'. if mgr_read_sessionid S M' i \<noteq> APR_SUCCESS then M'
                            else let ou = slot (the (sessionidstatsmem M')) i in
                                 if s_updatetime ou < apr_time_sec now - TIMESESSIONID
                                 then snd (loc_remove_sessionid S M' ou) else M') ids M)"

definition remove_timeout_domain :: "storage \<Rightarrow> apr_time \<Rightarrow> manager \<Rightarrow> manager" where
  "remove_timeout_domain S now M =
     (if loc_get_max_size_domain S M = 0 then M
      else fold (\<lambda>i M'. if mgr_read_domain S M' i \<noteq> APR_SUCCESS then M'
                        else let ou = slot (domainstatsmem M') i in
                             if d_updatetime ou < apr_time_sec now - TIMEDOMAIN
                             then snd (loc_remove_domain S M' ou) else M') (loc_get_ids_used_domain S M) M)"

section \<open>Removed nodes\<close>

text \<open>
  The record stored for the node's domain. Its strings have the sizes of the node's; its number
  is not set by the caller and is not used.
\<close>

definition store_domain :: "storage \<Rightarrow> apr_time \<Rightarrow> nodemess \<Rightarrow> manager \<Rightarrow> manager" where
  "store_domain S now n M =
     (let dom = \<lparr>d_id = 0, d_domain = Domain n, d_JVMRoute = JVMRoute n, d_balancer = n_balancer n, d_updatetime = 0\<rparr> in
      case loc_insert_update_domain S M dom now of
        (rv, M1) \<Rightarrow> if rv \<noteq> APR_SUCCESS then snd (loc_insert_update_domain S (remove_timeout_domain S now M1) dom now) else M1)"

definition set_removed :: "apr_time \<Rightarrow> nodeinfo \<Rightarrow> nodeinfo" where
  "set_removed now ou = ou\<lparr>mess := (mess ou)\<lparr>JVMRoute := ''REMOVED'', Domain := [], num_remove_check := 0\<rparr>, n_updatetime := now\<rparr>"

definition removed_row :: "storage \<Rightarrow> pconf \<Rightarrow> apr_time \<Rightarrow> int \<Rightarrow> manager \<Rightarrow> manager" where
  "removed_row S C now i M =
     (let ou = slot (nodestatsmem M) i in
      if mgr_read_node S M i \<noteq> APR_SUCCESS then M
      else if JVMRoute (mess ou) = ''REMOVED'' \<and> now - n_updatetime ou \<ge> wait_for_remove C then
        if node_has_workers (mess ou) then update_node_slot i (\<lambda>x. x\<lparr>n_updatetime := now\<rparr>) M
        else
          let M1 = set_mess i (\<lambda>n. n\<lparr>num_remove_check := num_remove_check n + 1\<rparr>) M in
          if num_remove_check (mess ou) + 1 > 10 then snd (loc_remove_node S M1 (n_id (mess ou))) else M1
      else if n_remove (mess ou) \<noteq> 0 \<and> now - n_updatetime ou \<ge> wait_for_remove C \<and>
              now - lastcleantry (mess ou) \<ge> wait_for_remove C then
        let M1 = (if Domain (mess ou) \<noteq> [] then store_domain S now (mess ou) M else M);
            M2 = loc_remove_host_context S (n_id (mess ou)) M1
        in update_node_slot i (set_removed now) M2
      else M)"

definition remove_removed_node :: "storage \<Rightarrow> pconf \<Rightarrow> apr_time \<Rightarrow> manager \<Rightarrow> manager" where
  "remove_removed_node S C now M =
     (if loc_get_max_size_node S M = 0 then M
      else fold (removed_row S C now) (loc_get_ids_used_node S M) M)"

section \<open>A run of the watchdog\<close>

text \<open>
  The cached copies are updated in place; by \<open>cached_copies_fit\<close> an update of copies that were
  made for the cache succeeds as long as the tables are consistent.
\<close>

definition refresh_cache :: "storage \<Rightarrow> manager \<Rightarrow> child \<Rightarrow> child" where
  "refresh_cache S M Q =
     Q\<lparr>cached_tables := Some (case cached_tables Q of
         Some (v, c, b, n) \<Rightarrow>
           (Option.bind v (update_vhost_table_cached S M), Option.bind c (update_context_table_cached S M),
            Option.bind b (update_balancer_table_cached S M), Option.bind n (update_node_table_cached S M))
       | None \<Rightarrow>
           (read_vhost_table S M True, read_context_table S M True, read_balancer_table S M True, read_node_table S M True))\<rparr>"

definition cached_node_table :: "child \<Rightarrow> proxy_node_table option" where
  "cached_node_table Q = Option.bind (cached_tables Q) (\<lambda>(v, c, b, n). n)"

text \<open>The copy of the node table a run works with, when the version changed; \<open>None\<close> of the outer option: the run ends.\<close>

definition watchdog_nodes ::
  "storage \<Rightarrow> pconf \<Rightarrow> wrun \<Rightarrow> apr_time \<Rightarrow> child \<Rightarrow> manager \<Rightarrow> child \<times> proxy_node_table option option" where
  "watchdog_nodes S C R now Q M =
     (if cache_share_for C \<noteq> 0 then
        let Q1 = (if now \<ge> last_cached Q + cache_share_for C then refresh_cache S M (Q\<lparr>last_cached := now\<rparr>) else Q)
        in (Q1, Some (cached_node_table Q1))
      else if child_stopping R then (Q, None)
      else (Q, Some (read_node_table S M False)))"

text \<open>The work on one server; \<open>nodes\<close> is the copy of the node table when there is an update.\<close>

definition watchdog_server ::
  "proxy_env \<Rightarrow> pconf \<Rightarrow> wrun \<Rightarrow> apr_time \<Rightarrow> nat \<Rightarrow> proxy_node_table option option \<Rightarrow> pbalancer list \<Rightarrow> manager
     \<Rightarrow> pbalancer list \<times> manager \<times> wtask list \<times> bool" where
  "watchdog_server E C R now server nodes bals M0 =
     (let M = loc_lock_nodes M0;
          (bals2, M2, a) =
            (case nodes of
               None \<Rightarrow> (bals, M, False)
             | Some nt \<Rightarrow>
                 (case update_workers_node E C now (server = 0) False nt bals M of
                    (bals1, M1) \<Rightarrow> (case check_workers E C M1 bals1 of (bals2, a) \<Rightarrow> (bals2, M1, a))));
          (bals3, M3, a') = remove_workers_nodes E C now bals2 M2;
          (bals4, M4, ts) = update_workers_lbstatus E C R now server bals3 (loc_unlock_nodes M3);
          M5 = remove_timeout_sessionid (pe_storage E) now M4;
          M6 = loc_unlock_nodes (remove_removed_node (pe_storage E) C now (loc_lock_nodes M5))
      in (bals4, M6, ts, a \<or> a'))"

fun watchdog_servers ::
  "proxy_env \<Rightarrow> pconf \<Rightarrow> wrun \<Rightarrow> apr_time \<Rightarrow> nat \<Rightarrow> proxy_node_table option option \<Rightarrow> pbalancer list list \<Rightarrow> manager
     \<Rightarrow> pbalancer list list \<times> manager \<times> wtask list \<times> bool" where
  "watchdog_servers E C R now server nodes [] M = ([], M, [], False)"
| "watchdog_servers E C R now server nodes (bals # rest) M =
     (case watchdog_server E C R now server nodes bals M of
        (bals1, M1, ts, a) \<Rightarrow>
          (case watchdog_servers E C R now (Suc server) nodes rest M1 of
             (rest1, M2, ts', a') \<Rightarrow> (bals1 # rest1, M2, ts @ ts', a \<or> a')))"

definition proxy_cluster_watchdog_func ::
  "proxy_env \<Rightarrow> pconf \<Rightarrow> wrun \<Rightarrow> apr_time \<Rightarrow> child \<Rightarrow> manager \<Rightarrow> child \<times> manager" where
  "proxy_cluster_watchdog_func E C R now Q M =
     (let last = loc_worker_nodes_need_update (pe_storage E) M;
          (Q1, nodes) = (if last \<noteq> 0 then watchdog_nodes (pe_storage E) C R now Q M else (Q, None))
      in if child_stopping R then (Q1, M)
         else case watchdog_servers E C R now 0 nodes (servers Q1) M of
                (sv, M1, ts, a) \<Rightarrow>
                  (Q1\<lparr>servers := sv, aborted := aborted Q1 \<or> a, thread_tasks := thread_tasks Q1 @ ts\<rparr>,
                   if last \<noteq> 0 then loc_worker_nodes_are_updated last M1 else M1))"

text \<open>A thread of the pool takes the oldest task.\<close>

definition run_task :: "proxy_env \<Rightarrow> pconf \<Rightarrow> wrun \<Rightarrow> child \<Rightarrow> manager \<Rightarrow> child \<times> manager" where
  "run_task E C R Q M =
     (case thread_tasks Q of
        [] \<Rightarrow> (Q, M)
      | t # ts \<Rightarrow>
          let bals = servers Q ! wt_server t in
          case check_proxy_worker E C R (wt_now t) (wt_id t) (worker_at bals (wt_pos t)) M of
            (w, M') \<Rightarrow> (Q\<lparr>servers := (servers Q)[wt_server t := set_worker_at (wt_pos t) w bals], thread_tasks := ts\<rparr>, M'))"

fun init_servers ::
  "proxy_env \<Rightarrow> pconf \<Rightarrow> apr_time \<Rightarrow> bool \<Rightarrow> proxy_node_table option \<Rightarrow> pbalancer list list \<Rightarrow> manager
     \<Rightarrow> pbalancer list list \<times> manager \<times> bool" where
  "init_servers E C now main nt [] M = ([], M, False)"
| "init_servers E C now main nt (bals # rest) M =
     (case update_workers_node E C now main False nt bals M of
        (bals1, M1) \<Rightarrow>
          (case check_workers E C M1 bals1 of
             (bals2, a) \<Rightarrow>
               (case init_servers E C now False nt rest M1 of (rest', M2, a') \<Rightarrow> (bals2 # rest', M2, a \<or> a'))))"

definition proxy_cluster_child_init ::
  "proxy_env \<Rightarrow> pconf \<Rightarrow> apr_time \<Rightarrow> child \<Rightarrow> manager \<Rightarrow> child \<times> manager" where
  "proxy_cluster_child_init E C now Q M0 =
     (let M = loc_lock_nodes M0; S = pe_storage E in
      if loc_get_max_size_node S M = 0 then (Q, loc_unlock_nodes M)
      else
        let Q1 = (if cache_share_for C \<noteq> 0 then refresh_cache S M (Q\<lparr>cached_tables := None\<rparr>) else Q);
            nt = (if cache_share_for C \<noteq> 0 then cached_node_table Q1 else read_node_table S M False)
        in case init_servers E C now True nt (servers Q1) M of
             (sv, M1, a) \<Rightarrow> (Q1\<lparr>servers := sv, aborted := aborted Q1 \<or> a\<rparr>, loc_unlock_nodes M1))"

section \<open>What a run keeps\<close>

text \<open>
  The slots of removed nodes belong to no virtual host, nor do slots without a name, and a node named
  REMOVED is marked as removed. Together with the consistency of the tables this is what every step of
  the watchdog keeps.
\<close>

definition named :: "nodeinfo \<Rightarrow> bool" where
  "named x \<longleftrightarrow> JVMRoute (mess x) \<noteq> [] \<and> JVMRoute (mess x) \<noteq> ''REMOVED''"

definition removed_marked :: "nodeinfo slotmem \<Rightarrow> bool" where
  "removed_marked nm \<longleftrightarrow> (\<forall>k. used nm k \<longrightarrow> JVMRoute (mess (slot nm k)) = ''REMOVED'' \<longrightarrow> n_remove (mess (slot nm k)) \<noteq> 0)"

definition removed_clean :: "manager \<Rightarrow> bool" where
  "removed_clean M \<longleftrightarrow> removed_marked (nodestatsmem M) \<and> (\<forall>j < length (inuse (hoststatsmem M)). inuse (hoststatsmem M) ! j \<longrightarrow>
     named (slot (nodestatsmem M) (h_node (items (hoststatsmem M) ! j))))"

definition same_node :: "nodeinfo \<Rightarrow> nodeinfo \<Rightarrow> bool" where
  "same_node x y \<longleftrightarrow> n_id (mess y) = n_id (mess x) \<and> JVMRoute (mess y) = JVMRoute (mess x) \<and>
     (n_remove (mess x) \<noteq> 0 \<longrightarrow> n_remove (mess y) \<noteq> 0)"

lemma same_node_named: "same_node x y \<Longrightarrow> named y = named x"
  by (simp add: same_node_def named_def)

definition kept :: "manager \<Rightarrow> manager \<Rightarrow> bool" where
  "kept M M' \<longleftrightarrow> hoststatsmem M' = hoststatsmem M \<and> contextstatsmem M' = contextstatsmem M \<and>
     balancerstatsmem M' = balancerstatsmem M \<and> inuse (nodestatsmem M') = inuse (nodestatsmem M) \<and>
     list_all2 same_node (items (nodestatsmem M)) (items (nodestatsmem M'))"

lemma kept_refl [simp]: "kept M M"
  by (simp add: kept_def same_node_def list_all2_refl)

lemma kept_trans [trans]:
  assumes "kept M M'" and "kept M' M''"
  shows "kept M M''"
proof -
  have "same_node x y \<Longrightarrow> same_node y z \<Longrightarrow> same_node x z" for x y z by (simp add: same_node_def)
  then show ?thesis using assms by (auto simp: kept_def intro: list_all2_trans)
qed

lemma kept_nodes: "nodestatsmem M' = nodestatsmem M \<Longrightarrow> hoststatsmem M' = hoststatsmem M \<Longrightarrow>
   contextstatsmem M' = contextstatsmem M \<Longrightarrow> balancerstatsmem M' = balancerstatsmem M \<Longrightarrow> kept M M'"
  by (simp add: kept_def same_node_def list_all2_refl)

lemma kept_lock [simp]: "kept M (loc_lock_nodes M)" "kept M (loc_unlock_nodes M)"
  by (rule kept_nodes; simp)+

lemma kept_unlock [intro]: "kept M M' \<Longrightarrow> kept M (loc_unlock_nodes M')"
  by (blast intro: kept_trans kept_lock)

lemma same_desc_node: "same_desc x y \<Longrightarrow> same_node x y"
  unfolding same_desc_def same_node_def by (metis nodemess.select_convs nodemess.surjective nodemess.update_convs)

lemma kept_worker_only: "worker_only M M' \<Longrightarrow> kept M M'"
proof -
  assume w: "worker_only M M'"
  then have M': "M' = M\<lparr>nodestatsmem := nodestatsmem M'\<rparr>" by (simp add: worker_only_def)
  have "hoststatsmem M' = hoststatsmem M" "contextstatsmem M' = contextstatsmem M" "balancerstatsmem M' = balancerstatsmem M"
    by (subst M', simp)+
  with w show ?thesis by (auto simp: kept_def worker_only_def intro: list_all2_mono same_desc_node)
qed

lemma kept_update:
  assumes f: "\<And>x. same_node x (f x)"
  shows "kept M (update_node_slot k f M)"
proof -
  have "same_node (xs ! i) (xs[j := f (xs ! j)] ! i)" if "i < length xs" for xs i j
    using f that by (cases "i = j") (simp_all add: same_node_def)
  then show ?thesis
    by (simp add: kept_def update_node_slot_def store_def slot_def list_all2_conv_all_nth)
qed

lemma kept_updates [simp]:
  "kept M (set_stat k g M)" "kept M (update_node_slot k clear_failures M)" "kept M (update_node_slot k (count_failure now) M)"
  "kept M (update_node_slot k (refresh_lbstatus now) M)" "kept M (update_node_slot k (\<lambda>x. x\<lparr>n_updatetime := now\<rparr>) M)"
  unfolding set_stat_def
  by (rule kept_update, simp add: same_node_def clear_failures_def count_failure_def refresh_lbstatus_def Let_def)+

lemma kept_set_mess: "(\<And>n. n_id (f n) = n_id n \<and> JVMRoute (f n) = JVMRoute n \<and> n_remove (f n) = n_remove n) \<Longrightarrow> kept M (set_mess k f M)"
  unfolding set_mess_def by (rule kept_update) (simp add: same_node_def)

lemma kept_slot:
  assumes "kept M M'" and "nat i < length (items (nodestatsmem M))"
  shows "same_node (slot (nodestatsmem M) i) (slot (nodestatsmem M') i)"
  using assms by (auto simp: kept_def slot_def list_all2_conv_all_nth)

lemma used_in_items: "wf_slotmem m \<Longrightarrow> used m i \<Longrightarrow> 0 \<le> i \<and> nat i < length (items m) \<and> inuse m ! nat i"
  by (auto simp: used_def in_range_def wf_slotmem_def)

lemma host_node_used:
  assumes "manager_ok M" and "j < length (inuse (hoststatsmem M))" and "inuse (hoststatsmem M) ! j"
  shows "used (nodestatsmem M) (h_node (items (hoststatsmem M) ! j))"
  using assms by (simp add: manager_ok_def refs_ok_def hosts_ref_def)

lemma manager_wf: "manager_ok M \<Longrightarrow> wf_slotmem (nodestatsmem M)"
  by (simp add: manager_ok_def tables_ok_def nodes_ok_def)

text \<open>Whatever keeps the numbers and the names of the nodes keeps the manager consistent.\<close>

lemma kept_ok:
  assumes ok: "manager_ok M" and k: "kept M M'"
  shows "manager_ok M'"
proof -
  have len: "length (items (nodestatsmem M')) = length (items (nodestatsmem M))"
    using k by (auto simp: kept_def dest: list_all2_lengthD)
  have id: "node_ident (items (nodestatsmem M') ! j) = node_ident (items (nodestatsmem M) ! j)"
    if "j < length (items (nodestatsmem M))" for j
    using kept_slot [OF k, of "int j"] that by (simp add: same_node_def slot_def node_ident_def)
  have "nodes_ok (nodestatsmem M')" and "used (nodestatsmem M') j = used (nodestatsmem M) j" for j
    using ok len id k
    by (auto simp: manager_ok_def tables_ok_def nodes_ok_def wf_slotmem_def ids_ok_def used_def in_range_def kept_def)
  then show ?thesis using ok k by (simp add: manager_ok_def tables_ok_def refs_ok_def hosts_ref_def kept_def)
qed

lemma kept_clean:
  assumes ok: "manager_ok M" and c: "removed_clean M" and k: "kept M M'"
  shows "removed_clean M'"
proof -
  have "named (slot (nodestatsmem M') (h_node (items (hoststatsmem M) ! j)))"
    if j: "j < length (inuse (hoststatsmem M))" "inuse (hoststatsmem M) ! j" for j
  proof -
    have "nat (h_node (items (hoststatsmem M) ! j)) < length (items (nodestatsmem M))"
      using used_in_items [OF manager_wf [OF ok] host_node_used [OF ok j]] by simp
    from kept_slot [OF k this] show ?thesis using c j by (simp add: same_node_named removed_clean_def)
  qed
  moreover have "removed_marked (nodestatsmem M')"
    unfolding removed_marked_def
  proof (intro allI impI)
    fix i
    assume "used (nodestatsmem M') i" and r: "JVMRoute (mess (slot (nodestatsmem M') i)) = ''REMOVED''"
    then have u: "used (nodestatsmem M) i" using k by (auto simp: kept_def used_def in_range_def dest: list_all2_lengthD)
    from kept_slot [OF k] used_in_items [OF manager_wf [OF ok] u] u r c
    show "n_remove (mess (slot (nodestatsmem M') i)) \<noteq> 0" by (auto simp: same_node_def removed_clean_def removed_marked_def)
  qed
  ultimately show ?thesis using k by (simp add: removed_clean_def kept_def)
qed

lemma kept_ws_update: "ws_update f w M = (w', M') \<Longrightarrow> kept M M'"
  by (rule kept_worker_only) (rule ws_update_only)

lemma check_proxy_worker_kept:
  assumes "check_proxy_worker E C R now i w M = (w', M')"
  shows "kept M M'"
proof -
  obtain rv s where t: "proxy_cluster_try_pingpong E C (node_url (ws M w)) (ws M w) = (rv, s)" by fastforce
  obtain w1 M1 where 1: "ws_update (\<lambda>_. s) w M = (w1, M1)" by fastforce
  obtain w2 M3 where 2: "ws_update (\<lambda>s. s\<lparr>ws_status := ws_status s OR pf_in_error E\<rparr>) w1 (loc_lock_nodes M1) = (w2, M3)"
    by fastforce
  have k1: "kept M (loc_lock_nodes M1)" using kept_ws_update [OF 1] by (blast intro: kept_trans kept_lock)
  then have k3: "kept M M3" using kept_ws_update [OF 2] by (blast intro: kept_trans)
  from k1 k3 kept_ws_update [OF 1] assms show ?thesis
    by (auto simp: check_proxy_worker_def t 1 2 Let_def split: if_splits intro: kept_trans kept_updates)
qed

lemma update_lbstatus_get_worker_kept: "update_lbstatus_get_worker i bals M = (p, bals', M') \<Longrightarrow> kept M M'"
  by (auto simp: update_lbstatus_get_worker_def split: prod.splits dest!: get_worker_from_id_stat_only intro: kept_worker_only)

lemma update_lbstatus_hcheck_kept:
  assumes "update_lbstatus_hcheck E C now i bals M = (b, bals', M')"
  shows "kept M M'"
proof -
  obtain p bals1 M1 where g: "update_lbstatus_get_worker i bals M = (p, bals1, M1)" by (rule prod_cases3)
  have k: "kept M M1" by (rule update_lbstatus_get_worker_kept [OF g])
  have f: "kept M1 (update_lbstatus_failure_idle E now i w M1)" for w by (simp add: update_lbstatus_failure_idle_def)
  show ?thesis
    using assms kept_trans [OF k f]  k by (auto simp: update_lbstatus_hcheck_def g split: option.splits if_splits)
qed

lemma update_lbstatus_oldcheck_kept:
  "update_lbstatus_oldcheck E C R now server i p bals M = (go, bals', M', ts) \<Longrightarrow> kept M M'"
  by (auto simp: update_lbstatus_oldcheck_def split: if_splits prod.splits dest: check_proxy_worker_kept)

lemma lbstatus_row_kept:
  assumes "lbstatus_row E C R now server i bals M = (go, bals', M', ts)"
  shows "kept M M'"
proof -
  let ?M1 = "update_node_slot i (refresh_lbstatus now) (loc_lock_nodes M)"
  have k1: "kept M ?M1" by (rule kept_trans [OF kept_lock(1)]) simp
  obtain w bals2 M2 where 2: "update_lbstatus_get_worker i bals ?M1 = (w, bals2, M2)" by (rule prod_cases3)
  obtain d bals3 M3 where 3: "update_lbstatus_hcheck E C now i bals2 M2 = (d, bals3, M3)" by (rule prod_cases3)
  note k1
  also have "kept ?M1 M2" by (rule update_lbstatus_get_worker_kept [OF 2])
  also have "kept M2 M3" by (rule update_lbstatus_hcheck_kept [OF 3])
  finally have k3: "kept M (loc_unlock_nodes M3)" by (rule kept_unlock)
  have k4: "kept M (loc_unlock_nodes (update_node_slot i clear_failures ?M1))"
    by (rule kept_unlock, rule kept_trans [OF k1]) simp
  have k5: "kept M (loc_unlock_nodes (loc_lock_nodes M))" by (rule kept_unlock) simp
  show ?thesis
    using assms k3 k4 k5 kept_trans [OF k3 update_lbstatus_oldcheck_kept]
    by (auto simp: lbstatus_row_def Let_def 2 3 split: if_splits bool.splits option.splits)
qed

lemma lbstatus_rows_kept: "lbstatus_rows E C R now server is bals M = (bals', M', ts) \<Longrightarrow> kept M M'"
proof (induction "is" arbitrary: bals M ts)
  case (Cons i "is")
  obtain go bals1 M1 ts1 where 1: "lbstatus_row E C R now server i bals M = (go, bals1, M1, ts1)" by (rule prod_cases4)
  have "kept M M1" by (rule lbstatus_row_kept [OF 1])
  then show ?case using Cons.prems Cons.IH by (auto simp: 1 split: if_splits prod.splits intro: kept_trans)
qed simp

lemma update_workers_lbstatus_kept:
  "update_workers_lbstatus E C R now server bals M = (bals', M', ts) \<Longrightarrow> kept M M'"
  by (auto simp: update_workers_lbstatus_def split: if_splits dest: lbstatus_rows_kept)

lemma remove_workers_node_kept:
  assumes "remove_workers_node E C now k bals M = (bals', M', a)"
  shows "kept M M'"
proof -
  obtain f bals1 M1 where 1: "get_worker_from_id_stat (n_id (mess (slot (nodestatsmem M) k))) k k bals M = (f, bals1, M1)"
    by (rule prod_cases3)
  have k1: "kept M M1" using get_worker_from_id_stat_only [OF 1] by (rule kept_worker_only)
  then have k2: "kept M (set_stat k g M1)" for g by (rule kept_trans) simp
  have k3: "kept M (set_mess k (\<lambda>n. n\<lparr>lastcleantry := now\<rparr>) (set_stat k g M1))" for g
    by (rule kept_trans [OF k2 [of g]]) (simp add: kept_set_mess)
  from k1 k2 k3 assms show ?thesis
    by (auto simp: remove_workers_node_def 1 Let_def split: option.splits if_splits)
qed

lemma remove_rows_kept: "remove_rows E C now is bals M = (bals', M', a) \<Longrightarrow> kept M M'"
proof (induction "is" arbitrary: bals M a)
  case (Cons i "is")
  obtain bals1 M1 a1 where 1: "remove_workers_node E C now i bals M = (bals1, M1, a1)" by (rule prod_cases3)
  have "kept M M1" by (rule remove_workers_node_kept [OF 1])
  then show ?case using Cons.prems Cons.IH by (auto simp: 1 split: if_splits prod.splits intro: kept_trans)
qed simp

lemma remove_workers_nodes_kept: "remove_workers_nodes E C now bals M = (bals', M', a) \<Longrightarrow> kept M M'"
  by (auto simp: remove_workers_nodes_def split: if_splits dest: remove_rows_kept)

lemma kept_fold: "(\<And>x M. kept M (f x M)) \<Longrightarrow> kept M (fold f xs M)"
  by (induction xs arbitrary: M) (auto intro: kept_trans)

lemma remove_timeout_sessionid_kept [simp]: "kept M (remove_timeout_sessionid S now M)"
proof -
  have "kept M (snd (loc_remove_sessionid S M x))" for M x
    by (rule kept_nodes) (auto simp: loc_remove_sessionid_def split: option.split prod.split)
  then show ?thesis by (auto simp: remove_timeout_sessionid_def Let_def split: option.split intro: kept_fold)
qed

lemma fold_domain_only:
  "(\<And>x M. \<exists>m. f x M = M\<lparr>domainstatsmem := m\<rparr>) \<Longrightarrow> \<exists>m. fold f xs M = M\<lparr>domainstatsmem := m\<rparr>"
proof (induction xs arbitrary: M)
  case Nil
  show ?case by (auto intro: exI [of _ "domainstatsmem M"])
next
  case (Cons x xs)
  then obtain m where "f x M = M\<lparr>domainstatsmem := m\<rparr>" by blast
  with Cons.IH [OF Cons.prems, of "M\<lparr>domainstatsmem := m\<rparr>"] show ?case by auto
qed

lemma remove_timeout_domain_only: "\<exists>m. remove_timeout_domain S now M = M\<lparr>domainstatsmem := m\<rparr>"
proof -
  have same: "\<exists>m. M = M\<lparr>domainstatsmem := m\<rparr>" for M :: manager by (rule exI [of _ "domainstatsmem M"]) simp
  have "\<exists>m. snd (loc_remove_domain S M x) = M\<lparr>domainstatsmem := m\<rparr>" for M x
    by (auto simp: loc_remove_domain_def split: prod.split)
  with same show ?thesis unfolding remove_timeout_domain_def Let_def by (auto intro!: fold_domain_only simp: same)
qed

lemma insert_update_domain_only: "\<exists>m. snd (loc_insert_update_domain S M d now) = M\<lparr>domainstatsmem := m\<rparr>"
  by (auto simp: loc_insert_update_domain_def split: prod.split)

lemma store_domain_only: "\<exists>m. store_domain S now n M = M\<lparr>domainstatsmem := m\<rparr>"
proof -
  let ?d = "\<lparr>d_id = 0, d_domain = Domain n, d_JVMRoute = JVMRoute n, d_balancer = n_balancer n, d_updatetime = 0\<rparr>"
  obtain m1 where 1: "snd (loc_insert_update_domain S M ?d now) = M\<lparr>domainstatsmem := m1\<rparr>"
    using insert_update_domain_only by blast
  obtain m2 where 2: "remove_timeout_domain S now (M\<lparr>domainstatsmem := m1\<rparr>) = M\<lparr>domainstatsmem := m2\<rparr>"
    using remove_timeout_domain_only [of S now "M\<lparr>domainstatsmem := m1\<rparr>"] by auto
  obtain m3 where 3: "snd (loc_insert_update_domain S (M\<lparr>domainstatsmem := m2\<rparr>) ?d now) = M\<lparr>domainstatsmem := m3\<rparr>"
    using insert_update_domain_only [of S "M\<lparr>domainstatsmem := m2\<rparr>" ?d now] by auto
  show ?thesis by (auto simp: store_domain_def Let_def case_prod_unfold 1 2 3)
qed

lemma frame_store:
  "0 \<le> i \<Longrightarrow> 0 \<le> j \<Longrightarrow> i \<noteq> j \<Longrightarrow> slot (nodestatsmem (update_node_slot i f M)) j = slot (nodestatsmem M) j"
  by (simp add: update_node_slot_def)

lemma slot_update:
  "in_range (nodestatsmem M) i \<Longrightarrow> slot (nodestatsmem (update_node_slot i f M)) i = f (slot (nodestatsmem M) i)"
  by (simp add: update_node_slot_def)

context manager_storage
begin

lemma remove_host_context_nodes [simp]: "nodestatsmem (loc_remove_host_context S k M) = nodestatsmem M"
  by (simp add: loc_remove_host_context_def Let_def)

lemma remove_host_context_hosts:
  assumes "manager_ok M" and "j < length (inuse (hoststatsmem (loc_remove_host_context S k M)))"
    and "inuse (hoststatsmem (loc_remove_host_context S k M)) ! j"
  shows "j < length (inuse (hoststatsmem M)) \<and> inuse (hoststatsmem M) ! j \<and> h_node (items (hoststatsmem M) ! j) \<noteq> k \<and>
     items (hoststatsmem (loc_remove_host_context S k M)) ! j = items (hoststatsmem M) ! j"
proof (cases "loc_get_max_size_host S M = 0")
  case True
  then have "inuse (hoststatsmem M) = []"
    using no_hosts_no_contexts(2) [of M] assms(1) by (simp add: manager_ok_def)
  with True assms(2) show ?thesis by (simp add: loc_remove_host_context_def)
next
  case False
  with assms remove_host_context_tables [of M k] show ?thesis by (simp add: manager_ok_def)
qed

text \<open>Marking a slot REMOVED after its virtual hosts are gone.\<close>

lemma set_removed_ok:
  assumes ok: "manager_ok M" and c: "removed_clean M" and u: "used (nodestatsmem M) k"
    and r: "n_remove (mess (slot (nodestatsmem M) k)) \<noteq> 0"
  shows "manager_ok (update_node_slot k (set_removed now) (loc_remove_host_context S k M)) \<and>
         removed_clean (update_node_slot k (set_removed now) (loc_remove_host_context S k M))"
proof -
  let ?M = "loc_remove_host_context S k M"
  have "manager_ok ?M" by (rule remove_host_context_ok [OF ok])
  then have "manager_ok (update_node_slot k (set_removed now) ?M)"
    by (rule update_node_slot_ok) (simp add: set_removed_def)
  moreover have "removed_clean (update_node_slot k (set_removed now) ?M)"
    unfolding removed_clean_def
  proof (intro conjI allI impI)
    have "slot (nodestatsmem (update_node_slot k (set_removed now) ?M)) i =
        (if i = k then set_removed now (slot (nodestatsmem M) k) else slot (nodestatsmem M) i)" if "used (nodestatsmem M) i" for i
      using that u frame_store [of k i "set_removed now" ?M] slot_update [of ?M k "set_removed now"] by (auto simp: used_def in_range_def)
    then show "removed_marked (nodestatsmem (update_node_slot k (set_removed now) ?M))"
      using c r by (auto simp: removed_marked_def removed_clean_def set_removed_def)
  next
    fix j
    let ?h = "hoststatsmem (update_node_slot k (set_removed now) ?M)"
    assume "j < length (inuse ?h)" "inuse ?h ! j"
    then have j: "j < length (inuse (hoststatsmem M))" "inuse (hoststatsmem M) ! j"
      "h_node (items (hoststatsmem M) ! j) \<noteq> k" "items ?h ! j = items (hoststatsmem M) ! j"
      using remove_host_context_hosts [OF ok, of j k] by simp_all
    have "0 \<le> h_node (items (hoststatsmem M) ! j)" "0 \<le> k"
      using used_in_items [OF manager_wf [OF ok]] host_node_used [OF ok j(1,2)] u by blast+
    then show "named (slot (nodestatsmem (update_node_slot k (set_removed now) ?M)) (h_node (items ?h ! j)))"
      using j c frame_store [of k "h_node (items (hoststatsmem M) ! j)"] by (simp add: removed_clean_def)
  qed
  ultimately show ?thesis ..
qed

text \<open>Freeing a slot that no virtual host belongs to, in particular one marked REMOVED.\<close>

lemma free_node_ok:
  assumes ok: "manager_ok M" and c: "removed_clean M" and u: "used (nodestatsmem M) k"
    and k: "\<And>j. j < length (inuse (hoststatsmem M)) \<Longrightarrow> inuse (hoststatsmem M) ! j \<Longrightarrow> h_node (items (hoststatsmem M) ! j) \<noteq> k"
  shows "manager_ok (snd (loc_remove_node S M k))" and "removed_clean (snd (loc_remove_node S M k))"
    and "nodestatsmem (snd (loc_remove_node S M k)) = (nodestatsmem M)\<lparr>inuse := (inuse (nodestatsmem M))[nat k := False]\<rparr>"
proof -
  let ?M = "snd (loc_remove_node S M k)" and ?nm = "nodestatsmem M"
  have wf: "wf_slotmem ?nm" by (rule manager_wf [OF ok])
  have nm: "?M = M\<lparr>nodestatsmem := ?nm\<lparr>inuse := (inuse ?nm)[nat k := False]\<rparr>\<rparr>"
    using sn.release_used [OF wf u] by (simp add: loc_remove_node_def remove_node_def)
  then show "nodestatsmem ?M = ?nm\<lparr>inuse := (inuse ?nm)[nat k := False]\<rparr>" by simp
  have "nodes_ok (nodestatsmem ?M)"
    using ok by (auto simp: nm manager_ok_def tables_ok_def nodes_ok_def wf_slotmem_def ids_ok_def nth_update_False)
  moreover have "hosts_ref (nodestatsmem ?M) (hoststatsmem M)"
  proof -
    have "used (nodestatsmem ?M) (h_node (items (hoststatsmem M) ! j))"
      if "j < length (inuse (hoststatsmem M))" "inuse (hoststatsmem M) ! j" for j
      using host_node_used [OF ok that] k [OF that] u
      by (auto simp: nm used_def in_range_def nth_list_update eq_nat_nat_iff)
    then show ?thesis by (simp add: hosts_ref_def)
  qed
  ultimately show "manager_ok ?M" using ok by (simp add: nm manager_ok_def tables_ok_def refs_ok_def)
  have "used (?nm\<lparr>inuse := (inuse ?nm)[nat k := False]\<rparr>) i \<Longrightarrow> used ?nm i" for i
    using wf by (auto simp: used_def in_range_def wf_slotmem_def nth_update_False)
  then show "removed_clean ?M" using c by (auto simp: nm removed_clean_def removed_marked_def slot_def)
qed

lemma free_removed_ok:
  assumes ok: "manager_ok M" and c: "removed_clean M" and u: "used (nodestatsmem M) k"
    and r: "JVMRoute (mess (slot (nodestatsmem M) k)) = ''REMOVED''"
  shows "manager_ok (snd (loc_remove_node S M k))" and "removed_clean (snd (loc_remove_node S M k))"
    and "nodestatsmem (snd (loc_remove_node S M k)) = (nodestatsmem M)\<lparr>inuse := (inuse (nodestatsmem M))[nat k := False]\<rparr>"
proof -
  have "h_node (items (hoststatsmem M) ! j) \<noteq> k" if "j < length (inuse (hoststatsmem M))" "inuse (hoststatsmem M) ! j" for j
    using c r that by (auto simp: removed_clean_def named_def)
  note f = free_node_ok [OF ok c u this]
  show "manager_ok (snd (loc_remove_node S M k))" and "removed_clean (snd (loc_remove_node S M k))"
    and "nodestatsmem (snd (loc_remove_node S M k)) = (nodestatsmem M)\<lparr>inuse := (inuse (nodestatsmem M))[nat k := False]\<rparr>"
    using f by simp_all
qed

lemma free_after_hosts:
  assumes ok: "manager_ok M" and c: "removed_clean M" and u: "used (nodestatsmem M) k"
  defines "M' \<equiv> snd (loc_remove_node S (loc_remove_host_context S k M) k)"
  shows "manager_ok M'" and "removed_clean M'" and "nodestatsmem M' = (nodestatsmem M)\<lparr>inuse := (inuse (nodestatsmem M))[nat k := False]\<rparr>"
proof -
  let ?M = "loc_remove_host_context S k M"
  have ok1: "manager_ok ?M" by (rule remove_host_context_ok [OF ok])
  have c1: "removed_clean ?M" using c remove_host_context_hosts [OF ok, of _ k] by (auto simp: removed_clean_def)
  have u1: "used (nodestatsmem ?M) k" using u by simp
  have "h_node (items (hoststatsmem ?M) ! j) \<noteq> k" if "j < length (inuse (hoststatsmem ?M))" "inuse (hoststatsmem ?M) ! j" for j
    using remove_host_context_hosts [OF ok that] by simp
  from free_node_ok [OF ok1 c1 u1 this]
  show "manager_ok M'" "removed_clean M'" "nodestatsmem M' = (nodestatsmem M)\<lparr>inuse := (inuse (nodestatsmem M))[nat k := False]\<rparr>"
    unfolding M'_def by simp_all
qed

end

section \<open>The life of a removed node\<close>

text \<open>
  What one pass does to the node of a slot, as a function of that node alone; \<open>None\<close> is a free
  slot.
\<close>

definition node_at :: "manager \<Rightarrow> int \<Rightarrow> nodeinfo option" where
  "node_at M i = (if used (nodestatsmem M) i then Some (slot (nodestatsmem M) i) else None)"

definition removed_effect :: "pconf \<Rightarrow> apr_time \<Rightarrow> nodeinfo \<Rightarrow> nodeinfo option" where
  "removed_effect C now ou =
     (if JVMRoute (mess ou) = ''REMOVED'' \<and> now - n_updatetime ou \<ge> wait_for_remove C then
        if node_has_workers (mess ou) then Some (ou\<lparr>n_updatetime := now\<rparr>)
        else if num_remove_check (mess ou) + 1 > 10 then None
        else Some (ou\<lparr>mess := (mess ou)\<lparr>num_remove_check := num_remove_check (mess ou) + 1\<rparr>\<rparr>)
      else if n_remove (mess ou) \<noteq> 0 \<and> now - n_updatetime ou \<ge> wait_for_remove C \<and>
              now - lastcleantry (mess ou) \<ge> wait_for_remove C
      then Some (set_removed now ou)
      else Some ou)"

lemma node_at_update:
  assumes "wf_slotmem (nodestatsmem M)" and "used (nodestatsmem M) i" and "0 \<le> j"
  shows "node_at (update_node_slot i f M) j = (if j = i then Some (f (slot (nodestatsmem M) i)) else node_at M j)"
proof -
  have "in_range (nodestatsmem M) i" "0 \<le> i" using assms(2) by (simp_all add: used_def in_range_def)
  then show ?thesis using assms frame_store [of i j f M] slot_update [of M i f] by (auto simp: node_at_def)
qed

lemma freed_at:
  assumes "wf_slotmem m" and "used m i" and "0 \<le> j"
  shows "(if used (m\<lparr>inuse := (inuse m)[nat i := False]\<rparr>) j then Some (slot (m\<lparr>inuse := (inuse m)[nat i := False]\<rparr>) j) else None) =
     (if j = i then None else if used m j then Some (slot m j) else None)"
  using assms by (auto simp: used_def in_range_def slot_def wf_slotmem_def nth_list_update eq_nat_nat_iff)

context manager_storage
begin

lemma removed_row_step:
  assumes ok: "manager_ok M" and c: "removed_clean M" and u: "used (nodestatsmem M) i"
  shows "manager_ok (removed_row S C now i M) \<and> removed_clean (removed_row S C now i M)"
    and "0 \<le> j \<Longrightarrow> node_at (removed_row S C now i M) j =
           (if j = i then removed_effect C now (slot (nodestatsmem M) i) else node_at M j)"
proof -
  let ?ou = "slot (nodestatsmem M) i" and ?M' = "removed_row S C now i M"
  have wf: "wf_slotmem (nodestatsmem M)" by (rule manager_wf [OF ok])
  have i: "0 \<le> i" "nat i < length (items (nodestatsmem M))" "inuse (nodestatsmem M) ! nat i"
    using used_in_items [OF wf u] by simp_all
  have id: "n_id (mess ?ou) = i"
    using ok i by (auto simp: manager_ok_def tables_ok_def nodes_ok_def ids_ok_def node_ident_def slot_def wf_slotmem_def)
  have rd: "mgr_read_node S M i = APR_SUCCESS"
    using sn.dptr_used [OF wf u] by (simp add: mgr_read_node_def get_node_def)
  let ?count = "\<lambda>n. n\<lparr>num_remove_check := num_remove_check n + 1\<rparr>"
  let ?M1 = "set_mess i ?count M"
  have "(manager_ok ?M' \<and> removed_clean ?M') \<and>
    (\<forall>j\<ge>0. node_at ?M' j = (if j = i then removed_effect C now ?ou else node_at M j))"
  proof (cases "JVMRoute (mess ?ou) = ''REMOVED'' \<and> now - n_updatetime ?ou \<ge> wait_for_remove C")
    case True
    consider (busy) "node_has_workers (mess ?ou)"
      | (free) "\<not> node_has_workers (mess ?ou)" "num_remove_check (mess ?ou) + 1 > 10"
      | (wait) "\<not> node_has_workers (mess ?ou)" "\<not> num_remove_check (mess ?ou) + 1 > 10" by blast
    then show ?thesis
    proof cases
      case busy
      then have M': "?M' = update_node_slot i (\<lambda>x. x\<lparr>n_updatetime := now\<rparr>) M"
        using True rd by (simp add: removed_row_def Let_def)
      have "kept M ?M'" unfolding M' by simp
      then show ?thesis using kept_ok [OF ok] kept_clean [OF ok c] node_at_update [OF wf u] True busy
        by (simp add: M' removed_effect_def)
    next
      case wait
      then have M': "?M' = ?M1" using True rd by (simp add: removed_row_def Let_def)
      have "kept M ?M1" by (simp add: kept_set_mess)
      then show ?thesis using kept_ok [OF ok] kept_clean [OF ok c] node_at_update [OF wf u] True wait
        by (simp add: M' removed_effect_def set_mess_def)
    next
      case free
      then have M': "?M' = snd (loc_remove_node S ?M1 i)" using True rd id by (simp add: removed_row_def Let_def)
      have k: "kept M ?M1" by (simp add: kept_set_mess)
      have u1: "used (nodestatsmem ?M1) i" using u by (simp add: set_mess_def)
      have "same_node ?ou (slot (nodestatsmem ?M1) i)" using kept_slot [OF k] i by blast
      then have "JVMRoute (mess (slot (nodestatsmem ?M1) i)) = ''REMOVED''" using True by (simp add: same_node_def)
      note f = free_removed_ok [OF kept_ok [OF ok k] kept_clean [OF ok c k] u1 this]
      have "node_at ?M' j = (if j = i then None else node_at ?M1 j)" if "0 \<le> j" for j
        unfolding node_at_def M' f(3) by (rule freed_at [OF manager_wf [OF kept_ok [OF ok k]] u1 that])
      moreover have "node_at ?M1 j = node_at M j" if "0 \<le> j" "j \<noteq> i" for j
        using that node_at_update [OF wf u, of j] by (simp add: set_mess_def)
      ultimately show ?thesis using f(1,2) True free by (simp add: M' removed_effect_def)
    qed
  next
    case False
    show ?thesis
    proof (cases "n_remove (mess ?ou) \<noteq> 0 \<and> now - n_updatetime ?ou \<ge> wait_for_remove C \<and>
        now - lastcleantry (mess ?ou) \<ge> wait_for_remove C")
      case True
      define M0 where "M0 = (if Domain (mess ?ou) \<noteq> [] then store_domain S now (mess ?ou) M else M)"
      have M0: "nodestatsmem M0 = nodestatsmem M" "kept M M0"
        using store_domain_only [of S now "mess ?ou" M] by (auto simp: M0_def intro: kept_nodes)
      have M': "?M' = update_node_slot i (set_removed now) (loc_remove_host_context S i M0)"
        using True False rd id by (auto simp: removed_row_def Let_def M0_def)
      have "manager_ok ?M' \<and> removed_clean ?M'"
        using set_removed_ok [OF kept_ok [OF ok M0(2)] kept_clean [OF ok c M0(2)], of i now] u True M0(1) by (simp add: M')
      moreover have "node_at ?M' j = (if j = i then Some (set_removed now ?ou) else node_at M j)" if "0 \<le> j" for j
        using node_at_update [of "loc_remove_host_context S i M0" i j "set_removed now"] wf u M0(1) that
        by (simp add: M' node_at_def)
      ultimately show ?thesis using True False by (auto simp: removed_effect_def)
    next
      case no: False
      then have "?M' = M" using False rd by (auto simp: removed_row_def Let_def)
      then show ?thesis using ok c u False no by (auto simp: removed_effect_def node_at_def)
    qed
  qed
  then show "manager_ok ?M' \<and> removed_clean ?M'"
    and "0 \<le> j \<Longrightarrow> node_at ?M' j = (if j = i then removed_effect C now ?ou else node_at M j)" by blast+
qed

lemma removed_rows_step:
  assumes "manager_ok M" and "removed_clean M" and "distinct is" and "\<forall>i \<in> set is. used (nodestatsmem M) i"
  shows "manager_ok (fold (removed_row S C now) is M) \<and> removed_clean (fold (removed_row S C now) is M) \<and>
     (\<forall>j\<ge>0. node_at (fold (removed_row S C now) is M) j =
        (if j \<in> set is then Option.bind (node_at M j) (removed_effect C now) else node_at M j))"
  using assms
proof (induction "is" arbitrary: M)
  case (Cons i "is")
  let ?M1 = "removed_row S C now i M"
  have u: "used (nodestatsmem M) i" using Cons.prems by simp
  note step = removed_row_step [OF Cons.prems(1,2) u, where C = C and now = now]
  have at: "node_at ?M1 j = node_at M j" if "j \<in> set is" "0 \<le> j" for j
    using that Cons.prems(3) step(2) by auto
  have pos: "0 \<le> j" if "used (nodestatsmem M) j" for j using that by (simp add: used_def in_range_def)
  have "used (nodestatsmem ?M1) j" if "j \<in> set is" for j
    using at [OF that] Cons.prems(4) that pos by (auto simp: node_at_def split: if_splits)
  then have IH: "manager_ok (fold (removed_row S C now) is ?M1) \<and> removed_clean (fold (removed_row S C now) is ?M1) \<and>
     (\<forall>j\<ge>0. node_at (fold (removed_row S C now) is ?M1) j =
        (if j \<in> set is then Option.bind (node_at ?M1 j) (removed_effect C now) else node_at ?M1 j))"
    using Cons.IH [of ?M1] Cons.prems(3) step(1) by simp
  moreover have "Option.bind (node_at M i) (removed_effect C now) = removed_effect C now (slot (nodestatsmem M) i)"
    using u by (simp add: node_at_def)
  ultimately show ?case using step(2) at Cons.prems(3) by auto
qed simp

lemma remove_removed_node_step:
  assumes "manager_ok M" and "removed_clean M"
  shows "manager_ok (remove_removed_node S C now M) \<and> removed_clean (remove_removed_node S C now M) \<and>
     (\<forall>j\<ge>0. node_at (remove_removed_node S C now M) j = Option.bind (node_at M j) (removed_effect C now))"
proof (cases "loc_get_max_size_node S M = 0")
  case True
  have "node_at M j = None" for j
    using True sn.num_slots_length [of "nodestatsmem M"] manager_wf [OF assms(1)]
    by (simp add: node_at_def used_def in_range_def loc_get_max_size_node_def get_max_size_node_def)
  with True assms show ?thesis by (simp add: remove_removed_node_def)
next
  case False
  have wf: "wf_slotmem (nodestatsmem M)" by (rule manager_wf [OF assms(1)])
  have cm: "consistent_manager S M" using assms(1) by unfold_locales
  note ids = consistent_manager.node_ids [OF cm]
  have iff: "j \<in> set (loc_get_ids_used_node S M) \<longleftrightarrow> used (nodestatsmem M) j" for j
    using used_iff_slots [OF wf, of j] by (force simp: ids image_iff)
  have "distinct (loc_get_ids_used_node S M)" by (simp add: ids distinct_map)
  from removed_rows_step [OF assms this, of C now] False show ?thesis
    by (auto simp: remove_removed_node_def iff node_at_def)
qed

end

section \<open>The lock\<close>

lemma worker_only_lock: "worker_only M M' \<Longrightarrow> node_lock M' = node_lock M"
proof -
  assume "worker_only M M'"
  then have M': "M' = M\<lparr>nodestatsmem := nodestatsmem M'\<rparr>" by (simp add: worker_only_def)
  show ?thesis by (subst M') simp
qed

lemmas lock_of_calls = ws_update_only [THEN worker_only_lock] get_worker_from_id_stat_only [THEN worker_only_lock]
  update_workers_node_only [THEN worker_only_lock]

lemma set_lock [simp]: "node_lock (set_stat k f M) = node_lock M" "node_lock (set_mess k g M) = node_lock M"
  by (simp_all add: set_stat_def set_mess_def)

lemma check_proxy_worker_lock: "check_proxy_worker E C R now i w M = (w', M') \<Longrightarrow> node_lock M' = node_lock M"
  by (auto simp: check_proxy_worker_def Let_def split: prod.splits if_splits dest!: lock_of_calls)

lemma update_lbstatus_get_worker_lock: "update_lbstatus_get_worker i bals M = (p, bals', M') \<Longrightarrow> node_lock M' = node_lock M"
  by (auto simp: update_lbstatus_get_worker_def split: prod.splits dest!: lock_of_calls)

lemma update_lbstatus_hcheck_lock:
  "update_lbstatus_hcheck E C now i bals M = (b, bals', M') \<Longrightarrow> node_lock M' = node_lock M"
  by (auto simp: update_lbstatus_hcheck_def update_lbstatus_failure_idle_def split: prod.splits option.splits if_splits
      dest!: update_lbstatus_get_worker_lock)

lemma update_lbstatus_oldcheck_lock:
  "update_lbstatus_oldcheck E C R now server i p bals M = (go, bals', M', ts) \<Longrightarrow> node_lock M' = node_lock M"
  by (auto simp: update_lbstatus_oldcheck_def split: if_splits prod.splits dest: check_proxy_worker_lock)

lemma lbstatus_row_lock:
  "lbstatus_row E C R now server i bals M = (go, bals', M', ts) \<Longrightarrow> node_lock M' = node_lock M"
  by (auto simp: lbstatus_row_def Let_def split: if_splits prod.splits bool.splits option.splits
      dest!: update_lbstatus_get_worker_lock update_lbstatus_hcheck_lock update_lbstatus_oldcheck_lock)

lemma lbstatus_rows_lock: "lbstatus_rows E C R now server is bals M = (bals', M', ts) \<Longrightarrow> node_lock M' = node_lock M"
  by (induction "is" arbitrary: bals M ts) (auto split: prod.splits if_splits dest!: lbstatus_row_lock)

lemma update_workers_lbstatus_lock:
  "update_workers_lbstatus E C R now server bals M = (bals', M', ts) \<Longrightarrow> node_lock M' = node_lock M"
  by (auto simp: update_workers_lbstatus_def split: if_splits dest: lbstatus_rows_lock)

lemma remove_workers_node_lock: "remove_workers_node E C now k bals M = (bals', M', a) \<Longrightarrow> node_lock M' = node_lock M"
  by (auto simp: remove_workers_node_def Let_def split: prod.splits option.splits if_splits dest!: lock_of_calls)

lemma remove_rows_lock: "remove_rows E C now is bals M = (bals', M', a) \<Longrightarrow> node_lock M' = node_lock M"
  by (induction "is" arbitrary: bals M a) (auto split: prod.splits if_splits dest!: remove_workers_node_lock)

lemma remove_workers_nodes_lock: "remove_workers_nodes E C now bals M = (bals', M', a) \<Longrightarrow> node_lock M' = node_lock M"
  by (auto simp: remove_workers_nodes_def split: if_splits dest: remove_rows_lock)

lemma fold_lock: "(\<And>x M. node_lock (f x M) = node_lock M) \<Longrightarrow> node_lock (fold f xs M) = node_lock M"
  by (induction xs arbitrary: M) simp_all

lemma remove_timeout_sessionid_lock [simp]: "node_lock (remove_timeout_sessionid S now M) = node_lock M"
proof -
  have "node_lock (snd (loc_remove_sessionid S M x)) = node_lock M" for M x
    by (auto simp: loc_remove_sessionid_def split: option.split prod.split)
  then show ?thesis by (auto simp: remove_timeout_sessionid_def Let_def split: option.split intro: fold_lock)
qed

lemma remove_removed_node_lock [simp]: "node_lock (remove_removed_node S C now M) = node_lock M"
proof -
  have "node_lock (store_domain S now n M) = node_lock M" for n M using store_domain_only [of S now n M] by auto
  moreover have "node_lock (loc_remove_host_context S k M) = node_lock M" for k M
    by (simp add: loc_remove_host_context_def Let_def)
  moreover have "node_lock (snd (loc_remove_node S M k)) = node_lock M" for k M
    by (simp add: loc_remove_node_def split: prod.split)
  ultimately show ?thesis by (auto simp: remove_removed_node_def removed_row_def Let_def intro!: fold_lock)
qed

section \<open>Runs of the watchdog\<close>

definition steady :: "manager \<Rightarrow> manager \<Rightarrow> bool" where
  "steady M M' \<longleftrightarrow> (manager_ok M \<and> removed_clean M \<longrightarrow> manager_ok M' \<and> removed_clean M') \<and> node_lock M' = node_lock M"

lemma steady_refl [simp]: "steady M M"
  by (simp add: steady_def)

lemma steady_trans [trans]: "steady M M' \<Longrightarrow> steady M' M'' \<Longrightarrow> steady M M''"
  by (simp add: steady_def)

lemma steady_kept: "kept M M' \<Longrightarrow> node_lock M' = node_lock M \<Longrightarrow> steady M M'"
  using kept_ok kept_clean by (auto simp: steady_def)

lemma steady_removed:
  assumes "manager_storage S"
  shows "steady M (loc_unlock_nodes (remove_removed_node S C now (loc_lock_nodes M)))"
proof -
  have "manager_ok (loc_unlock_nodes M1) \<longleftrightarrow> manager_ok M1" "removed_clean (loc_unlock_nodes M1) \<longleftrightarrow> removed_clean M1"
    "manager_ok (loc_lock_nodes M1) \<longleftrightarrow> manager_ok M1" "removed_clean (loc_lock_nodes M1) \<longleftrightarrow> removed_clean M1" for M1
    by (simp_all add: manager_ok_def tables_ok_def refs_ok_def removed_clean_def)
  then show ?thesis using manager_storage.remove_removed_node_step [OF assms, of "loc_lock_nodes M" C now]
    by (simp add: steady_def)
qed

lemma watchdog_server_steady:
  assumes S: "manager_storage (pe_storage E)" and w: "watchdog_server E C R now server nodes bals M = (bals', M', ts, a)"
  shows "steady M M'"
proof -
  obtain bals2 M2 a2 where 2: "(case nodes of
               None \<Rightarrow> (bals, loc_lock_nodes M, False)
             | Some nt \<Rightarrow>
                 (case update_workers_node E C now (server = 0) False nt bals (loc_lock_nodes M) of
                    (bals1, M1) \<Rightarrow> (case check_workers E C M1 bals1 of (bals2, a) \<Rightarrow> (bals2, M1, a)))) = (bals2, M2, a2)"
    by (rule prod_cases3)
  obtain bals3 M3 a3 where 3: "remove_workers_nodes E C now bals2 M2 = (bals3, M3, a3)" by (rule prod_cases3)
  obtain bals4 M4 ts4 where 4: "update_workers_lbstatus E C R now server bals3 (loc_unlock_nodes M3) = (bals4, M4, ts4)"
    by (rule prod_cases3)
  have M': "M' = loc_unlock_nodes (remove_removed_node (pe_storage E) C now
      (loc_lock_nodes (remove_timeout_sessionid (pe_storage E) now M4)))"
    using w by (simp add: watchdog_server_def Let_def 2 3 4)
  have l2: "node_lock M2 = node_lock M + 1" and "worker_only (loc_lock_nodes M) M2"
    using 2 by (auto split: option.splits prod.splits dest: update_workers_node_only lock_of_calls(3))
  then have "kept M M2" by (blast intro: kept_trans kept_lock kept_worker_only)
  also have "kept M2 M3" by (rule remove_workers_nodes_kept [OF 3])
  finally have "kept M (loc_unlock_nodes M3)" by blast
  then have "steady M (loc_unlock_nodes M3)" using l2 remove_workers_nodes_lock [OF 3] by (simp add: steady_kept)
  also have "steady (loc_unlock_nodes M3) M4"
    using update_workers_lbstatus_kept [OF 4] update_workers_lbstatus_lock [OF 4] by (rule steady_kept)
  also have "steady M4 (remove_timeout_sessionid (pe_storage E) now M4)" by (simp add: steady_kept)
  also have "steady \<dots> M'" unfolding M' by (rule steady_removed [OF S])
  finally show ?thesis .
qed

lemma watchdog_servers_steady:
  assumes S: "manager_storage (pe_storage E)"
  shows "watchdog_servers E C R now server nodes bs M = (bs', M', ts, a) \<Longrightarrow> steady M M'"
proof (induction bs arbitrary: server M bs' ts a)
  case (Cons bals rest)
  obtain bals1 M1 ts1 a1 where 1: "watchdog_server E C R now server nodes bals M = (bals1, M1, ts1, a1)" by (rule prod_cases4)
  have "steady M M1" by (rule watchdog_server_steady [OF S 1])
  then show ?case using Cons by (auto simp: 1 split: prod.splits intro: steady_trans)
qed simp

lemma watchdog_func_steady:
  assumes "manager_storage (pe_storage E)" and "proxy_cluster_watchdog_func E C R now Q M = (Q', M')"
  shows "steady M M'"
proof -
  have u: "steady M (loc_worker_nodes_are_updated v M1)" if "steady M M1" for M1 v
    using that by (simp add: steady_def loc_worker_nodes_are_updated_def manager_ok_def tables_ok_def refs_ok_def removed_clean_def)
  show ?thesis
    using assms(2) watchdog_servers_steady [OF assms(1)] u
    by (auto simp: proxy_cluster_watchdog_func_def Let_def split: prod.splits if_splits)
qed

text \<open>C28: a run of the watchdog keeps shared memory consistent. If the tables are consistent and no
  virtual host belongs to a slot marked REMOVED, the same holds after the run, whatever the
  network answers, and the run gives back every lock it takes on the node table.
\<close>

theorem watchdog_invariant:
  assumes "manager_storage (pe_storage E)" and "manager_ok M" and "removed_clean M"
    and "proxy_cluster_watchdog_func E C R now Q M = (Q', M')"
  shows "manager_ok M' \<and> removed_clean M' \<and> node_lock M' = node_lock M"
proof -
  have "steady M M'" by (rule watchdog_func_steady [OF assms(1,4)])
  with assms(2,3) show ?thesis by (simp add: steady_def)
qed

text \<open>C29: a pass over the removed nodes treats every slot alone. What it leaves in a slot depends only
  on the node that was there: nodes not marked stay as they are, a marked node is first renamed to
  REMOVED, then counted, and freed at the eleventh count; a node that still has workers waits.
\<close>

theorem remove_removed_node_pointwise:
  assumes "manager_storage S" and "manager_ok M" and "removed_clean M" and "0 \<le> i"
  shows "node_at (remove_removed_node S C now M) i = Option.bind (node_at M i) (removed_effect C now)"
  using manager_storage.remove_removed_node_step [OF assms(1-3)] assms(4) by blast

lemma removed_effect_count:
  assumes "JVMRoute (mess ou) = ''REMOVED''" and "\<not> node_has_workers (mess ou)" and "now - n_updatetime ou \<ge> wait_for_remove C"
  shows "removed_effect C now ou = (if num_remove_check (mess ou) + 1 > 10 then None
     else Some (ou\<lparr>mess := (mess ou)\<lparr>num_remove_check := num_remove_check (mess ou) + 1\<rparr>\<rparr>))"
  using assms by (simp add: removed_effect_def)

definition due :: "pconf \<Rightarrow> apr_time list \<Rightarrow> nodeinfo \<Rightarrow> bool" where
  "due C ts ou \<longleftrightarrow> JVMRoute (mess ou) = ''REMOVED'' \<and> \<not> node_has_workers (mess ou) \<and>
     (\<forall>t \<in> set ts. t - n_updatetime ou \<ge> wait_for_remove C) \<and>
     num_remove_check (mess ou) \<le> 10 \<and> num_remove_check (mess ou) + int (length ts) > 10"

lemma due_step: "due C (t # ts) ou \<Longrightarrow> removed_effect C t ou = Some ou' \<Longrightarrow> due C ts ou'"
  by (auto simp: due_def removed_effect_count node_has_workers_def split: if_splits)

lemma removed_passes:
  assumes S: "manager_storage S" and "manager_ok M" and "removed_clean M" and "0 \<le> i"
    and "\<forall>ou. node_at M i = Some ou \<longrightarrow> due C ts ou"
  shows "node_at (fold (remove_removed_node S C) ts M) i = None"
  using assms(2-)
proof (induction ts arbitrary: M)
  case Nil
  then show ?case by (cases "node_at M i") (auto simp: due_def)
next
  case (Cons t ts)
  let ?M = "remove_removed_node S C t M"
  have step: "manager_ok ?M" "removed_clean ?M" "node_at ?M i = Option.bind (node_at M i) (removed_effect C t)"
    using manager_storage.remove_removed_node_step [OF S Cons.prems(1,2), of C t] Cons.prems(3) by blast+
  have "due C ts ou" if "node_at ?M i = Some ou" for ou
    using that Cons.prems(4) due_step by (auto simp: step(3) bind_eq_Some_conv)
  then show ?case using Cons.IH [of ?M] step Cons.prems(3) by simp
qed

lemma clean_no_hosts:
  assumes ok: "manager_ok M" and c: "removed_clean M" and r: "JVMRoute (mess (slot (nodestatsmem M) i)) = ''REMOVED''"
  shows "used (hoststatsmem M) j \<Longrightarrow> h_node (slot (hoststatsmem M) j) \<noteq> i"
    and "used (contextstatsmem M) j \<Longrightarrow> c_node (slot (contextstatsmem M) j) \<noteq> i"
proof -
  have wf: "wf_slotmem (hoststatsmem M)" "wf_slotmem (contextstatsmem M)"
    using ok by (simp_all add: manager_ok_def tables_ok_def table_ok_def)
  have h: "h_node (items (hoststatsmem M) ! k) \<noteq> i" if "k < length (inuse (hoststatsmem M))" "inuse (hoststatsmem M) ! k" for k
    using that c r by (auto simp: removed_clean_def named_def)
  show "used (hoststatsmem M) j \<Longrightarrow> h_node (slot (hoststatsmem M) j) \<noteq> i"
    using h [of "nat j"] wf(1) by (auto simp: used_def in_range_def slot_def wf_slotmem_def)
  assume "used (contextstatsmem M) j"
  then have "nat j < length (inuse (contextstatsmem M))" "inuse (contextstatsmem M) ! nat j"
    using wf(2) by (auto simp: used_def in_range_def wf_slotmem_def)
  then obtain k where "k < length (inuse (hoststatsmem M))" "inuse (hoststatsmem M) ! k"
    "h_node (items (hoststatsmem M) ! k) = c_node (slot (contextstatsmem M) j)"
    using ok by (auto simp: manager_ok_def refs_ok_def contexts_ref_def slot_def)
  with h show "c_node (slot (contextstatsmem M) j) \<noteq> i" by metis
qed

text \<open>C30: a removed node goes away. Take a node that is marked as removed, has no workers left and was
  not touched for \<open>wait_for_remove\<close>. The next pass takes it out of service: none of its virtual
  hosts and contexts is left. After \<open>wait_for_remove\<close> more, eleven passes free its slot.
\<close>

theorem removed_node_freed:
  assumes "manager_storage S" and "manager_ok M" and "removed_clean M" and "used (nodestatsmem M) i"
    and "ou = slot (nodestatsmem M) i" and "n_remove (mess ou) \<noteq> 0" and "JVMRoute (mess ou) \<noteq> ''REMOVED''"
    and "has_workers (mess ou) = 0" and "t0 - n_updatetime ou \<ge> wait_for_remove C"
    and "t0 - lastcleantry (mess ou) \<ge> wait_for_remove C"
    and "length ts = 11" and "\<forall>t \<in> set ts. t - t0 \<ge> wait_for_remove C" and "M1 = remove_removed_node S C t0 M"
  shows "(\<forall>j. used (hoststatsmem M1) j \<longrightarrow> h_node (slot (hoststatsmem M1) j) \<noteq> i) \<and>
         (\<forall>j. used (contextstatsmem M1) j \<longrightarrow> c_node (slot (contextstatsmem M1) j) \<noteq> i) \<and>
         \<not> used (nodestatsmem (fold (remove_removed_node S C) ts M1)) i"
proof -
  have i: "0 \<le> i" using assms(4) by (simp add: used_def in_range_def)
  have step: "manager_ok M1" "removed_clean M1" "node_at M1 i = Option.bind (node_at M i) (removed_effect C t0)"
    using manager_storage.remove_removed_node_step [OF assms(1-3), of C t0] i assms(13) by blast+
  then have n: "node_at M1 i = Some (set_removed t0 ou)"
    using assms(4-10) by (simp add: node_at_def removed_effect_def)
  then have "due C ts (set_removed t0 ou)" using assms(8,11,12) by (simp add: due_def set_removed_def node_has_workers_def)
  then have "node_at (fold (remove_removed_node S C) ts M1) i = None"
    using removed_passes [OF assms(1) step(1,2) i] n by simp
  moreover have "JVMRoute (mess (slot (nodestatsmem M1) i)) = ''REMOVED''"
    using n by (simp add: node_at_def set_removed_def split: if_splits)
  ultimately show ?thesis using clean_no_hosts [OF step(1,2)] by (auto simp: node_at_def split: if_splits)
qed

section \<open>Examples\<close>

definition small_child :: child where
  "small_child = \<lparr>servers = [[]], aborted = False, cached_tables = None, last_cached = 0, thread_tasks = []\<rparr>"

definition small_run :: wrun where
  "small_run = \<lparr>child_stopping = False, pool_takes = False\<rparr>"

text \<open>The small manager whose node was marked as removed at time 7.\<close>

definition small_manager_removed :: manager where
  "small_manager_removed = update_node_slot 0 (\<lambda>x. x\<lparr>mess := (mess x)\<lparr>n_remove := 1\<rparr>, n_updatetime := 7\<rparr>) small_manager1"

lemma small_manager1_clean: "removed_clean small_manager1"
  by (auto simp: removed_clean_def removed_marked_def named_def small_manager1_def slot_def zero_node_def zero_mess_def
      used_def in_range_def less_Suc_eq)

lemma small_manager_removed_kept: "kept small_manager1 small_manager_removed"
  unfolding small_manager_removed_def by (rule kept_update) (simp add: same_node_def)

lemmas small_manager_removed_ok = kept_ok [OF small_manager1_ok small_manager_removed_kept]
  kept_clean [OF small_manager1_ok small_manager1_clean small_manager_removed_kept]

theorem watchdog_invariant_witness:
  "manager_ok (snd (proxy_cluster_watchdog_func small_proxy small_conf small_run 20000000 small_child small_manager_removed)) \<and>
   node_lock (snd (proxy_cluster_watchdog_func small_proxy small_conf small_run 20000000 small_child small_manager_removed)) = 0"
proof -
  obtain Q' M' where p: "proxy_cluster_watchdog_func small_proxy small_conf small_run 20000000 small_child small_manager_removed = (Q', M')"
    by fastforce
  have "manager_storage (pe_storage small_proxy)" using shm_mgr.manager_storage_axioms by (simp add: small_proxy_def)
  moreover have "node_lock small_manager_removed = 0" by code_simp
  ultimately show ?thesis using watchdog_invariant [OF _ small_manager_removed_ok p] by (simp add: p)
qed

theorem remove_removed_node_pointwise_witness:
  "map_option (\<lambda>n. JVMRoute (mess n)) (node_at (remove_removed_node shm_storage small_conf 20000000 small_manager_removed) 0)
     = Some ''REMOVED''"
proof -
  have "map_option (\<lambda>n. JVMRoute (mess n))
      (Option.bind (node_at small_manager_removed 0) (removed_effect small_conf 20000000)) = Some ''REMOVED''"
    by code_simp
  then show ?thesis
    using remove_removed_node_pointwise [OF shm_mgr.manager_storage_axioms small_manager_removed_ok, of 0] by simp
qed

theorem removed_node_freed_witness:
  "\<not> used (nodestatsmem (fold (remove_removed_node shm_storage small_conf) (replicate 11 40000000)
      (remove_removed_node shm_storage small_conf 20000000 small_manager_removed))) 0"
proof -
  have "used (nodestatsmem small_manager_removed) 0" by code_simp
  moreover have "n_remove (mess (slot (nodestatsmem small_manager_removed) 0)) \<noteq> 0"
    "JVMRoute (mess (slot (nodestatsmem small_manager_removed) 0)) \<noteq> ''REMOVED''"
    "has_workers (mess (slot (nodestatsmem small_manager_removed) 0)) = 0"
    "20000000 - n_updatetime (slot (nodestatsmem small_manager_removed) 0) \<ge> wait_for_remove small_conf"
    "20000000 - lastcleantry (mess (slot (nodestatsmem small_manager_removed) 0)) \<ge> wait_for_remove small_conf"
    by code_simp+
  moreover have "\<forall>t \<in> set (replicate 11 40000000). t - 20000000 \<ge> wait_for_remove small_conf"
    by (simp add: small_conf_def)
  ultimately show ?thesis
    using removed_node_freed [OF shm_mgr.manager_storage_axioms small_manager_removed_ok, of 0 _ small_conf 20000000 "replicate 11 40000000"]
    by simp
qed

end
