(* ===== verification/Worker_Choice.thy ===== *)
theory Worker_Choice
  imports Watchdog "HOL-Library.List_Lexorder"
begin

unbundle bit_operations_syntax

text \<open>
  Choosing the worker of a request, \<open>mod_proxy_cluster/mod_proxy_cluster.c\<close>: the load comparison
  (\<open>isnode_domain_ok\<close>, \<open>internal_process_worker\<close>, \<open>internal_find_best_byrequests\<close>) and the wait for
  a free worker (\<open>find_best_worker\<close>). A worker of a balancer is its place in the list of workers.
\<close>

section \<open>Comparing workers\<close>

definition isnode_domain_ok :: "nodemess \<Rightarrow> string option \<Rightarrow> bool" where
  "isnode_domain_ok n domain = (case domain of None \<Rightarrow> True | Some d \<Rightarrow> Domain n = d)"

text \<open>
  The value workers are compared by: the requests since the last recalculation, scaled by the
  load factor, plus the load status, computed with \<open>size_t\<close>s and assigned to an \<open>int\<close>.
\<close>

definition lb_value :: "worker_shared \<Rightarrow> nodemess \<Rightarrow> int" where
  "lb_value s n =
     sint (ucast (((ws_elected s - oldelected n) * 1000) div word_of_int (ws_lbfactor s) + word_of_int (ws_lbstatus s)) :: 32 word)"

abbreviation (input) node_of :: "manager \<Rightarrow> worker_shared \<Rightarrow> nodeinfo" where
  "node_of M s \<equiv> slot (nodestatsmem M) (ws_index s)"

text \<open>
  The guards of \<open>internal_process_worker\<close> up to the domain, with the entry of \<open>best\<close> found for the
  worker. The array \<open>best\<close> is not NULL here, as \<open>internal_find_best_byrequests\<close> returns before.
\<close>

definition worker_context ::
  "proxy_env \<Rightarrow> manager \<Rightarrow> bool \<Rightarrow> bool \<Rightarrow> string option \<Rightarrow> node_context list \<Rightarrow> pworker \<Rightarrow> node_context option" where
  "worker_context E M standby checked_domain domain best w =
     (let s = ws M w in
      if ws_index s = -1 then None
      else if hp_index w \<noteq> ws_index s then None
      else if ws_lbfactor s < 0 \<or> ws_lbfactor s = 0 \<and> \<not> standby then None
      else if \<not> worker_is_usable E s then None
      else (case find_best_node (ws_index s) best of
              None \<Rightarrow> None
            | Some best1 \<Rightarrow>
                if read_node_worker (pe_storage E) M (ws_index s) s \<noteq> APR_SUCCESS then None
                else if w_s w \<noteq> InNode (ws_index s) then None
                else if \<not> checked_domain \<and> \<not> isnode_domain_ok (mess (node_of M s)) domain then None
                else Some best1))"

text \<open>
  The candidate so far is a worker and the context noted with it; \<open>node1\<close> is read anew in each
  call. The result tells whether the worker was returned, and the new candidate.
\<close>

definition internal_process_worker ::
  "proxy_env \<Rightarrow> manager \<Rightarrow> pworker list \<Rightarrow> bool \<Rightarrow> bool \<Rightarrow> string option \<Rightarrow> node_context list \<Rightarrow> nat
     \<Rightarrow> nat option \<times> node_context option \<Rightarrow> bool \<times> nat option \<times> node_context option" where
  "internal_process_worker E M workers standby checked_domain domain best i cand =
     (let s = ws M (workers ! i) in
      case worker_context E M standby checked_domain domain best (workers ! i) of
        None \<Rightarrow> (False, cand)
      | Some best1 \<Rightarrow>
          if ws_lbfactor s = 0 \<and> standby then (True, Some i, Some best1)
          else (case fst cand of
                  None \<Rightarrow> (True, Some i, Some best1)
                | Some j \<Rightarrow>
                    let s1 = ws M (workers ! j) in
                    if mgr_read_node (pe_storage E) M (ws_index s1) \<noteq> APR_SUCCESS then (True, None, snd cand)
                    else if ws_lbfactor s1 > 0 \<and> ws_lbfactor s \<noteq> 0 \<and>
                            lb_value s1 (mess (node_of M s1)) > lb_value s (mess (node_of M s))
                    then (True, Some i, Some best1)
                    else (True, cand)))"

text \<open>One pass over the workers, collecting those returned; a standby worker ends it.\<close>

fun pass_workers ::
  "proxy_env \<Rightarrow> manager \<Rightarrow> pworker list \<Rightarrow> bool \<Rightarrow> bool \<Rightarrow> string option \<Rightarrow> node_context list \<Rightarrow> nat list
     \<Rightarrow> nat option \<times> node_context option \<Rightarrow> nat list \<Rightarrow> (nat option \<times> node_context option) \<times> nat list" where
  "pass_workers E M workers standby checked domain best [] cand found = (cand, found)"
| "pass_workers E M workers standby checked domain best (i # is) cand found =
     (case internal_process_worker E M workers standby checked domain best i cand of
        (False, cand') \<Rightarrow> pass_workers E M workers standby checked domain best is cand' found
      | (True, cand') \<Rightarrow>
          if ws_lbfactor (ws M (workers ! i)) = 0 \<and> standby then (cand', found @ [i])
          else pass_workers E M workers standby checked domain best is cand' (found @ [i]))"

section \<open>Deterministic failover\<close>

definition schar :: "char \<Rightarrow> int" where
  "schar c = (if of_char c \<ge> (128 :: int) then of_char c - 256 else of_char c)"

definition c_rem :: "int \<Rightarrow> int \<Rightarrow> int" where
  "c_rem a b = a - c_div a b * b"

text \<open>
  The session's share of the workers found, in the order of their routes (workers with equal
  routes keep their order here, \<open>qsort\<close> leaves it open). A negative remainder reads before the
  array.
\<close>

definition deterministic_target ::
  "pconf \<Rightarrow> manager \<Rightarrow> pworker list \<Rightarrow> string option \<Rightarrow> nat list \<Rightarrow> nat option \<Rightarrow> nat option outcome" where
  "deterministic_target C M workers session_id found cand =
     (case session_id of
        None \<Rightarrow> Value cand
      | Some sid \<Rightarrow>
          (case apr_strtok (\<lambda>c. c = CHR ''.'') sid of
             None \<Rightarrow> Value cand
           | Some tok \<Rightarrow>
               if deterministic_failover C \<and> CHR ''.'' \<in> set sid \<and> found \<noteq> [] then
                 let sorted = sort_key (\<lambda>i. map of_char (ws_route (ws M (workers ! i))) :: nat list) found;
                     k = c_rem (sum_list (map schar tok)) (int (length found))
                 in if k < 0 then Undefined else Value (Some (sorted ! nat k))
               else Value cand))"

section \<open>The best worker\<close>

text \<open>
  The loop over the passes: first the session's domain, if there is one, then every domain, then
  also the standby workers. The result is the candidate with its context and the counter of
  domain passes.
\<close>

function choose_worker ::
  "proxy_env \<Rightarrow> pconf \<Rightarrow> manager \<Rightarrow> pworker list \<Rightarrow> string option \<Rightarrow> string option \<Rightarrow> bool \<Rightarrow> node_context list
     \<Rightarrow> nat \<Rightarrow> bool \<Rightarrow> nat option \<times> node_context option \<Rightarrow> nat list
     \<Rightarrow> (nat option \<times> node_context option \<times> nat) outcome" where
  "choose_worker E C M workers session_id domain failoverdomain best checked standby cand found =
     (case pass_workers E M workers standby (checked > 0) domain best [0..<length workers] cand found of
        (cand1, found1) \<Rightarrow>
          bind_outcome (deterministic_target C M workers session_id found1 (fst cand1)) (\<lambda>c.
            if c \<noteq> None then Value (c, snd cand1, checked)
            else if failoverdomain then Value (None, snd cand1, checked)
            else if checked > 0 \<and> standby then Value (None, snd cand1, checked + 1)
            else choose_worker E C M workers session_id domain failoverdomain best (checked + 1)
                   (standby \<or> checked > 0) (None, snd cand1) found1))"
  by pat_completeness auto
termination
  by (relation "measure (\<lambda>(_, _, _, _, _, _, _, _, checked, standby, _, _).
        (if standby then 0 else 1) + (if checked = 0 then 2 else 0))")
    (auto split: if_splits)

declare choose_worker.simps [simp del]

definition elect :: "worker_shared \<Rightarrow> worker_shared" where
  "elect s = s\<lparr>ws_elected := ws_elected s + 1\<rparr>"

text \<open>Workers for new nodes, unless the tables are cached (then the watchdog creates them).\<close>

definition refresh_workers ::
  "proxy_env \<Rightarrow> pconf \<Rightarrow> apr_time \<Rightarrow> bool \<Rightarrow> proxy_node_table \<Rightarrow> pbalancer list \<Rightarrow> manager \<Rightarrow> pbalancer list \<times> manager \<times> bool" where
  "refresh_workers E C now main nt bals M =
     (if cache_share_for C \<noteq> 0 then (bals, M, False)
      else case update_workers_node E C now main True (Some nt) bals (loc_lock_nodes M) of
             (bals1, M1) \<Rightarrow> (case check_workers E C M1 bals1 of (bals2, a) \<Rightarrow> (bals2, loc_unlock_nodes M1, a)))"

text \<open>
  The server of the request, with the balancer at place \<open>j\<close>. The result is the worker chosen, the
  request, the server's balancers, the manager, and whether an assertion failed.
\<close>

definition internal_find_best_byrequests ::
  "proxy_env \<Rightarrow> pconf \<Rightarrow> apr_time \<Rightarrow> bool \<Rightarrow> nat \<Rightarrow> string option \<Rightarrow> bool
     \<Rightarrow> proxy_vhost_table \<Rightarrow> proxy_context_table \<Rightarrow> proxy_node_table \<Rightarrow> preq \<Rightarrow> pbalancer list \<Rightarrow> manager
     \<Rightarrow> (nat option \<times> preq \<times> pbalancer list \<times> manager \<times> bool) outcome" where
  "internal_find_best_byrequests E C now main j domain failoverdomain vt ct nt r bals0 M0 =
     (let (bals, M, a) = refresh_workers E C now main nt bals0 M0
      in bind_outcome (find_node_context_host bals r (Some (bals ! j)) (nt_session_route r) (pc_use_alias C) vt ct nt) (\<lambda>(best, has, r1).
           case best of
             None \<Rightarrow> Value (None, if has then r1\<lparr>nt_no_context_error := True\<rparr> else r1, bals, M, a)
           | Some bs \<Rightarrow>
               let workers = bal_workers (bals ! j);
                   checked = (case domain of Some d \<Rightarrow> if d \<noteq> [] then 0 else 1 | None \<Rightarrow> 1)
               in bind_outcome
                    (choose_worker E C M workers (nt_session_id r1) domain failoverdomain bs checked False (None, None) [])
                    (\<lambda>(c, ctx, checked'). case c of
                       None \<Rightarrow> Value (None, r1\<lparr>ev_context_id := Some []\<rparr>, bals, M, a)
                     | Some i \<Rightarrow>
                         (case ctx of
                            None \<Rightarrow> Undefined
                          | Some (n, cid) \<Rightarrow>
                              (case ws_update elect (workers ! i) M of
                                 (w, M') \<Rightarrow>
                                   Value (Some i,
                                     r1\<lparr>nt_session_domain_ok := nt_session_domain_ok r1 \<or> checked' = 0,
                                        ev_context_id := Some (show_int cid)\<rparr>,
                                     set_worker_at (j, i) w bals, M', a))))))"

section \<open>Waiting for a worker\<close>

text \<open>
  \<open>find_best_worker\<close>: one attempt under the balancer's lock, and when it fails and the balancer has
  a timeout, attempts again after each sleep of a hundredth of it. Between two attempts other
  processes may change shared memory: \<open>others n\<close> is what happened before the attempt with \<open>n\<close>
  units of fuel left. \<open>None\<close> means that the fuel did not suffice.
\<close>

type_synonym choice = "nat option \<times> preq \<times> pbalancer list \<times> manager \<times> bool"

definition attempt ::
  "proxy_env \<Rightarrow> pconf \<Rightarrow> apr_time \<Rightarrow> bool \<Rightarrow> nat \<Rightarrow> string option \<Rightarrow> bool
     \<Rightarrow> proxy_vhost_table \<Rightarrow> proxy_context_table \<Rightarrow> proxy_node_table \<Rightarrow> preq \<Rightarrow> pbalancer list \<Rightarrow> manager \<Rightarrow> choice outcome" where
  "attempt E C now main j domain fo vt ct nt r bals M =
     (if pe_thread_lock E \<noteq> APR_SUCCESS then Value (None, r, bals, M, False)
      else internal_find_best_byrequests E C now main j domain fo vt ct nt r bals M)"

fun wait_for_worker ::
  "(preq \<Rightarrow> pbalancer list \<Rightarrow> manager \<Rightarrow> choice outcome) \<Rightarrow> (nat \<Rightarrow> manager \<Rightarrow> manager) \<Rightarrow> apr_time \<Rightarrow> apr_time \<Rightarrow> nat \<Rightarrow> apr_time
     \<Rightarrow> choice \<Rightarrow> choice outcome option" where
  "wait_for_worker try others timeout step 0 tval st = None"
| "wait_for_worker try others timeout step (Suc fuel) tval (c, r, bals, M, a) =
     (if tval < timeout then
        (case try r bals (others fuel M) of
           Value (None, r', bals', M', a') \<Rightarrow>
             wait_for_worker try others timeout step fuel (tval + step) (None, r', bals', M', a \<or> a')
         | Value (Some i, r', bals', M', a') \<Rightarrow> Some (Value (Some i, r', bals', M', a \<or> a'))
         | u \<Rightarrow> Some u)
      else Some (Value (c, r, bals, M, a)))"

definition find_best_worker ::
  "proxy_env \<Rightarrow> pconf \<Rightarrow> apr_time \<Rightarrow> bool \<Rightarrow> nat \<Rightarrow> string option \<Rightarrow> bool
     \<Rightarrow> proxy_vhost_table \<Rightarrow> proxy_context_table \<Rightarrow> proxy_node_table \<Rightarrow> (nat \<Rightarrow> manager \<Rightarrow> manager) \<Rightarrow> nat
     \<Rightarrow> preq \<Rightarrow> pbalancer list \<Rightarrow> manager \<Rightarrow> choice outcome option" where
  "find_best_worker E C now main j domain fo vt ct nt others fuel r bals M =
     (case attempt E C now main j domain fo vt ct nt r bals M of
        Value (None, r1, bals1, M1, a) \<Rightarrow>
          let timeout = bs_timeout (bals1 ! j) in
          if timeout \<noteq> 0
          then wait_for_worker (attempt E C now main j domain fo vt ct nt) others timeout (c_div timeout 100) fuel 0
                 (None, r1, bals1, M1, a)
          else Some (Value (None, r1, bals1, M1, a))
      | u \<Rightarrow> Some u)"

section \<open>The reference choice\<close>

text \<open>The first of the elements with the least value.\<close>

fun first_least :: "('a \<Rightarrow> int) \<Rightarrow> 'a list \<Rightarrow> 'a option" where
  "first_least f [] = None"
| "first_least f (x # xs) =
     (case first_least f xs of None \<Rightarrow> Some x | Some y \<Rightarrow> if f x \<le> f y then Some x else Some y)"

definition load_of :: "manager \<Rightarrow> pworker \<Rightarrow> int" where
  "load_of M w = lb_value (ws M w) (mess (node_of M (ws M w)))"

definition least_loaded ::
  "proxy_env \<Rightarrow> manager \<Rightarrow> pworker list \<Rightarrow> bool \<Rightarrow> string option \<Rightarrow> node_context list \<Rightarrow> nat option" where
  "least_loaded E M workers all_domains domain best =
     first_least (\<lambda>i. load_of M (workers ! i))
       (filter (\<lambda>i. worker_context E M False all_domains domain best (workers ! i) \<noteq> None) [0..<length workers])"

definition standby_worker :: "proxy_env \<Rightarrow> manager \<Rightarrow> pworker list \<Rightarrow> string option \<Rightarrow> node_context list \<Rightarrow> nat option" where
  "standby_worker E M workers domain best =
     find (\<lambda>i. worker_context E M True True domain best (workers ! i) \<noteq> None) [0..<length workers]"

definition orelse :: "'a option \<Rightarrow> 'a option \<Rightarrow> 'a option" where
  "orelse x y = (case x of None \<Rightarrow> y | Some _ \<Rightarrow> x)"

definition reference_choice ::
  "proxy_env \<Rightarrow> manager \<Rightarrow> pworker list \<Rightarrow> bool \<Rightarrow> string option \<Rightarrow> bool \<Rightarrow> node_context list \<Rightarrow> nat option" where
  "reference_choice E M workers has_domain domain failoverdomain best =
     (let everywhere = orelse (least_loaded E M workers True domain best)
            (if failoverdomain then None else standby_worker E M workers domain best)
      in if has_domain
         then orelse (least_loaded E M workers False domain best) (if failoverdomain then None else everywhere)
         else everywhere)"

lemma first_least_None [simp]: "first_least f xs = None \<longleftrightarrow> xs = []"
  by (cases xs) (auto split: option.splits)

lemma first_least_Some:
  "first_least f xs = Some x \<Longrightarrow> x \<in> set xs \<and> (\<forall>y \<in> set xs. f x \<le> f y)"
proof (induction xs arbitrary: x)
  case (Cons a xs)
  show ?case
  proof (cases "first_least f xs")
    case (Some b)
    with Cons.IH [OF Some] Cons.prems show ?thesis by (auto split: if_splits)
  qed (use Cons.prems in simp)
qed simp

lemma fold_first_least:
  "fold (\<lambda>x c. case c of None \<Rightarrow> Some x | Some y \<Rightarrow> if f y > f x then Some x else c) xs (Some z) = first_least f (z # xs)"
proof (induction xs arbitrary: z)
  case (Cons x xs)
  have "fold (\<lambda>x c. case c of None \<Rightarrow> Some x | Some y \<Rightarrow> if f y > f x then Some x else c) (x # xs) (Some z) =
      first_least f ((if f z > f x then x else z) # xs)" using Cons.IH by simp
  also have "\<dots> = first_least f (z # x # xs)" by (auto split: option.split)
  finally show ?case .
qed simp

text \<open>What the guards of a candidate guarantee.\<close>

lemma worker_context_Some:
  assumes "worker_context E M standby all_domains domain best w = Some ctx"
  shows "w_s w = InNode (ws_index (ws M w))" and "ws_lbfactor (ws M w) \<ge> 0" and "\<not> standby \<Longrightarrow> ws_lbfactor (ws M w) > 0"
    and "worker_is_usable E (ws M w)" and "ctx \<in> set best" and "fst ctx = ws_index (ws M w)"
    and "mgr_read_node (pe_storage E) M (ws_index (ws M w)) = APR_SUCCESS"
    and "worker_matches (ws M w) (mess (node_of M (ws M w)))"
    and "all_domains \<or> isnode_domain_ok (mess (node_of M (ws M w))) domain"
proof -
  have b: "find_best_node k bs = Some c \<Longrightarrow> c \<in> set bs \<and> fst c = k" for k bs c
    by (induction k bs rule: find_best_node.induct) (auto split: if_splits)
  have "w_s w = InNode (ws_index (ws M w)) \<and> ws_lbfactor (ws M w) \<ge> 0 \<and> (\<not> standby \<longrightarrow> ws_lbfactor (ws M w) > 0) \<and>
    worker_is_usable E (ws M w) \<and> find_best_node (ws_index (ws M w)) best = Some ctx \<and>
    read_node_worker (pe_storage E) M (ws_index (ws M w)) (ws M w) = APR_SUCCESS \<and>
    (all_domains \<or> isnode_domain_ok (mess (node_of M (ws M w))) domain)"
    using assms by (auto simp: worker_context_def Let_def split: if_splits option.splits)
  then show "w_s w = InNode (ws_index (ws M w))" and "ws_lbfactor (ws M w) \<ge> 0"
    and "\<not> standby \<Longrightarrow> ws_lbfactor (ws M w) > 0" and "worker_is_usable E (ws M w)" and "ctx \<in> set best"
    and "fst ctx = ws_index (ws M w)" and "mgr_read_node (pe_storage E) M (ws_index (ws M w)) = APR_SUCCESS"
    and "worker_matches (ws M w) (mess (node_of M (ws M w)))"
    and "all_domains \<or> isnode_domain_ok (mess (node_of M (ws M w))) domain"
    by (auto simp: read_node_worker_def Let_def dest: b split: if_splits)
qed

text \<open>One pass without standby workers is a fold that keeps the least loaded worker.\<close>

definition keep_least :: "manager \<Rightarrow> pworker list \<Rightarrow> nat \<Rightarrow> nat option \<Rightarrow> nat option" where
  "keep_least M workers i c =
     (case c of None \<Rightarrow> Some i | Some j \<Rightarrow> if load_of M (workers ! j) > load_of M (workers ! i) then Some i else c)"

definition cand_ok :: "(nat \<Rightarrow> node_context option) \<Rightarrow> nat option \<times> node_context option \<Rightarrow> bool" where
  "cand_ok f cand \<longleftrightarrow> (\<forall>j. fst cand = Some j \<longrightarrow> f j \<noteq> None \<and> snd cand = f j)"

lemma process_worker_active:
  assumes "cand_ok (\<lambda>i. worker_context E M False ad domain best (workers ! i)) cand"
  shows "\<exists>cand'. internal_process_worker E M workers False ad domain best i cand =
       (worker_context E M False ad domain best (workers ! i) \<noteq> None, cand') \<and>
     cand_ok (\<lambda>i. worker_context E M False ad domain best (workers ! i)) cand' \<and>
     fst cand' = (if worker_context E M False ad domain best (workers ! i) \<noteq> None
                  then keep_least M workers i (fst cand) else fst cand)"
proof (cases "worker_context E M False ad domain best (workers ! i)")
  case None
  with assms show ?thesis by (simp add: internal_process_worker_def)
next
  case (Some ctx)
  show ?thesis
  proof (cases "fst cand")
    case None
    with Some show ?thesis by (simp add: internal_process_worker_def Let_def keep_least_def cand_ok_def)
  next
    case cj: (Some j)
    then obtain cx where j: "worker_context E M False ad domain best (workers ! j) = Some cx" "snd cand = Some cx"
      using assms by (auto simp: cand_ok_def)
    have "ws_lbfactor (ws M (workers ! j)) > 0" "ws_lbfactor (ws M (workers ! i)) > 0"
      "mgr_read_node (pe_storage E) M (ws_index (ws M (workers ! j))) = APR_SUCCESS"
      using worker_context_Some(3,7) [OF j(1)] worker_context_Some(3) [OF Some] by simp_all
    then show ?thesis using Some cj j assms
      by (cases cand) (simp add: internal_process_worker_def Let_def keep_least_def cand_ok_def load_of_def)
  qed
qed

lemma pass_workers_active:
  assumes "cand_ok (\<lambda>i. worker_context E M False ad domain best (workers ! i)) cand"
  shows "\<exists>cand' found'. pass_workers E M workers False ad domain best is cand found = (cand', found') \<and>
     cand_ok (\<lambda>i. worker_context E M False ad domain best (workers ! i)) cand' \<and>
     fst cand' = fold (keep_least M workers)
       (filter (\<lambda>i. worker_context E M False ad domain best (workers ! i) \<noteq> None) is) (fst cand)"
  using assms
proof (induction "is" arbitrary: cand found)
  case (Cons i "is")
  obtain cand1 where p: "internal_process_worker E M workers False ad domain best i cand =
       (worker_context E M False ad domain best (workers ! i) \<noteq> None, cand1)"
    and ok: "cand_ok (\<lambda>i. worker_context E M False ad domain best (workers ! i)) cand1"
    and f: "fst cand1 = (if worker_context E M False ad domain best (workers ! i) \<noteq> None
                  then keep_least M workers i (fst cand) else fst cand)"
    using process_worker_active [OF Cons.prems, of i] by blast
  show ?case
    using Cons.IH [OF ok, of found] Cons.IH [OF ok, of "found @ [i]"] f
    by (cases "worker_context E M False ad domain best (workers ! i)") (simp_all add: p)
qed simp

lemma pass_active_least:
  "\<exists>cand' found'. pass_workers E M workers False ad domain best [0..<length workers] (None, ctx) found = (cand', found') \<and>
     cand_ok (\<lambda>i. worker_context E M False ad domain best (workers ! i)) cand' \<and>
     fst cand' = least_loaded E M workers ad domain best"
proof -
  have k: "keep_least M workers = (\<lambda>x c. case c of None \<Rightarrow> Some x
      | Some y \<Rightarrow> if load_of M (workers ! y) > load_of M (workers ! x) then Some x else c)"
    by (intro ext) (simp add: keep_least_def)
  have "fold (keep_least M workers) xs None = first_least (\<lambda>i. load_of M (workers ! i)) xs" for xs
    by (cases xs) (simp_all add: k fold_first_least del: first_least.simps(2))
  then show ?thesis
    using pass_workers_active [of E M ad domain best workers "(None, ctx)" "[0..<length workers]" found]
    by (simp add: cand_ok_def least_loaded_def)
qed

text \<open>The pass that admits standby workers, when no active worker is left.\<close>

lemma pass_standby:
  assumes none: "\<And>i. i \<in> set is \<Longrightarrow> worker_context E M False True domain best (workers ! i) = None"
  shows "\<exists>ctx' found'. pass_workers E M workers True True domain best is (None, ctx) found =
      ((find (\<lambda>i. worker_context E M True True domain best (workers ! i) \<noteq> None) is, ctx'), found') \<and>
     cand_ok (\<lambda>i. worker_context E M True True domain best (workers ! i))
       (find (\<lambda>i. worker_context E M True True domain best (workers ! i) \<noteq> None) is, ctx')"
  using none
proof (induction "is" arbitrary: found)
  case Nil
  show ?case by (simp add: cand_ok_def)
next
  case (Cons i "is")
  show ?case
  proof (cases "worker_context E M True True domain best (workers ! i)")
    case None
    then have "internal_process_worker E M workers True True domain best i (None, ctx) = (False, None, ctx)"
      by (simp add: internal_process_worker_def)
    then show ?thesis using Cons None by simp
  next
    case (Some c)
    have "worker_context E M False True domain best (workers ! i) = None" using Cons.prems by simp
    then have z: "ws_lbfactor (ws M (workers ! i)) = 0"
      using Some by (auto simp: worker_context_def Let_def split: if_splits)
    then have "internal_process_worker E M workers True True domain best i (None, ctx) = (True, Some i, Some c)"
      using Some by (simp add: internal_process_worker_def)
    then show ?thesis using Some z by (simp add: cand_ok_def)
  qed
qed

lemma least_loaded_None:
  "least_loaded E M workers ad domain best = None \<Longrightarrow> i \<in> set [0..<length workers] \<Longrightarrow>
   worker_context E M False ad domain best (workers ! i) = None"
  by (simp add: least_loaded_def filter_empty_conv del: not_None_eq)

definition no_failover_target :: "pconf \<Rightarrow> string option \<Rightarrow> bool" where
  "no_failover_target C session_id \<longleftrightarrow>
     \<not> deterministic_failover C \<or> (case session_id of None \<Rightarrow> True | Some sid \<Rightarrow> CHR ''.'' \<notin> set sid)"

lemma no_failover_target: "no_failover_target C sid \<Longrightarrow> deterministic_target C M workers sid found c = Value c"
  by (auto simp: no_failover_target_def deterministic_target_def split: option.split)

lemma choose_standby:
  assumes n: "no_failover_target C sid" and none: "least_loaded E M workers True domain best = None" and "checked > 0"
  shows "\<exists>ctx' k. choose_worker E C M workers sid domain False best checked True (None, ctx) found =
      Value (standby_worker E M workers domain best, ctx', k) \<and>
     cand_ok (\<lambda>i. worker_context E M True True domain best (workers ! i)) (standby_worker E M workers domain best, ctx')"
proof -
  obtain ctx' found' where p: "pass_workers E M workers True True domain best [0..<length workers] (None, ctx) found =
      ((standby_worker E M workers domain best, ctx'), found')"
    and ok: "cand_ok (\<lambda>i. worker_context E M True True domain best (workers ! i)) (standby_worker E M workers domain best, ctx')"
    using pass_standby [OF least_loaded_None [OF none]] unfolding standby_worker_def by blast
  show ?thesis
    by (subst choose_worker.simps) (use p ok \<open>checked > 0\<close> in \<open>auto simp: no_failover_target [OF n]\<close>)
qed

lemma choose_everywhere:
  assumes n: "no_failover_target C sid" and "checked > 0"
  shows "\<exists>ctx' k st. choose_worker E C M workers sid domain fo best checked False (None, ctx) found =
      Value (orelse (least_loaded E M workers True domain best)
               (if fo then None else standby_worker E M workers domain best), ctx', k) \<and>
     cand_ok (\<lambda>i. worker_context E M st True domain best (workers ! i))
       (orelse (least_loaded E M workers True domain best) (if fo then None else standby_worker E M workers domain best), ctx')"
proof -
  obtain c1 found1 where p: "pass_workers E M workers False True domain best [0..<length workers] (None, ctx) found = (c1, found1)"
    and ok: "cand_ok (\<lambda>i. worker_context E M False True domain best (workers ! i)) c1"
    and c1: "fst c1 = least_loaded E M workers True domain best"
    using pass_active_least [of E M workers True domain best ctx found] by blast
  show ?thesis
  proof (cases "least_loaded E M workers True domain best")
    case (Some i)
    then show ?thesis using ok c1
      by (subst choose_worker.simps, intro exI [of _ "snd c1"] exI [of _ checked] exI [of _ False])
        (use p \<open>checked > 0\<close> in \<open>simp add: no_failover_target [OF n] orelse_def cand_ok_def\<close>)
  next
    case None
    show ?thesis
    proof (cases fo)
      case True
      then show ?thesis using None c1
        by (subst choose_worker.simps) (use p \<open>checked > 0\<close> in \<open>simp add: no_failover_target [OF n] orelse_def cand_ok_def\<close>)
    next
      case False
      obtain ctx' k where "choose_worker E C M workers sid domain False best (checked + 1) True (None, snd c1) found1 =
          Value (standby_worker E M workers domain best, ctx', k)"
        "cand_ok (\<lambda>i. worker_context E M True True domain best (workers ! i)) (standby_worker E M workers domain best, ctx')"
        using choose_standby [OF n None, of "checked + 1" "snd c1" found1] by auto
      then show ?thesis using None c1 False
        by (subst choose_worker.simps, intro exI [of _ ctx'] exI [of _ k] exI [of _ True])
          (use p \<open>checked > 0\<close> in \<open>simp add: no_failover_target [OF n] orelse_def\<close>)
    qed
  qed
qed

lemma worker_context_weaken:
  "worker_context E M st ad domain best w = Some c \<Longrightarrow> worker_context E M True True domain best w = Some c"
  by (auto simp: worker_context_def Let_def split: if_splits option.splits)

lemma cand_ok_weaken:
  assumes "cand_ok (\<lambda>i. worker_context E M st ad domain best (workers ! i)) cand"
  shows "cand_ok (\<lambda>i. worker_context E M True True domain best (workers ! i)) cand"
proof -
  have "worker_context E M st ad domain best w = Some c \<Longrightarrow> worker_context E M True True domain best w = Some c" for w c
    by (rule worker_context_weaken)
  with assms show ?thesis by (auto simp: cand_ok_def simp del: split_paired_Ex)
qed

lemma choose_reference:
  assumes n: "no_failover_target C sid"
  shows "\<exists>ctx' k. choose_worker E C M workers sid domain fo best checked False (None, ctx) found =
      Value (reference_choice E M workers (checked = 0) domain fo best, ctx', k) \<and>
     cand_ok (\<lambda>i. worker_context E M True True domain best (workers ! i))
       (reference_choice E M workers (checked = 0) domain fo best, ctx')"
proof (cases "checked = 0")
  case False
  then show ?thesis using choose_everywhere [OF n, of checked E M workers domain fo best ctx found] cand_ok_weaken
    by (auto simp: reference_choice_def Let_def)
next
  case z: True
  obtain c1 found1 where p: "pass_workers E M workers False False domain best [0..<length workers] (None, ctx) found = (c1, found1)"
    and ok: "cand_ok (\<lambda>i. worker_context E M False False domain best (workers ! i)) c1"
    and c1: "fst c1 = least_loaded E M workers False domain best"
    using pass_active_least [of E M workers False domain best ctx found] by blast
  show ?thesis
  proof (cases "least_loaded E M workers False domain best = None \<and> \<not> fo")
    case True
    obtain ctx' k st where "choose_worker E C M workers sid domain fo best 1 False (None, snd c1) found1 =
      Value (orelse (least_loaded E M workers True domain best)
               (if fo then None else standby_worker E M workers domain best), ctx', k)"
      "cand_ok (\<lambda>i. worker_context E M st True domain best (workers ! i))
        (orelse (least_loaded E M workers True domain best) (if fo then None else standby_worker E M workers domain best), ctx')"
      using choose_everywhere [OF n, of 1 E M workers domain fo best "snd c1" found1] by auto
    then show ?thesis using True c1 z cand_ok_weaken
      by (subst choose_worker.simps, intro exI [of _ ctx'] exI [of _ k])
        (simp add: p no_failover_target [OF n] reference_choice_def orelse_def)
  next
    case False
    then show ?thesis using c1 z cand_ok_weaken [OF ok]
      by (subst choose_worker.simps, intro exI [of _ "snd c1"] exI [of _ 0])
        (cases "least_loaded E M workers False domain best",
         simp_all add: p no_failover_target [OF n] reference_choice_def orelse_def cand_ok_def)
  qed
qed

text \<open>C31: without deterministic failover the worker is chosen by load. The passes over the workers are
  equivalent to this reference: the least loaded active worker of the session's domain if the
  session has one; else, unless the failover is confined to the domain, the least loaded active
  worker of all, and only when there is none the first standby worker. Of equally loaded workers
  the first one wins. The context noted is one of the request's contexts on the chosen node.
\<close>

theorem choose_worker_reference:
  assumes "no_failover_target C session_id"
  shows "\<exists>ctx k. choose_worker E C M workers session_id domain failoverdomain best checked False (None, None) [] =
       Value (reference_choice E M workers (checked = 0) domain failoverdomain best, ctx, k) \<and>
     (\<forall>i. reference_choice E M workers (checked = 0) domain failoverdomain best = Some i \<longrightarrow>
        (\<exists>c \<in> set best. ctx = Some c \<and> fst c = ws_index (ws M (workers ! i))))"
proof -
  obtain ctx k where c: "choose_worker E C M workers session_id domain failoverdomain best checked False (None, None) [] =
       Value (reference_choice E M workers (checked = 0) domain failoverdomain best, ctx, k)"
    and ok: "cand_ok (\<lambda>i. worker_context E M True True domain best (workers ! i))
       (reference_choice E M workers (checked = 0) domain failoverdomain best, ctx)"
    using choose_reference [OF assms] by blast
  have "\<exists>c \<in> set best. ctx = Some c \<and> fst c = ws_index (ws M (workers ! i))"
    if "reference_choice E M workers (checked = 0) domain failoverdomain best = Some i" for i
  proof -
    have "worker_context E M True True domain best (workers ! i) \<noteq> None"
      and eq: "ctx = worker_context E M True True domain best (workers ! i)"
      using ok that by (simp_all add: cand_ok_def del: not_None_eq)
    then obtain c where "worker_context E M True True domain best (workers ! i) = Some c" "ctx = Some c" by auto
    then show ?thesis using worker_context_Some(5,6) by blast
  qed
  with c show ?thesis by blast
qed

section \<open>The worker chosen is fit to serve\<close>

text \<open>With or without deterministic failover, only workers that pass the guards are considered.\<close>

lemma process_worker_fit:
  assumes "\<forall>j. fst cand = Some j \<longrightarrow> worker_context E M True True domain best (workers ! j) \<noteq> None"
    and "internal_process_worker E M workers st ad domain best i cand = (b, cand')"
  shows "b \<longrightarrow> worker_context E M True True domain best (workers ! i) \<noteq> None"
    and "\<forall>j. fst cand' = Some j \<longrightarrow> worker_context E M True True domain best (workers ! j) \<noteq> None"
  using assms worker_context_weaken [of E M st ad domain best "workers ! i"]
  by (auto simp: internal_process_worker_def Let_def split: option.splits if_splits)

lemma pass_workers_fit:
  assumes "\<forall>j. fst cand = Some j \<longrightarrow> j < n \<and> worker_context E M True True domain best (workers ! j) \<noteq> None"
    and "\<forall>j \<in> set found. j < n \<and> worker_context E M True True domain best (workers ! j) \<noteq> None"
    and "pass_workers E M workers st ad domain best is cand found = (cand', found')" and "\<forall>i \<in> set is. i < n"
  shows "(\<forall>j. fst cand' = Some j \<longrightarrow> j < n \<and> worker_context E M True True domain best (workers ! j) \<noteq> None) \<and>
    (\<forall>j \<in> set found'. j < n \<and> worker_context E M True True domain best (workers ! j) \<noteq> None)"
  using assms
proof (induction "is" arbitrary: cand found)
  case (Cons i "is")
  obtain b cand1 where p: "internal_process_worker E M workers st ad domain best i cand = (b, cand1)" by (rule prod.exhaust)
  have "fst cand1 = Some j \<Longrightarrow> j = i \<or> fst cand = Some j" for j
    using p by (auto simp: internal_process_worker_def Let_def split: option.splits if_splits)
  then have 1: "\<forall>j. fst cand1 = Some j \<longrightarrow> j < n \<and> worker_context E M True True domain best (workers ! j) \<noteq> None"
    using process_worker_fit(2) [OF _ p] Cons.prems(1,4) by (metis list.set_intros(1))
  have 2: "b \<longrightarrow> worker_context E M True True domain best (workers ! i) \<noteq> None"
    using process_worker_fit(1) [OF _ p] Cons.prems(1) by blast
  show ?case
  proof (cases b)
    case False
    then show ?thesis using Cons.IH [OF 1 Cons.prems(2)] Cons.prems(3,4) p by simp
  next
    case True
    then have 3: "\<forall>j \<in> set (found @ [i]). j < n \<and> worker_context E M True True domain best (workers ! j) \<noteq> None"
      using 2 Cons.prems(2,4) by simp
    show ?thesis
    proof (cases "ws_lbfactor (ws M (workers ! i)) = 0 \<and> st")
      case stop: True
      then have "cand' = cand1" "found' = found @ [i]" using Cons.prems(3) p True by simp_all
      with 1 3 show ?thesis by blast
    next
      case go: False
      then have "pass_workers E M workers st ad domain best is cand1 (found @ [i]) = (cand', found')"
        using Cons.prems(3) p True by (simp split: if_splits)
      from Cons.IH [OF 1 3 this] Cons.prems(4) show ?thesis by simp
    qed
  qed
qed simp

lemma c_rem_bound:
  assumes "b > 0"
  shows "c_rem a b < b"
proof (cases "a < 0")
  case True
  have "- a - - a div b * b = - a mod b" by (rule minus_div_mult_eq_mod)
  then have "c_rem a b = - (- a mod b)" using True assms by (simp add: c_rem_def c_div_def)
  then show ?thesis using assms pos_mod_sign [of b "- a"] by linarith
next
  case False
  have "a - a div b * b = a mod b" by (rule minus_div_mult_eq_mod)
  then have "c_rem a b = a mod b" using False assms by (simp add: c_rem_def c_div_def)
  then show ?thesis using assms by simp
qed

lemma deterministic_target_fit:
  assumes "deterministic_target C M workers sid found c = Value (Some i)"
  shows "c = Some i \<or> i \<in> set found"
proof -
  have "sort_key f found ! nat (c_rem a (int (length found))) \<in> set found"
    if "found \<noteq> []" "\<not> c_rem a (int (length found)) < 0" for f :: "nat \<Rightarrow> nat list" and a
  proof -
    have "nat (c_rem a (int (length found))) < length (sort_key f found)"
      using that c_rem_bound [of "int (length found)" a] by simp
    then show ?thesis using nth_mem by (metis set_sort)
  qed
  then show ?thesis using assms by (auto simp: deterministic_target_def Let_def split: option.splits if_splits)
qed

lemma choose_worker_fit:
  assumes "choose_worker E C M workers sid domain fo best checked st cand found = Value (Some i, ctx, k)"
    and "\<forall>j. fst cand = Some j \<longrightarrow> j < length workers \<and> worker_context E M True True domain best (workers ! j) \<noteq> None"
    and "\<forall>j \<in> set found. j < length workers \<and> worker_context E M True True domain best (workers ! j) \<noteq> None"
  shows "i < length workers \<and> worker_context E M True True domain best (workers ! i) \<noteq> None"
  using assms
proof (induction E C M workers sid domain fo best checked st cand found rule: choose_worker.induct)
  case (1 E C M workers sid domain fo best checked st cand found)
  obtain cand1 found1 where p: "pass_workers E M workers st (checked > 0) domain best [0..<length workers] cand found = (cand1, found1)"
    by (rule prod.exhaust)
  have fit: "(\<forall>j. fst cand1 = Some j \<longrightarrow> j < length workers \<and> worker_context E M True True domain best (workers ! j) \<noteq> None) \<and>
    (\<forall>j \<in> set found1. j < length workers \<and> worker_context E M True True domain best (workers ! j) \<noteq> None)"
    using pass_workers_fit [OF "1.prems"(2,3) p] by simp
  note prem = "1.prems"(1) [unfolded choose_worker.simps [of E C M workers sid domain fo best checked st cand found] p]
  obtain c where c: "deterministic_target C M workers sid found1 (fst cand1) = Value c"
    using prem by (auto simp: bind_outcome_Value)
  show ?case
  proof (cases c)
    case (Some j)
    then have "i = j" using prem c by simp
    then show ?thesis using deterministic_target_fit c Some fit by blast
  next
    case None
    then show ?thesis
      using prem c fit "1.IH" [OF p [symmetric], of None] by (simp split: if_splits)
  qed
qed

lemma find_node_context_host_noted:
  "find_node_context_host bals r b route ua vt ct nt = Value (Some best, has, r1) \<Longrightarrow> nt_proxy_context r1 = Some best"
  by (auto simp: find_node_context_host_def Let_def bind_outcome_Value split: if_splits prod.splits)

text \<open>C32: the worker a request gets is fit to serve it. It is usable, not out of service (its load
  factor is not negative), attached to the status block of its node, that node can be read and has
  the worker's address, and it serves one of the contexts found for the request. The choice
  changes nothing in shared memory but the worker's counter of elections.
\<close>

theorem chosen_worker_fit:
  assumes "internal_find_best_byrequests E C now main j domain failoverdomain vt ct nt r bals0 M0 = Value (Some i, r', bals', M', a)"
    and "refresh_workers E C now main nt bals0 M0 = (bals, M, a0)"
    and "w = bal_workers (bals ! j) ! i" and "s = ws M w"
  shows "i < length (bal_workers (bals ! j)) \<and> worker_is_usable E s \<and> 0 \<le> ws_lbfactor s \<and> w_s w = InNode (ws_index s) \<and>
     mgr_read_node (pe_storage E) M (ws_index s) = APR_SUCCESS \<and> worker_matches s (mess (slot (nodestatsmem M) (ws_index s))) \<and>
     (\<exists>best c. nt_proxy_context r' = Some best \<and> (ws_index s, c) \<in> set best) \<and> M' = set_stat (ws_index s) elect M"
proof -
  obtain best has r1 where f: "find_node_context_host bals r (Some (bals ! j)) (nt_session_route r) (pc_use_alias C) vt ct nt
      = Value (Some best, has, r1)"
    using assms(1,2) by (auto simp: internal_find_best_byrequests_def bind_outcome_Value split: option.splits)
  define checked :: nat where "checked = (case domain of Some d \<Rightarrow> if d \<noteq> [] then 0 else 1 | None \<Rightarrow> 1)"
  let ?choose = "choose_worker E C M (bal_workers (bals ! j)) (nt_session_id r1) domain failoverdomain best checked False (None, None) []"
  obtain c ctx k where ch0: "?choose = Value (c, ctx, k)"
    and rest: "(case c of
                  None \<Rightarrow> Value (None, r1\<lparr>ev_context_id := Some []\<rparr>, bals, M, a0)
                | Some i \<Rightarrow>
                    (case ctx of
                       None \<Rightarrow> Undefined
                     | Some (n, cid) \<Rightarrow>
                         (case ws_update elect (bal_workers (bals ! j) ! i) M of
                            (w, M') \<Rightarrow>
                              Value (Some i, r1\<lparr>nt_session_domain_ok := nt_session_domain_ok r1 \<or> k = 0,
                                   ev_context_id := Some (show_int cid)\<rparr>, set_worker_at (j, i) w bals, M', a0))))
        = Value (Some i, r', bals', M', a)"
    using assms(1,2) f by (auto simp: internal_find_best_byrequests_def bind_outcome_Value Let_def checked_def)
  obtain i' n cid where ci: "c = Some i'" "ctx = Some (n, cid)"
    using rest by (cases c; cases ctx) auto
  have ch: "?choose = Value (Some i, ctx, k)" and M': "M' = snd (ws_update elect w M)"
    and r': "nt_proxy_context r' = nt_proxy_context r1"
    using rest ch0 assms(3) by (auto simp: ci split: prod.splits)
  have fit: "i < length (bal_workers (bals ! j)) \<and> worker_context E M True True domain best (bal_workers (bals ! j) ! i) \<noteq> None"
    using choose_worker_fit [OF ch] by simp
  then obtain c where c: "worker_context E M True True domain best w = Some c" using assms(3) by auto
  note g = worker_context_Some [OF c]
  have "M' = set_stat (ws_index s) elect M" using M' g(1) assms(4) by (simp add: ws_update_def)
  moreover have "(ws_index s, snd c) \<in> set best" using g(5,6) assms(4) by (metis prod.collapse)
  ultimately show ?thesis using g fit r' find_node_context_host_noted [OF f] assms(4) by auto
qed

section \<open>The wait ends\<close>

lemma wait_for_worker_returns:
  assumes "step > 0" and "timeout \<le> tval + int fuel * step"
  shows "wait_for_worker try others timeout step (Suc fuel) tval st \<noteq> None"
  using assms(2)
proof (induction fuel arbitrary: tval st)
  case 0
  then show ?case by (cases st) auto
next
  case (Suc fuel)
  obtain c r bals M a where st: "st = (c, r, bals, M, a)" by (rule prod_cases5)
  have "timeout \<le> tval + step + int fuel * step" using Suc.prems by (simp add: algebra_simps)
  note IH = Suc.IH [OF this]
  show ?case unfolding st wait_for_worker.simps(2) [of _ _ _ _ "Suc fuel"]
    using IH by (auto split: outcome.split option.split simp del: wait_for_worker.simps)
qed

text \<open>With a step of zero the wait goes on for as long as no worker turns up.\<close>

lemma wait_for_worker_stuck:
  assumes "\<And>r bals M. \<exists>r' bals' M' a'. try r bals M = Value (None, r', bals', M', a')" and "tval < timeout"
  shows "wait_for_worker try others timeout 0 fuel tval st = None"
proof (induction fuel arbitrary: st)
  case (Suc fuel)
  obtain c r bals M a where st: "st = (c, r, bals, M, a)" by (rule prod_cases5)
  obtain r' bals' M' a' where "try r bals (others fuel M) = Value (None, r', bals', M', a')" using assms(1) by blast
  then show ?case using Suc.IH assms(2) by (simp add: st)
qed simp

text \<open>C33: the search for a worker returns. If the balancer's timeout is not positive or at least 100
  microseconds, 201 rounds suffice, whatever other processes do in between. (A positive timeout
  below 100 microseconds gives a step of zero, and the search does not return as long as no worker
  is found.)
\<close>

theorem find_best_worker_returns:
  assumes "\<And>c r' bals' M' a. attempt E C now main j domain fo vt ct nt r bals M = Value (c, r', bals', M', a) \<Longrightarrow>
      bs_timeout (bals' ! j) \<le> 0 \<or> 100 \<le> bs_timeout (bals' ! j)" and "fuel > 200"
  shows "\<exists>u. find_best_worker E C now main j domain fo vt ct nt others fuel r bals M = Some u"
proof (cases "attempt E C now main j domain fo vt ct nt r bals M")
  case (Value st)
  obtain c r1 bals1 M1 a where st: "st = (c, r1, bals1, M1, a)" by (rule prod_cases5)
  let ?t = "bs_timeout (bals1 ! j)"
  have t: "?t \<le> 0 \<or> 100 \<le> ?t" using assms(1) Value st by blast
  obtain f where f: "fuel = Suc f" "f \<ge> 200" using assms(2) by (cases fuel) auto
  have w: "wait_for_worker (attempt E C now main j domain fo vt ct nt) others ?t (c_div ?t 100) fuel 0 (None, r1, bals1, M1, a) \<noteq> None"
  proof (cases "?t \<le> 0")
    case True
    then show ?thesis by (simp add: f(1))
  next
    case False
    then have step: "c_div ?t 100 = ?t div 100" "?t div 100 > 0" using t by (auto simp: c_div_def)
    have "?t \<le> 200 * (?t div 100)" using step(2) by linarith
    also have "\<dots> \<le> 0 + int f * (?t div 100)" using f(2) step(2) by (simp add: mult_right_mono)
    finally show ?thesis using wait_for_worker_returns [of "?t div 100" ?t 0 f] step f(1) by (simp del: wait_for_worker.simps)
  qed
  show ?thesis using Value w by (cases c) (auto simp: find_best_worker_def st Let_def)
qed (simp_all add: find_best_worker_def)

section \<open>Examples\<close>

text \<open>The small manager with its node up at load 10, and the balancer with the node's worker.\<close>

definition small_manager_up :: manager where
  "small_manager_up = small_manager2\<lparr>nodestatsmem := \<lparr>items =
     [\<lparr>mess = zero_mess\<lparr>JVMRoute := ''n1'', n_balancer := ''mycluster'', Type := ''ajp'', Host := ''h'', Port := ''8''\<rparr>, n_updatetime = 0,
        stat = zero_shared\<lparr>ws_status := 1, ws_scheme := ''ajp'', ws_hostname := ''h'', ws_port := 8, ws_lbfactor := 10,
                            ws_name := ''ajp://h:8'', ws_route := ''n1''\<rparr>\<rparr>, zero_node], inuse = [True, False]\<rparr>\<rparr>"

definition small_balancers :: "pbalancer list" where
  "small_balancers = [(zero_balancer ''balancer://mycluster'')\<lparr>bs_lbpname := MC_STICKY, bs_sticky := ''JSESSIONID'',
     bs_sticky_path := ''jsessionid'', bal_workers := [small_worker]\<rparr>]"

definition small_conf_cached :: pconf where
  "small_conf_cached = small_conf\<lparr>cache_share_for := 1\<rparr>"

theorem choose_worker_reference_witness:
  "\<exists>k. choose_worker small_proxy small_conf small_manager_up [small_worker] None None False [(0, 7)] 1 False (None, None) [] =
     Value (Some 0, Some (0, 7), k)"
proof -
  have "no_failover_target small_conf None" by code_simp
  moreover have "reference_choice small_proxy small_manager_up [small_worker] (1 = (0 :: nat)) None False [(0, 7)] = Some 0"
    by code_simp
  ultimately show ?thesis
    using choose_worker_reference [of small_conf None small_proxy small_manager_up "[small_worker]" None False "[(0, 7)]" 1] by auto
qed

definition small_choice :: "choice outcome" where
  "small_choice = internal_find_best_byrequests small_proxy small_conf_cached 0 True 0 None False
     (the (read_vhost_table shm_storage small_manager_up False)) (the (read_context_table shm_storage small_manager_up False))
     (the (read_node_table shm_storage small_manager_up False)) small_request small_balancers small_manager_up"

theorem chosen_worker_fit_witness:
  "worker_is_usable small_proxy (ws small_manager_up small_worker) \<and>
   (\<exists>r' bals' a. small_choice = Value (Some 0, r', bals', set_stat 0 elect small_manager_up, a))"
proof -
  have rf: "refresh_workers small_proxy small_conf_cached 0 True (the (read_node_table shm_storage small_manager_up False))
      small_balancers small_manager_up = (small_balancers, small_manager_up, False)"
    by (simp add: refresh_workers_def small_conf_cached_def)
  obtain r' bals' M' a where c: "small_choice = Value (Some 0, r', bals', M', a)"
  proof -
    have "(case small_choice of Value (Some i, r', bals', M', a) \<Rightarrow> i = 0 | _ \<Rightarrow> False)" by code_simp
    then show thesis using that by (auto split: outcome.splits option.splits prod.splits)
  qed
  have "bal_workers (small_balancers ! 0) ! 0 = small_worker" by (simp add: small_balancers_def)
  moreover have "ws_index (ws small_manager_up small_worker) = 0" by code_simp
  ultimately show ?thesis using chosen_worker_fit [OF c [unfolded small_choice_def] rf refl refl] c by auto
qed

theorem find_best_worker_returns_witness:
  "\<exists>u. find_best_worker small_proxy small_conf_cached 0 True 0 None False
     (the (read_vhost_table shm_storage small_manager False)) (the (read_context_table shm_storage small_manager False))
     (the (read_node_table shm_storage small_manager False)) (\<lambda>_ M. M) 201 small_request
     (map (\<lambda>b. b\<lparr>bs_timeout := 5000\<rparr>) small_balancers) small_manager = Some u"
proof (rule find_best_worker_returns)
  let ?bals = "map (\<lambda>b. b\<lparr>bs_timeout := 5000\<rparr>) small_balancers"
  let ?a = "attempt small_proxy small_conf_cached 0 True 0 None False
     (the (read_vhost_table shm_storage small_manager False)) (the (read_context_table shm_storage small_manager False))
     (the (read_node_table shm_storage small_manager False)) small_request ?bals small_manager"
  have "(case ?a of Value (c, r', bals', M', a) \<Rightarrow> bs_timeout (bals' ! 0) = 5000 | _ \<Rightarrow> True)" by code_simp
  then show "bs_timeout (bals' ! 0) \<le> 0 \<or> 100 \<le> bs_timeout (bals' ! 0)" if "?a = Value (c, r', bals', M', a)" for c r' bals' M' a
    using that by simp
qed simp

end
