(* ===== verification/Lb_Method.thy ===== *)
theory Lb_Method
  imports Worker_Choice
begin

unbundle bit_operations_syntax

text \<open>
  The load balancing method \<open>cluster\<close> of \<open>balancers/mod_lbmethod_cluster.c\<close>, which works with
  httpd's own balancers: the choice of a worker (\<open>internal_find_best_byrequests\<close>, \<open>find_best\<close>) and
  the watchdog callback, which recomputes the load status and frees the slots of removed nodes.
  The workers are those of httpd; only their status blocks matter here. A block belongs to the node
  whose route it has.
\<close>

section \<open>The choice\<close>

definition lbm_load :: "worker_shared \<Rightarrow> nodemess \<Rightarrow> int" where
  "lbm_load s n =
     sint (ucast (((ws_elected s - oldelected n) * 1000) div word_of_int (ws_lbfactor s)) :: 32 word)"

fun lbm_loop ::
  "proxy_env \<Rightarrow> ('a) balancer_shared_scheme list \<Rightarrow> ('a) balancer_shared_scheme \<Rightarrow> bool \<Rightarrow> proxy_vhost_table \<Rightarrow> proxy_context_table
     \<Rightarrow> proxy_node_table \<Rightarrow> worker_shared list \<Rightarrow> nat list \<Rightarrow> nat option \<Rightarrow> preq \<Rightarrow> (nat option \<times> preq) outcome" where
  "lbm_loop E bals b use_alias vt ct nt workers [] cand r = Value (cand, r)"
| "lbm_loop E bals b use_alias vt ct nt workers (i # is) cand r =
     (let s = workers ! i in
      if \<not> worker_is_usable E s then lbm_loop E bals b use_alias vt ct nt workers is cand r
      else case table_get_node_route nt (ws_route s) of
             None \<Rightarrow> lbm_loop E bals b use_alias vt ct nt workers is cand r
           | Some (k, node) \<Rightarrow>
               bind_outcome (context_host_ok bals r b k use_alias vt ct nt) (\<lambda>(ok, r').
                 lbm_loop E bals b use_alias vt ct nt workers is
                   (if ok = None then cand
                    else case cand of
                           None \<Rightarrow> Some i
                         | Some j \<Rightarrow>
                             (case table_get_node_route nt (ws_route (workers ! j)) of
                                None \<Rightarrow> Some j
                              | Some (k1, node1) \<Rightarrow>
                                  if ws_lbfactor (workers ! j) > 0 \<and> ws_lbfactor s > 0 \<and>
                                     lbm_load (workers ! j) (mess node1) > lbm_load s (mess node)
                                  then Some i else Some j)) r'))"

definition internal_find_best_byrequests ::
  "proxy_env \<Rightarrow> ('a) balancer_shared_scheme list \<Rightarrow> ('a) balancer_shared_scheme \<Rightarrow> bool \<Rightarrow> proxy_vhost_table \<Rightarrow> proxy_context_table
     \<Rightarrow> proxy_node_table \<Rightarrow> worker_shared list \<Rightarrow> preq \<Rightarrow> (nat option \<times> preq) outcome" where
  "internal_find_best_byrequests E bals b use_alias vt ct nt workers r =
     lbm_loop E bals b use_alias vt ct nt workers [0..<length workers] None r"

text \<open>The copies of the tables are those noted by \<open>lbmethod_cluster_trans\<close>, or read now.\<close>

definition find_best ::
  "proxy_env \<Rightarrow> ('a) balancer_shared_scheme list \<Rightarrow> ('a) balancer_shared_scheme \<Rightarrow> bool \<Rightarrow> proxy_vhost_table option
     \<Rightarrow> proxy_context_table option \<Rightarrow> proxy_node_table option \<Rightarrow> worker_shared list \<Rightarrow> manager \<Rightarrow> preq \<Rightarrow> (nat option \<times> preq) outcome" where
  "find_best E bals b use_alias vt ct nt workers M r =
     (let S = pe_storage E in
      case (orelse vt (read_vhost_table S M False), orelse ct (read_context_table S M False), orelse nt (read_node_table S M False)) of
        (Some v, Some c, Some n) \<Rightarrow> internal_find_best_byrequests E bals b use_alias v c n workers r
      | _ \<Rightarrow> Undefined)"

section \<open>The watchdog callback\<close>

abbreviation (input) LB_RECALC_TIME :: apr_time where "LB_RECALC_TIME \<equiv> 5000000"
abbreviation (input) LB_WAIT_FOR_REMOVE :: apr_time where "LB_WAIT_FOR_REMOVE \<equiv> 10000000"

text \<open>The row of the copy of the node table that \<open>table_get_node_route\<close> returned the address of.\<close>

fun update_first :: "('a \<Rightarrow> bool) \<Rightarrow> ('a \<Rightarrow> 'a) \<Rightarrow> 'a list \<Rightarrow> 'a list" where
  "update_first P f [] = []"
| "update_first P f (x # xs) = (if P x then f x # xs else x # update_first P f xs)"

definition note_update :: "apr_time \<Rightarrow> int \<Rightarrow> nodeinfo \<Rightarrow> nodeinfo" where
  "note_update now elected x = x\<lparr>mess := (mess x)\<lparr>updatetimelb := now, oldelected := word_of_int elected\<rparr>\<rparr>"

definition lbm_worker ::
  "proxy_env \<Rightarrow> apr_time \<Rightarrow> worker_shared \<Rightarrow> proxy_node_table \<times> manager \<Rightarrow> worker_shared \<times> proxy_node_table \<times> manager" where
  "lbm_worker E now s st =
     (case st of (nt, M0) \<Rightarrow>
        case table_get_node_route nt (ws_route s) of
          None \<Rightarrow> (s, nt, M0)
        | Some (k, node) \<Rightarrow>
            if n_remove (mess node) \<noteq> 0 then (s, nt, M0)
            else if updatetimelb (mess node) < now - LB_RECALC_TIME then
              let elected = to_int32 (uint (ws_elected s));
                  old = to_int32 (uint (oldelected (mess node)));
                  M = loc_lock_nodes M0
              in if mgr_read_node (pe_storage E) M k \<noteq> APR_SUCCESS then (s, nt, loc_unlock_nodes M)
                 else if n_remove (mess (slot (nodestatsmem M) k)) \<noteq> 0 then (s, nt, loc_unlock_nodes M)
                 else
                   let M1 = update_node_slot k (note_update now elected) M;
                       nt1 = nt\<lparr>tc_info := update_first (\<lambda>x. JVMRoute (mess x) = ws_route s) (note_update now elected) (tc_info nt)\<rparr>;
                       s1 = (if ws_lbfactor s > 0
                             then s\<lparr>ws_lbstatus := c_div (to_int32 ((elected - old) * 1000)) (ws_lbfactor s)\<rparr> else s);
                       M2 = (if elected = old \<and> ws_status s1 AND pf_hc_fail E \<noteq> 0
                             then update_node_slot k (count_failure now) M1 else update_node_slot k clear_failures M1)
                   in (s1, nt1, loc_unlock_nodes M2)
            else (s, nt, M0))"

fun lbm_workers ::
  "proxy_env \<Rightarrow> apr_time \<Rightarrow> worker_shared list \<Rightarrow> proxy_node_table \<times> manager \<Rightarrow> worker_shared list \<times> proxy_node_table \<times> manager" where
  "lbm_workers E now [] st = ([], st)"
| "lbm_workers E now (s # ss) st =
     (case lbm_worker E now s st of
        (s1, st1) \<Rightarrow> (case lbm_workers E now ss st1 of (ss1, st2) \<Rightarrow> (s1 # ss1, st2)))"

fun lbm_balancers ::
  "proxy_env \<Rightarrow> apr_time \<Rightarrow> worker_shared list list \<Rightarrow> proxy_node_table \<times> manager
     \<Rightarrow> worker_shared list list \<times> proxy_node_table \<times> manager" where
  "lbm_balancers E now [] st = ([], st)"
| "lbm_balancers E now (b # bs) st =
     (case lbm_workers E now b st of
        (b1, st1) \<Rightarrow> (case lbm_balancers E now bs st1 of (bs1, st2) \<Rightarrow> (b1 # bs1, st2)))"

definition lbm_removed_row :: "storage \<Rightarrow> apr_time \<Rightarrow> int \<Rightarrow> manager \<Rightarrow> manager" where
  "lbm_removed_row S now i M =
     (let ou = slot (nodestatsmem M) i in
      if mgr_read_node S M i \<noteq> APR_SUCCESS then M
      else if n_remove (mess ou) \<noteq> 0 \<and> now - n_updatetime ou \<ge> LB_WAIT_FOR_REMOVE \<and>
              now - lastcleantry (mess ou) \<ge> LB_WAIT_FOR_REMOVE
      then snd (loc_remove_node S (loc_remove_host_context S (n_id (mess ou)) M) (n_id (mess ou)))
      else M)"

definition remove_removed_node :: "storage \<Rightarrow> apr_time \<Rightarrow> proxy_node_table \<Rightarrow> manager \<Rightarrow> manager" where
  "remove_removed_node S now nt M = fold (lbm_removed_row S now) (tc_ids nt) M"

text \<open>A run in state RUNNING, with the balancers of the server after httpd synchronised them.\<close>

definition mc_watchdog_callback ::
  "proxy_env \<Rightarrow> apr_time \<Rightarrow> worker_shared list list \<Rightarrow> manager \<Rightarrow> worker_shared list list \<times> manager" where
  "mc_watchdog_callback E now bals M =
     (case read_node_table (pe_storage E) M False of
        None \<Rightarrow> (bals, M)
      | Some nt \<Rightarrow>
          (case lbm_balancers E now bals (nt, M) of
             (bals1, nt1, M1) \<Rightarrow>
               (bals1, loc_unlock_nodes (remove_removed_node (pe_storage E) now nt1 (loc_lock_nodes M1)))))"

section \<open>What is chosen\<close>

definition lbm_eligible :: "proxy_env \<Rightarrow> proxy_node_table \<Rightarrow> node_context list option \<Rightarrow> worker_shared \<Rightarrow> bool" where
  "lbm_eligible E nt best s \<longleftrightarrow> worker_is_usable E s \<and>
     (case (table_get_node_route nt (ws_route s), best) of
        (Some (k, node), Some bs) \<Rightarrow> find_best_node k bs \<noteq> None | _ \<Rightarrow> False)"

definition lbm_value :: "proxy_node_table \<Rightarrow> worker_shared \<Rightarrow> int" where
  "lbm_value nt s = (case table_get_node_route nt (ws_route s) of Some (k, node) \<Rightarrow> lbm_load s (mess node) | None \<Rightarrow> 0)"

definition lbm_reference :: "proxy_env \<Rightarrow> proxy_node_table \<Rightarrow> node_context list option \<Rightarrow> worker_shared list \<Rightarrow> nat option" where
  "lbm_reference E nt best workers =
     (case filter (\<lambda>i. lbm_eligible E nt best (workers ! i)) [0..<length workers] of
        [] \<Rightarrow> None
      | i # is \<Rightarrow>
          if ws_lbfactor (workers ! i) \<le> 0 then Some i
          else first_least (\<lambda>i. lbm_value nt (workers ! i)) (filter (\<lambda>i. ws_lbfactor (workers ! i) > 0) (i # is)))"

text \<open>The contexts found for a request are noted in it and found again.\<close>

definition finds :: "('a) balancer_shared_scheme list \<Rightarrow> ('a) balancer_shared_scheme \<Rightarrow> bool \<Rightarrow> proxy_vhost_table
    \<Rightarrow> proxy_context_table \<Rightarrow> proxy_node_table \<Rightarrow> node_context list option \<Rightarrow> preq \<Rightarrow> bool" where
  "finds bals b ua vt ct nt best r \<longleftrightarrow>
     (\<exists>has r1. find_node_context_host bals r (Some b) (nt_session_route r) ua vt ct nt = Value (best, has, r1))"

lemma finds_again:
  assumes "find_node_context_host bals r (Some b) (nt_session_route r) ua vt ct nt = Value (best, has, r1)"
  shows "finds bals b ua vt ct nt best r1"
proof (cases best)
  case (Some bs)
  then have "nt_proxy_context r1 = Some bs" using find_node_context_host_noted assms by blast
  then show ?thesis using Some by (simp add: finds_def find_node_context_host_def) blast
next
  case None
  then have "r1 = r" using assms
    by (auto simp: find_node_context_host_def Let_def bind_outcome_Value split: if_splits prod.splits)
  then show ?thesis using assms by (auto simp: finds_def)
qed

definition lbm_step :: "proxy_env \<Rightarrow> proxy_node_table \<Rightarrow> node_context list option \<Rightarrow> worker_shared list \<Rightarrow> nat \<Rightarrow> nat option \<Rightarrow> nat option" where
  "lbm_step E nt best workers i cand =
     (if \<not> lbm_eligible E nt best (workers ! i) then cand
      else case cand of
             None \<Rightarrow> Some i
           | Some j \<Rightarrow>
               if table_get_node_route nt (ws_route (workers ! j)) \<noteq> None \<and> ws_lbfactor (workers ! j) > 0 \<and>
                  ws_lbfactor (workers ! i) > 0 \<and> lbm_value nt (workers ! j) > lbm_value nt (workers ! i)
               then Some i else Some j)"

lemma lbm_loop_fold:
  assumes "finds bals b ua vt ct nt best r"
  shows "\<exists>r'. lbm_loop E bals b ua vt ct nt workers is cand r = Value (fold (lbm_step E nt best workers) is cand, r')"
  using assms
proof (induction "is" arbitrary: cand r)
  case (Cons i "is")
  let ?s = "workers ! i"
  consider (skip) "\<not> worker_is_usable E ?s \<or> table_get_node_route nt (ws_route ?s) = None"
    | (node) k node where "worker_is_usable E ?s" "table_get_node_route nt (ws_route ?s) = Some (k, node)"
    by (cases "table_get_node_route nt (ws_route ?s)") auto
  then show ?case
  proof cases
    case skip
    then have "lbm_step E nt best workers i cand = cand" by (auto simp: lbm_step_def lbm_eligible_def)
    then show ?thesis using skip Cons.IH [OF Cons.prems, of cand] by (auto simp: Let_def)
  next
    case node
    obtain has r1 where f: "find_node_context_host bals r (Some b) (nt_session_route r) ua vt ct nt = Value (best, has, r1)"
      using Cons.prems by (auto simp: finds_def)
    define ok where "ok = (case best of None \<Rightarrow> None | Some bs \<Rightarrow> find_best_node k bs)"
    have c: "context_host_ok bals r b k ua vt ct nt = Value (ok, r1)"
      by (simp add: context_host_ok_def f ok_def)
    have e: "lbm_eligible E nt best ?s \<longleftrightarrow> ok \<noteq> None"
      using node by (simp add: lbm_eligible_def ok_def split: option.split)
    let ?c = "if ok = None then cand else case cand of None \<Rightarrow> Some i
        | Some j \<Rightarrow> (case table_get_node_route nt (ws_route (workers ! j)) of None \<Rightarrow> Some j
            | Some (k1, node1) \<Rightarrow> if ws_lbfactor (workers ! j) > 0 \<and> ws_lbfactor ?s > 0 \<and>
                 lbm_load (workers ! j) (mess node1) > lbm_load ?s (mess node) then Some i else Some j)"
    have s: "?c = lbm_step E nt best workers i cand"
      using node e by (cases cand) (auto simp: lbm_step_def lbm_value_def split: option.split)
    have "lbm_loop E bals b ua vt ct nt workers (i # is) cand r = lbm_loop E bals b ua vt ct nt workers is ?c r1"
      using node by (simp add: c Let_def)
    then show ?thesis using Cons.IH [OF finds_again [OF f]] s by auto
  qed
qed simp

lemma lbm_step_standby:
  "ws_lbfactor (workers ! j) \<le> 0 \<Longrightarrow> fold (lbm_step E nt best workers) is (Some j) = Some j"
  by (induction "is") (simp_all add: lbm_step_def)

lemma lbm_step_active:
  assumes "ws_lbfactor (workers ! j) > 0" and "lbm_eligible E nt best (workers ! j)"
  shows "fold (lbm_step E nt best workers) is (Some j) =
     first_least (\<lambda>i. lbm_value nt (workers ! i))
       (j # filter (\<lambda>i. ws_lbfactor (workers ! i) > 0) (filter (\<lambda>i. lbm_eligible E nt best (workers ! i)) is))"
proof -
  let ?f = "\<lambda>i. lbm_value nt (workers ! i)"
  let ?k = "\<lambda>x c. case c of None \<Rightarrow> Some x | Some y \<Rightarrow> if ?f y > ?f x then Some x else c"
  let ?P = "\<lambda>i. lbm_eligible E nt best (workers ! i) \<and> ws_lbfactor (workers ! i) > 0"
  have r: "lbm_eligible E nt best s \<Longrightarrow> table_get_node_route nt (ws_route s) \<noteq> None" for s
    by (auto simp: lbm_eligible_def split: option.splits)
  have "fold (lbm_step E nt best workers) is (Some j) = fold ?k (filter ?P is) (Some j)"
    using assms
  proof (induction "is" arbitrary: j)
    case (Cons i "is")
    have "lbm_step E nt best workers i (Some j) = (if ?P i \<and> ?f j > ?f i then Some i else Some j)"
      using Cons.prems r [OF Cons.prems(2)] by (auto simp: lbm_step_def)
    then show ?case using Cons.IH [of j] Cons.IH [of i] Cons.prems by simp
  qed simp
  also have "\<dots> = first_least ?f (j # filter ?P is)" by (rule fold_first_least)
  finally show ?thesis by (simp only: filter_filter conj_commute)
qed

lemma fold_lbm_step:
  "fold (lbm_step E nt best workers) is None =
     (case filter (\<lambda>i. lbm_eligible E nt best (workers ! i)) is of
        [] \<Rightarrow> None
      | j # js \<Rightarrow> if ws_lbfactor (workers ! j) \<le> 0 then Some j
                  else first_least (\<lambda>i. lbm_value nt (workers ! i)) (filter (\<lambda>i. ws_lbfactor (workers ! i) > 0) (j # js)))"
proof (induction "is")
  case (Cons i "is")
  show ?case
  proof (cases "lbm_eligible E nt best (workers ! i)")
    case False
    then show ?thesis using Cons.IH by (simp add: lbm_step_def)
  next
    case True
    then have "lbm_step E nt best workers i None = Some i" by (simp add: lbm_step_def)
    then show ?thesis using True lbm_step_standby [of workers i] lbm_step_active [of workers i E nt best "is"]
      by (simp del: first_least.simps)
  qed
qed simp

text \<open>C34: the load balancing method equals its reference. Of the usable workers whose node is in the copy
  of the node table and serves a context of the request, it takes the first one if that one is a
  standby or out of service (load factor not positive); otherwise the least loaded one of those with
  a positive load factor, the first one if there are several. So a standby worker that comes first
  is never given up for an active one.\<close>

theorem lbmethod_reference:
  assumes "find_node_context_host bals r (Some b) (nt_session_route r) use_alias vt ct nt = Value (best, has, r1)"
  shows "\<exists>r'. internal_find_best_byrequests E bals b use_alias vt ct nt workers r =
     Value (lbm_reference E nt best workers, r')"
proof -
  have "finds bals b use_alias vt ct nt best r" using assms by (auto simp: finds_def)
  from lbm_loop_fold [OF this, of E workers "[0..<length workers]" None] show ?thesis
    by (simp add: internal_find_best_byrequests_def fold_lbm_step lbm_reference_def)
qed

section \<open>What a run keeps\<close>

lemma note_update_node: "same_node x (note_update now e x)"
  by (simp add: same_node_def note_update_def)

lemma lbm_worker_steady:
  assumes "lbm_worker E now s (nt, M) = (s', nt', M')"
  shows "steady M M'"
proof -
  let ?up = "\<lambda>k e. update_node_slot k (note_update now e) (loc_lock_nodes M)"
  have u: "kept M (?up k e)" for k e by (rule kept_trans [OF kept_lock(1)]) (rule kept_update [OF note_update_node])
  have 1: "steady M (loc_unlock_nodes (update_node_slot k (count_failure now) (?up k e)))" for k e
    by (rule steady_kept, rule kept_unlock, rule kept_trans [OF u [of k e]]) simp_all
  have 2: "steady M (loc_unlock_nodes (update_node_slot k clear_failures (?up k e)))" for k e
    by (rule steady_kept, rule kept_unlock, rule kept_trans [OF u [of k e]]) simp_all
  have 3: "steady M (loc_unlock_nodes (loc_lock_nodes M))" by (rule steady_kept, rule kept_unlock) simp_all
  show ?thesis
  proof (cases "table_get_node_route nt (ws_route s)")
    case None
    then show ?thesis using assms by (simp add: lbm_worker_def)
  next
    case (Some kn)
    obtain k node where kn: "kn = (k, node)" by (cases kn)
    show ?thesis
      using assms unfolding lbm_worker_def Some kn Let_def prod.case option.case
      by (simp only: prod.inject split: if_split_asm) (auto simp only: 1 2 3 steady_refl)
  qed
qed

lemma lbm_workers_steady: "lbm_workers E now ss (nt, M) = (ss', nt', M') \<Longrightarrow> steady M M'"
proof (induction ss arbitrary: nt M ss')
  case (Cons s ss)
  obtain s1 nt1 M1 where 1: "lbm_worker E now s (nt, M) = (s1, nt1, M1)" by (rule prod_cases3)
  show ?case using Cons lbm_worker_steady [OF 1] by (auto simp: 1 split: prod.splits intro: steady_trans)
qed simp

lemma lbm_balancers_steady: "lbm_balancers E now bs (nt, M) = (bs', nt', M') \<Longrightarrow> steady M M'"
proof (induction bs arbitrary: nt M bs')
  case (Cons b bs)
  obtain b1 nt1 M1 where 1: "lbm_workers E now b (nt, M) = (b1, nt1, M1)" by (rule prod_cases3)
  show ?case using Cons lbm_workers_steady [OF 1] by (auto simp: 1 split: prod.splits intro: steady_trans)
qed simp

lemma kept_used: "kept M M' \<Longrightarrow> used (nodestatsmem M') i = used (nodestatsmem M) i"
  by (auto simp: kept_def used_def in_range_def dest: list_all2_lengthD)

lemma lbm_worker_used:
  assumes "lbm_worker E now s (nt, M) = (s', nt', M')"
  shows "used (nodestatsmem M') i = used (nodestatsmem M) i \<and> tc_ids nt' = tc_ids nt"
  using assms
  by (auto simp: lbm_worker_def Let_def split: option.splits if_split_asm)

lemma lbm_workers_used:
  "lbm_workers E now ss (nt, M) = (ss', nt', M') \<Longrightarrow> used (nodestatsmem M') i = used (nodestatsmem M) i \<and> tc_ids nt' = tc_ids nt"
proof (induction ss arbitrary: nt M ss')
  case (Cons s ss)
  obtain s1 nt1 M1 where 1: "lbm_worker E now s (nt, M) = (s1, nt1, M1)" by (rule prod_cases3)
  show ?case using Cons lbm_worker_used [OF 1] by (auto simp: 1 split: prod.splits)
qed simp

lemma lbm_balancers_used:
  "lbm_balancers E now bs (nt, M) = (bs', nt', M') \<Longrightarrow> used (nodestatsmem M') i = used (nodestatsmem M) i \<and> tc_ids nt' = tc_ids nt"
proof (induction bs arbitrary: nt M bs')
  case (Cons b bs)
  obtain b1 nt1 M1 where 1: "lbm_workers E now b (nt, M) = (b1, nt1, M1)" by (rule prod_cases3)
  show ?case using Cons lbm_workers_used [OF 1] by (auto simp: 1 split: prod.splits)
qed simp

context manager_storage
begin

lemma lbm_removed_row_step:
  assumes ok: "manager_ok M" and c: "removed_clean M" and u: "used (nodestatsmem M) i"
  shows "manager_ok (lbm_removed_row S now i M) \<and> removed_clean (lbm_removed_row S now i M)"
    and "j \<noteq> i \<Longrightarrow> used (nodestatsmem M) j \<Longrightarrow> used (nodestatsmem (lbm_removed_row S now i M)) j"
proof -
  have wf: "wf_slotmem (nodestatsmem M)" by (rule manager_wf [OF ok])
  have i: "0 \<le> i" "nat i < length (items (nodestatsmem M))" "inuse (nodestatsmem M) ! nat i"
    using used_in_items [OF wf u] by simp_all
  have id: "n_id (mess (slot (nodestatsmem M) i)) = i"
    using ok i by (auto simp: manager_ok_def tables_ok_def nodes_ok_def ids_ok_def node_ident_def slot_def wf_slotmem_def)
  note f = free_after_hosts [OF ok c u]
  show "manager_ok (lbm_removed_row S now i M) \<and> removed_clean (lbm_removed_row S now i M)"
    using ok c f by (simp add: lbm_removed_row_def Let_def id)
  show "used (nodestatsmem (lbm_removed_row S now i M)) j" if "j \<noteq> i" "used (nodestatsmem M) j"
    using that i f(3)
    by (auto simp: lbm_removed_row_def Let_def id used_def in_range_def nth_list_update eq_nat_nat_iff)
qed

lemma lbm_removed_rows:
  "manager_ok M \<Longrightarrow> removed_clean M \<Longrightarrow> distinct is \<Longrightarrow> \<forall>i \<in> set is. used (nodestatsmem M) i \<Longrightarrow>
   manager_ok (fold (lbm_removed_row S now) is M) \<and> removed_clean (fold (lbm_removed_row S now) is M)"
proof (induction "is" arbitrary: M)
  case (Cons i "is")
  have u: "used (nodestatsmem M) i" using Cons.prems by simp
  note step = lbm_removed_row_step [OF Cons.prems(1,2) u]
  have "\<forall>j \<in> set is. used (nodestatsmem (lbm_removed_row S now i M)) j"
    using step(2) Cons.prems(3,4) by fastforce
  then show ?case using Cons.IH [of "lbm_removed_row S now i M"] step(1) Cons.prems(3) by simp
qed simp

end

text \<open>A run of the load balancing method's watchdog callback keeps shared memory consistent and gives
  back every lock it takes on the node table.\<close>

theorem lbmethod_watchdog_invariant:
  assumes S: "manager_storage (pe_storage E)" and ok: "manager_ok M" and c: "removed_clean M"
    and w: "mc_watchdog_callback E now bals M = (bals', M')"
  shows "manager_ok M' \<and> removed_clean M' \<and> node_lock M' = node_lock M"
proof -
  let ?S = "pe_storage E"
  have cm: "consistent_manager ?S M" using S ok by (simp add: consistent_manager_def consistent_manager_axioms_def)
  have wf: "wf_slotmem (nodestatsmem M)" by (rule manager_wf [OF ok])
  obtain nt where nt: "read_node_table ?S M False = Some nt" "tc_ids nt = map int (used_slots (nodestatsmem M))"
    using consistent_manager.node_snapshot [OF cm, of False] by blast
  obtain bals1 nt1 M1 where 1: "lbm_balancers E now bals (nt, M) = (bals1, nt1, M1)" by (rule prod_cases3)
  have s: "manager_ok M1" "removed_clean M1" "node_lock M1 = node_lock M"
    using lbm_balancers_steady [OF 1] ok c by (simp_all add: steady_def)
  have "\<forall>i \<in> set (tc_ids nt1). used (nodestatsmem (loc_lock_nodes M1)) i"
    using lbm_balancers_used [OF 1] nt(2) consistent_manager.used_slots_used [OF cm wf] by auto
  moreover have "distinct (tc_ids nt1)" using lbm_balancers_used [OF 1] nt(2) by (simp add: distinct_map)
  moreover have "manager_ok (loc_lock_nodes M1)" "removed_clean (loc_lock_nodes M1)"
    using kept_ok kept_clean kept_lock(1) s by blast+
  ultimately have "manager_ok (remove_removed_node ?S now nt1 (loc_lock_nodes M1))"
    "removed_clean (remove_removed_node ?S now nt1 (loc_lock_nodes M1))"
    using manager_storage.lbm_removed_rows [OF S] by (simp_all add: remove_removed_node_def)
  then have "manager_ok M'" "removed_clean M'"
    using w kept_ok kept_clean kept_lock(2) by (auto simp: mc_watchdog_callback_def nt(1) 1)
  moreover have "node_lock M' = node_lock M"
  proof -
    have "node_lock (lbm_removed_row ?S now i M2) = node_lock M2" for i M2
      by (auto simp: lbm_removed_row_def Let_def loc_remove_node_def loc_remove_host_context_def split: prod.split)
    then show ?thesis using w s(3) by (auto simp: mc_watchdog_callback_def nt(1) 1 remove_removed_node_def fold_lock)
  qed
  ultimately show ?thesis by simp
qed

section \<open>Examples\<close>

definition small_block :: "int \<Rightarrow> worker_shared" where
  "small_block factor = zero_shared\<lparr>ws_status := 1, ws_route := ''n1'', ws_lbfactor := factor\<rparr>"

theorem lbmethod_reference_witness:
  "\<exists>r'. internal_find_best_byrequests small_proxy [small_balancer] small_balancer True small_vt small_ct small_nt
      [small_block 0, small_block 10] small_request = Value (Some 0, r')"
proof -
  have "(case find_node_context_host [small_balancer] small_request (Some small_balancer) (nt_session_route small_request)
      True small_vt small_ct small_nt of
        Value (best, has, r1) \<Rightarrow> lbm_reference small_proxy small_nt best [small_block 0, small_block 10] = Some 0 | _ \<Rightarrow> False)"
    by code_simp
  then obtain best has r1 where "find_node_context_host [small_balancer] small_request (Some small_balancer)
      (nt_session_route small_request) True small_vt small_ct small_nt = Value (best, has, r1)"
    and "lbm_reference small_proxy small_nt best [small_block 0, small_block 10] = Some 0"
    by (auto split: outcome.splits prod.splits)
  then show ?thesis using lbmethod_reference [of "[small_balancer]" small_request small_balancer True small_vt small_ct small_nt best has r1
      small_proxy "[small_block 0, small_block 10]"] by simp
qed

theorem lbmethod_watchdog_invariant_witness:
  "manager_ok (snd (mc_watchdog_callback small_proxy 20000000 [[small_block 10]] small_manager_removed))"
proof -
  obtain bals' M' where p: "mc_watchdog_callback small_proxy 20000000 [[small_block 10]] small_manager_removed = (bals', M')"
    by fastforce
  have "manager_storage (pe_storage small_proxy)" using shm_mgr.manager_storage_axioms by (simp add: small_proxy_def)
  from lbmethod_watchdog_invariant [OF this small_manager_removed_ok p] show ?thesis by (simp add: p)
qed

end
