(* ===== verification/Request_Flow.thy ===== *)
theory Request_Flow
  imports Lb_Method
begin

unbundle bit_operations_syntax

text \<open>
  The path of a request through \<open>mod_proxy_cluster/mod_proxy_cluster.c\<close>: mapping it to a balancer
  (\<open>proxy_cluster_trans\<close>, and \<open>lbmethod_cluster_trans\<close> of \<open>balancers/mod_lbmethod_cluster.c\<close>),
  \<open>proxy_cluster_canon\<close>, finding the worker of its session (\<open>find_route_worker\<close>,
  \<open>find_session_route\<close>), and the hooks around the request (\<open>proxy_cluster_pre_request\<close>,
  \<open>proxy_cluster_post_request\<close>). A request is served by one server: \<open>bals\<close> are the balancers of that
  server, \<open>main\<close> tells whether it is the main server.
\<close>

section \<open>The worker of a session\<close>

type_synonym rstate = "preq \<times> pbalancer list \<times> manager"

definition is_standby :: "proxy_env \<Rightarrow> worker_shared \<Rightarrow> bool" where
  "is_standby E s \<longleftrightarrow> ws_status s AND pf_standby E \<noteq> 0"

text \<open>
  The answer when the worker \<open>i\<close> is to serve the request and its node has the number \<open>index\<close>: the
  worker if the node has a context for the request, otherwise none.
\<close>

definition serve_by ::
  "pconf \<Rightarrow> proxy_vhost_table \<Rightarrow> proxy_context_table \<Rightarrow> proxy_node_table \<Rightarrow> nat \<Rightarrow> nat \<Rightarrow> int \<Rightarrow> rstate
     \<Rightarrow> (nat option \<times> rstate) outcome" where
  "serve_by C vt ct nt j i index st =
     (case st of (r, bals, M) \<Rightarrow>
        bind_outcome (context_host_ok bals r (bals ! j) index (pc_use_alias C) vt ct nt) (\<lambda>(nc, r').
          Value (case nc of
                   None \<Rightarrow> (None, r', bals, M)
                 | Some (n, c) \<Rightarrow> (Some i, r'\<lparr>ev_context_id := Some (show_int c)\<rparr>, bals, M))))"

definition retry_worker :: "proxy_env \<Rightarrow> nat \<Rightarrow> nat \<Rightarrow> rstate \<Rightarrow> rstate" where
  "retry_worker E j i st =
     (case st of (r, bals, M) \<Rightarrow>
        case ws_update (pe_retry E) (worker_at bals (j, i)) M of (w, M') \<Rightarrow> (r, set_worker_at (j, i) w bals, M'))"

text \<open>
  The return of \<open>find_route_worker\<close> for the worker \<open>k\<close>, unless the node cannot be read. \<open>None\<close> is the
  next round of the loop, \<open>Some c\<close> the return of \<open>c\<close>.
\<close>

definition route_answer ::
  "proxy_env \<Rightarrow> pconf \<Rightarrow> proxy_vhost_table \<Rightarrow> proxy_context_table \<Rightarrow> proxy_node_table \<Rightarrow> nat \<Rightarrow> nat \<Rightarrow> int \<Rightarrow> apr_status \<Rightarrow> rstate
     \<Rightarrow> (nat option option \<times> rstate) outcome" where
  "route_answer E C vt ct nt j k index rv st =
     (if rv \<noteq> APR_SUCCESS then Value (Some None, st)
      else bind_outcome (serve_by C vt ct nt j k index st) (\<lambda>(c, st'). Value (Some c, st')))"

text \<open>The worker \<open>i\<close> redirects its sessions, and \<open>c\<close> is what was found for the route given there.\<close>

definition redirect_answer ::
  "proxy_env \<Rightarrow> pconf \<Rightarrow> proxy_vhost_table \<Rightarrow> proxy_context_table \<Rightarrow> proxy_node_table \<Rightarrow> nat \<Rightarrow> nat \<Rightarrow> int \<Rightarrow> nat option \<Rightarrow> rstate
     \<Rightarrow> (nat option option \<times> rstate) outcome" where
  "redirect_answer E C vt ct nt j i index c st =
     (case c of
        None \<Rightarrow> Value (None, st)
      | Some k \<Rightarrow>
          let usable = (\<lambda>st. case st of (r, bals, M) \<Rightarrow> worker_is_usable E (ws M (worker_at bals (j, k))));
              st1 = (if usable st then st else retry_worker E j i st)
          in if usable st1
             then route_answer E C vt ct nt j k index (mgr_read_node (pe_storage E) (snd (snd st1)) index) st1
             else Value (None, st1))"

text \<open>
  One worker of the loop. \<open>redirected\<close> is the recursive call for the route the worker's sessions
  are redirected to.
\<close>

definition route_worker_step ::
  "proxy_env \<Rightarrow> pconf \<Rightarrow> proxy_vhost_table \<Rightarrow> proxy_context_table \<Rightarrow> proxy_node_table
     \<Rightarrow> (string \<Rightarrow> rstate \<Rightarrow> (nat option \<times> rstate) outcome) \<Rightarrow> nat \<Rightarrow> string \<Rightarrow> bool \<Rightarrow> nat \<Rightarrow> rstate
     \<Rightarrow> (nat option option \<times> rstate) outcome" where
  "route_worker_step E C vt ct nt redirected j route checking_standby i st =
     (case st of (r, bals, M) \<Rightarrow>
        let w = worker_at bals (j, i); s = ws M w; index = ws_index s in
        if index \<noteq> hp_index w then Value (None, st)
        else if index = -1 then Value (None, st)
        else if checking_standby \<noteq> is_standby E s then Value (None, st)
        else if ws_route s = [] \<or> ws_route s \<noteq> route then Value (None, st)
        else if worker_is_usable E s
        then route_answer E C vt ct nt j i index (read_node_worker (pe_storage E) M index s) st
        else
          (case retry_worker E j i st of
             (r1, bals1, M1) \<Rightarrow>
               let s1 = ws M1 (worker_at bals1 (j, i)) in
               if worker_is_usable E s1
               then route_answer E C vt ct nt j i index (mgr_read_node (pe_storage E) M1 index) (r1, bals1, M1)
               else if ws_redirect s1 = [] then Value (None, r1, bals1, M1)
               else bind_outcome (redirected (ws_redirect s1) (r1, bals1, M1)) (\<lambda>(c, st2).
                 redirect_answer E C vt ct nt j i index c st2)))"

fun route_workers ::
  "(bool \<Rightarrow> nat \<Rightarrow> rstate \<Rightarrow> (nat option option \<times> rstate) outcome) \<Rightarrow> (bool \<times> nat) list \<Rightarrow> rstate \<Rightarrow> (nat option \<times> rstate) outcome" where
  "route_workers step [] st = Value (None, st)"
| "route_workers step ((standby, i) # rounds) st =
     bind_outcome (step standby i st) (\<lambda>(res, st').
       case res of Some c \<Rightarrow> Value (c, st') | None \<Rightarrow> route_workers step rounds st')"

text \<open>
  The two passes of \<open>find_route_worker\<close>, first the active workers, then the standby ones. The fuel
  is the depth of the recursion through redirections; running out of it is a stack overflow. The
  sources never set a redirection, so the depth is 1 (\<open>redirect\<close> is cleared in every block).
\<close>

fun find_route_worker ::
  "nat \<Rightarrow> proxy_env \<Rightarrow> pconf \<Rightarrow> proxy_vhost_table \<Rightarrow> proxy_context_table \<Rightarrow> proxy_node_table \<Rightarrow> nat \<Rightarrow> string \<Rightarrow> rstate
     \<Rightarrow> (nat option \<times> rstate) outcome" where
  "find_route_worker 0 E C vt ct nt j route st = Undefined"
| "find_route_worker (Suc fuel) E C vt ct nt j route st =
     (let n = length (bal_workers (fst (snd st) ! j)) in
      route_workers (route_worker_step E C vt ct nt (find_route_worker fuel E C vt ct nt j) j route)
        (map (Pair False) [0..<n] @ map (Pair True) [0..<n]) st)"

text \<open>The result: the worker, and the route, the name of the session and the domain found in the notes.\<close>

definition find_session_route ::
  "nat \<Rightarrow> proxy_env \<Rightarrow> pconf \<Rightarrow> proxy_vhost_table \<Rightarrow> proxy_context_table \<Rightarrow> proxy_node_table \<Rightarrow> nat \<Rightarrow> rstate
     \<Rightarrow> (nat option \<times> string option \<times> string option \<times> string option \<times> rstate) outcome" where
  "find_session_route fuel E C vt ct nt j st =
     (case st of (r, bals, M) \<Rightarrow>
        let b = bals ! j; route = nt_session_route r in
        if bs_sticky b = [] \<or> bs_sticky_path b = [] then Value (None, None, None, None, st)
        else if bs_lbpname b = MC_NOT_STICKY then Value (None, None, None, None, st)
        else case route of
               None \<Rightarrow> Value (None, None, None, None, st)
             | Some rt \<Rightarrow>
                 if rt = [] then Value (None, route, None, None, st)
                 else bind_outcome (find_route_worker fuel E C vt ct nt j rt st) (\<lambda>(c, r', bals', M').
                   let changed = (case c of None \<Rightarrow> False | Some i \<Rightarrow> ws_route (ws M' (worker_at bals' (j, i))) \<noteq> rt) in
                   Value (c, route, nt_session_sticky r, nt_cluster_domain r,
                     (if changed then r'\<lparr>ev_route_changed := True\<rparr> else r'), bals', M')))"

section \<open>Rewriting requests\<close>

definition rewrite_url :: "worker_shared \<Rightarrow> string \<Rightarrow> string" where
  "rewrite_url s url =
     (case strstr url ''://'' of
        None \<Rightarrow> ws_name s
      | Some k \<Rightarrow> ws_name s @ dropWhile (\<lambda>c. c \<noteq> CHR ''/'') (drop (k + 3) url))"

text \<open>
  \<open>remove_session_route\<close> first looks for \<open>name=value\<close> in the file name. A match at its very start
  reads before it; when the name, or the name and an equals sign, ends it, the search goes on
  behind the terminating NUL.
\<close>

function remove_from_url :: "string \<Rightarrow> string \<Rightarrow> nat \<Rightarrow> string option outcome" where
  "remove_from_url name url pos =
     (case strstr (drop pos url) name of
        None \<Rightarrow> Value None
      | Some k \<Rightarrow>
          let p = pos + k; q = p + length name in
          if p = 0 then Undefined
          else (case drop q url of
                  [] \<Rightarrow> Undefined
                | c # rest \<Rightarrow>
                    if c = CHR ''='' then
                      if rest = [] then Undefined
                      else Value (Some (take (if url ! (p - 1) = CHR ''&'' then p - 1 else p) url @
                                        dropWhile (\<lambda>c. c \<noteq> CHR ''&'') rest))
                    else remove_from_url name url (q + 1)))"
  by pat_completeness auto
termination
proof (relation "measure (\<lambda>(_, url, pos). length url + 1 - pos)")
  fix name url :: string and pos k p q :: nat and c :: char and rest
  assume "p = pos + k" "q = p + length name" "drop q url = c # rest"
  then show "((name, url, q + 1), name, url, pos) \<in> measure (\<lambda>(_, url, pos). length url + 1 - pos)"
    by (cases "q < length url") auto
qed simp

declare remove_from_url.simps [simp del]

text \<open>
  Then the Cookie header. The search runs through the header as received; what was found is cut
  out of a copy, and \<open>new\<close> is the header after the first cut. The tail behind a further match is
  appended to it.
\<close>

function remove_from_cookie :: "string \<Rightarrow> string \<Rightarrow> nat \<Rightarrow> string option \<Rightarrow> string option outcome" where
  "remove_from_cookie name ck pos new =
     (if length ck < pos then Undefined
      else case strstr (drop pos ck) name of
        None \<Rightarrow> Value new
      | Some k \<Rightarrow>
          let p = pos + k in
          if p = 0 \<or> cookie_sep (Some (ck ! (p - 1))) then
            (case dropWhile c_isspace (drop (p + length name) ck) of
               [] \<Rightarrow> Undefined
             | c # rest \<Rightarrow>
                 let at = length ck - length (c # rest) in
                 if c = CHR ''='' \<and> rest \<noteq> [] then
                   let tail = (if CHR '';'' \<in> set rest then dropWhile (\<lambda>c. c \<noteq> CHR '';'') rest
                               else dropWhile (\<lambda>c. c \<noteq> CHR '','') rest);
                       base = (case new of None \<Rightarrow> take (if p = 0 then 0 else p - 1) ck | Some s \<Rightarrow> s)
                   in remove_from_cookie name ck (at + 2) (Some (base @ tail))
                 else remove_from_cookie name ck (at + 1) new)
          else remove_from_cookie name ck (p + 1) new)"
  by pat_completeness auto
termination
proof (relation "measure (\<lambda>(_, ck, pos, _). length ck + 1 - pos)")
  fix name ck :: string and pos k p at :: nat and new :: "string option" and c :: char and rest tail base
  assume "p = pos + k" and d: "dropWhile c_isspace (drop (p + length name) ck) = c # rest"
    and "at = length ck - length (c # rest)"
  moreover have "length (c # rest) \<le> length ck - (p + length name)"
    using length_dropWhile_le [of c_isspace "drop (p + length name) ck"] by (simp add: d)
  ultimately have "pos \<le> at" "at < length ck" by auto
  then show "((name, ck, at + 2, Some (base @ tail)), name, ck, pos, new) \<in> measure (\<lambda>(_, ck, pos, _). length ck + 1 - pos)"
    and "((name, ck, at + 1, new), name, ck, pos, new) \<in> measure (\<lambda>(_, ck, pos, _). length ck + 1 - pos)"
    by auto
qed auto

declare remove_from_cookie.simps [simp del]

definition remove_session_route :: "preq \<Rightarrow> string \<Rightarrow> preq outcome" where
  "remove_session_route r name =
     (case q_filename r of
        None \<Rightarrow> Undefined
      | Some url \<Rightarrow>
          bind_outcome (remove_from_url name url 0) (\<lambda>found.
            case found of
              Some url' \<Rightarrow> Value (r\<lparr>q_filename := Some url'\<rparr>)
            | None \<Rightarrow>
                (case q_cookie r of
                   None \<Rightarrow> Value r
                 | Some ck \<Rightarrow>
                     bind_outcome (remove_from_cookie name ck 0 None) (\<lambda>new.
                       Value (case new of None \<Rightarrow> r | Some ck' \<Rightarrow> r\<lparr>q_cookie := Some ck'\<rparr>)))))"

section \<open>Counters\<close>

definition upd_context_count :: "storage \<Rightarrow> string \<Rightarrow> int \<Rightarrow> manager \<Rightarrow> manager" where
  "upd_context_count S cid val M =
     (let i = atoi cid in
      if mgr_read_context S M i \<noteq> APR_SUCCESS then M
      else M\<lparr>contextstatsmem := store (contextstatsmem M) i
             ((slot (contextstatsmem M) i)\<lparr>c_nbrequests := c_nbrequests (slot (contextstatsmem M) i) + val\<rparr>)\<rparr>)"

text \<open>The counter of the context noted in the request, if there is one.\<close>

definition count_context :: "storage \<Rightarrow> preq \<Rightarrow> int \<Rightarrow> manager \<Rightarrow> manager" where
  "count_context S r val M =
     (case ev_context_id r of
        None \<Rightarrow> M
      | Some cid \<Rightarrow> if cid = [] then M else upd_context_count S cid val M)"

definition decrement_busy_count :: "worker_shared \<Rightarrow> worker_shared" where
  "decrement_busy_count s = (if ws_busy s > 0 then s\<lparr>ws_busy := ws_busy s - 1\<rparr> else s)"

definition count_down :: "pworker \<Rightarrow> pworker" where
  "count_down w = (if count_active w > 0 then w\<lparr>count_active := count_active w - 1\<rparr> else w)"

section \<open>Before the request\<close>

abbreviation (input) HTTP_SERVICE_UNAVAILABLE :: int where "HTTP_SERVICE_UNAVAILABLE \<equiv> 503"

text \<open>
  Results that may be missing because the wait for a worker did not end with the given fuel.
\<close>

fun bind_wait :: "'a outcome option \<Rightarrow> ('a \<Rightarrow> 'b outcome option) \<Rightarrow> 'b outcome option" where
  "bind_wait None f = None"
| "bind_wait (Some (Value x)) f = f x"
| "bind_wait (Some (Failure t s)) f = Some (Failure t s)"
| "bind_wait (Some Undefined) f = Some Undefined"

text \<open>What the request finds: the server, the environment, and the waits it may need.\<close>

record flow_env =
  fe_proxy :: proxy_env
  fe_conf :: pconf
  fe_now :: apr_time
  fe_main :: bool
  fe_others :: "nat \<Rightarrow> manager \<Rightarrow> manager"
  fe_fuel :: nat
  fe_depth :: nat

text \<open>A failover attempt: the worker of the previous try is not in use any more.\<close>

definition release_previous :: "flow_env \<Rightarrow> nat \<Rightarrow> rstate \<Rightarrow> rstate" where
  "release_previous F j st =
     (case st of (r, bals, M) \<Rightarrow>
        case ev_worker_name r of
          None \<Rightarrow> st
        | Some name \<Rightarrow>
            if name = [] then st
            else
              let E = fe_proxy F;
                  M' = loc_unlock_nodes (count_context (pe_storage E) r (-1) (loc_lock_nodes M));
                  ws = bal_workers (bals ! j)
              in case find (\<lambda>i. pe_hash E (ws_name (w_shared (ws ! i))) = pe_hash E name) [0..<length ws] of
                   None \<Rightarrow> (r, bals, M')
                 | Some i \<Rightarrow> (r, set_worker_at (j, i) (count_down (ws ! i)) bals, M'))"

text \<open>The balancer of the url; when it does not exist yet, workers for new nodes are created first.\<close>

definition find_balancer ::
  "flow_env \<Rightarrow> proxy_node_table \<Rightarrow> string \<Rightarrow> rstate \<Rightarrow> nat option \<times> rstate \<times> bool" where
  "find_balancer F nt url st =
     (case st of (r, bals, M) \<Rightarrow>
        let E = fe_proxy F; C = fe_conf F in
        case pe_get_balancer E (map bs_name bals) url of
          Some j \<Rightarrow> (Some j, st, False)
        | None \<Rightarrow>
            (case update_workers_node E C (fe_now F) (fe_main F) True (Some nt) bals (loc_lock_nodes M) of
               (bals1, M1) \<Rightarrow>
                 (case check_workers E C M1 bals1 of
                    (bals2, a) \<Rightarrow> (pe_get_balancer E (map bs_name bals2) url, (r, bals2, loc_unlock_nodes M1), a))))"

text \<open>The search after the session route gave no worker.\<close>

definition fail_over ::
  "flow_env \<Rightarrow> proxy_vhost_table \<Rightarrow> proxy_context_table \<Rightarrow> proxy_node_table \<Rightarrow> nat \<Rightarrow> string option \<Rightarrow> string option \<Rightarrow> string option
     \<Rightarrow> bool \<Rightarrow> rstate \<Rightarrow> ((int + nat) \<times> rstate \<times> bool) outcome option" where
  "fail_over F vt ct nt j route sticky domain failoverdomain st =
     (case st of (r, bals, M) \<Rightarrow>
        bind_wait (find_best_worker (fe_proxy F) (fe_conf F) (fe_now F) (fe_main F) j domain failoverdomain vt ct nt
                     (fe_others F) (fe_fuel F) r bals M) (\<lambda>(c, r1, bals1, M1, a).
          case c of
            None \<Rightarrow> Some (Value (Inl (if nt_no_context_error r1 then responsecode_when_no_context (fe_conf F)
                                      else HTTP_SERVICE_UNAVAILABLE), (r1, bals1, M1), a))
          | Some i \<Rightarrow>
              let r2 = (if bs_sticky (bals1 ! j) \<noteq> [] then r1\<lparr>ev_route_changed := True\<rparr> else r1) in
              if route \<noteq> None \<and> bs_lbpname (bals1 ! j) = MC_REMOVE_SESSION \<and> \<not> nt_session_domain_ok r2 then
                (case sticky of
                   None \<Rightarrow> Some Undefined
                 | Some name \<Rightarrow>
                     bind_wait (Some (remove_session_route r2 name)) (\<lambda>r3. Some (Value (Inr i, (r3, bals1, M1), a))))
              else Some (Value (Inr i, (r2, bals1, M1), a))))"

definition pick_worker ::
  "flow_env \<Rightarrow> proxy_vhost_table \<Rightarrow> proxy_context_table \<Rightarrow> proxy_node_table \<Rightarrow> nat \<Rightarrow> rstate
     \<Rightarrow> ((int + nat) \<times> rstate \<times> bool) outcome option" where
  "pick_worker F vt ct nt j st =
     (let E = fe_proxy F in
      bind_wait (Some (find_session_route (fe_depth F) E (fe_conf F) vt ct nt j st)) (\<lambda>(c, route, sticky, domain, r, bals, M).
        if pe_thread_lock E \<noteq> APR_SUCCESS then Some (Value (Inl DECLINED, (r, bals, M), False))
        else case c of
               Some i \<Rightarrow>
                 (case ws_update elect (worker_at bals (j, i)) M of
                    (w, M') \<Rightarrow> Some (Value (Inr i, (r, set_worker_at (j, i) w bals, M'), False)))
             | None \<Rightarrow>
                 if route \<noteq> None \<and> bs_sticky_force (bals ! j) \<and> domain = None
                 then Some (Value (Inl HTTP_SERVICE_UNAVAILABLE, (r, bals, M), False))
                 else fail_over F vt ct nt j route sticky domain (route \<noteq> None \<and> bs_sticky_force (bals ! j)) (r, bals, M)))"

definition count_busy :: "worker_shared \<Rightarrow> worker_shared" where
  "count_busy s = s\<lparr>ws_busy := ws_busy s + 1\<rparr>"

definition mark_worker :: "flow_env \<Rightarrow> nat \<Rightarrow> nat \<Rightarrow> string \<Rightarrow> rstate \<Rightarrow> string \<times> rstate" where
  "mark_worker F j i url st =
     (case st of (r, bals, M) \<Rightarrow>
        case ws_update count_busy (worker_at bals (j, i)) M of
          (w, M1) \<Rightarrow>
            let M2 = loc_unlock_nodes (count_context (pe_storage (fe_proxy F)) r 1 (loc_lock_nodes M1));
                w2 = w\<lparr>count_active := count_active w + 1\<rparr>;
                s = ws M2 w2
            in (rewrite_url s url,
                r\<lparr>ev_balancer_name := Some (bs_name (bals ! j)), ev_worker_name := Some (ws_name s),
                  ev_worker_route := Some (ws_route s)\<rparr>, set_worker_at (j, i) w2 bals, M2))"

text \<open>
  The hook. \<open>bal\<close> is the balancer of a failover attempt. The copies of the tables are those the
  request noted in \<open>proxy_cluster_trans\<close>, or read now. The result is the status with the balancer and
  the worker, the url, the state and whether an assertion failed.
\<close>

definition proxy_cluster_pre_request ::
  "flow_env \<Rightarrow> proxy_vhost_table option \<Rightarrow> proxy_context_table option \<Rightarrow> proxy_node_table option \<Rightarrow> nat option \<Rightarrow> string \<Rightarrow> rstate
     \<Rightarrow> (int \<times> (nat \<times> nat) option \<times> string \<times> rstate \<times> bool) outcome option" where
  "proxy_cluster_pre_request F vt ct nt bal url st =
     (let S = pe_storage (fe_proxy F); M0 = snd (snd st) in
      case (orelse vt (read_vhost_table S M0 False), orelse ct (read_context_table S M0 False), orelse nt (read_node_table S M0 False)) of
        (Some v, Some c, Some n) \<Rightarrow>
          let (found, st1, a) = (case bal of
                                   Some j \<Rightarrow> (Some j, release_previous F j st, False)
                                 | None \<Rightarrow> find_balancer F n url st)
          in (case found of
                None \<Rightarrow> Some (Value (DECLINED, None, url, st1, a))
              | Some j \<Rightarrow>
                  bind_wait (pick_worker F v c n j st1) (\<lambda>(res, st2, a').
                    case res of
                      Inl status \<Rightarrow> Some (Value (status, None, url, st2, a \<or> a'))
                    | Inr i \<Rightarrow>
                        (case mark_worker F j i url st2 of
                           (url', st3) \<Rightarrow> Some (Value (OK, Some (j, i), url', st3, a \<or> a')))))
      | _ \<Rightarrow> Some Undefined)"

section \<open>After the request\<close>

abbreviation (input) SESSIONIDSZ :: nat where "SESSIONIDSZ \<equiv> 128"

text \<open>
  \<open>strncpy\<close> does not terminate a copy that fills its field; such a record is undefined. The record
  to remove has the number -1.
\<close>

definition session_copy :: "proxy_env \<Rightarrow> int \<Rightarrow> string \<Rightarrow> string \<Rightarrow> sessionidinfo outcome" where
  "session_copy E i sid route =
     (if length sid < SESSIONIDSZ \<and> length route < sz_route E
      then Value \<lparr>s_id = i, s_sessionid = sid, s_JVMRoute = route, s_updatetime = 0\<rparr> else Undefined)"

definition note_session :: "proxy_env \<Rightarrow> apr_time \<Rightarrow> pbalancer \<Rightarrow> preq \<Rightarrow> manager \<Rightarrow> manager outcome" where
  "note_session E now b r M =
     (let S = pe_storage E;
          sticky = (case nt_session_sticky r of Some n \<Rightarrow> Some n | None \<Rightarrow> if bs_sticky b \<noteq> [] then Some (bs_sticky b) else None)
      in case sticky of
           None \<Rightarrow> Value M
         | Some name \<Rightarrow>
             bind_outcome (get_cookie_param r name False) (\<lambda>cookie.
               bind_outcome
                 (case (cookie, nt_session_id r) of
                    (Some c, Some sid) \<Rightarrow>
                      if c \<noteq> sid then bind_outcome (session_copy E (-1) sid []) (\<lambda>ou. Value (snd (loc_remove_sessionid S M ou)))
                      else Value M
                  | _ \<Rightarrow> Value M) (\<lambda>M1.
                 let (sid, route) = (case cookie of
                                       None \<Rightarrow> (nt_session_id r, nt_session_route r)
                                     | Some c \<Rightarrow> (Some c, if CHR ''.'' \<in> set c then Some (tl (dropWhile (\<lambda>x. x \<noteq> CHR ''.'') c)) else None))
                 in (case (sid, route) of
                       (Some s, Some rt) \<Rightarrow>
                         bind_outcome (session_copy E 0 s rt) (\<lambda>ou. Value (snd (loc_insert_update_sessionid S M1 ou now)))
                     | _ \<Rightarrow> Value M1))))"

definition proxy_cluster_post_request ::
  "proxy_env \<Rightarrow> apr_time \<Rightarrow> nat \<Rightarrow> nat \<Rightarrow> rstate \<Rightarrow> (int \<times> rstate) outcome" where
  "proxy_cluster_post_request E now j i st =
     (case st of (r, bals, M) \<Rightarrow>
        let M1 = loc_unlock_nodes (count_context (pe_storage E) r (-1) (loc_lock_nodes M));
            bals1 = set_worker_at (j, i) (count_down (worker_at bals (j, i))) bals
        in bind_outcome (if sessionidstatsmem M1 = None then Value M1 else note_session E now (bals1 ! j) r M1) (\<lambda>M2.
             if errstatuses (bals1 ! j) = [] then Value (OK, r, bals1, M2)
             else if pe_thread_lock E \<noteq> APR_SUCCESS then Value (HTTP_INTERNAL_SERVER_ERROR, r, bals1, M2)
             else if q_status r \<in> set (errstatuses (bals1 ! j)) then
               (case ws_update (\<lambda>s. s\<lparr>ws_status := ws_status s OR pf_in_error E, ws_error_time := now\<rparr>) (worker_at bals1 (j, i)) M2 of
                  (w, M3) \<Rightarrow> Value (OK, r, set_worker_at (j, i) w bals1, M3))
             else Value (OK, r, bals1, M2)))"

section \<open>Mapping a request to a balancer\<close>

abbreviation (input) HTTP_CONTINUE :: int where "HTTP_CONTINUE \<equiv> 100"
abbreviation (input) PROXYREQ_REVERSE :: int where "PROXYREQ_REVERSE \<equiv> 2"

text \<open>
  An alias of the configuration (ProxyPass): whether it maps encoded urls, and httpd's match of the
  request against it. The aliases are that of the directory, if any, and those of the server.
\<close>

type_synonym proxy_alias = "bool \<times> (preq \<Rightarrow> int \<times> preq)"

fun try_aliases :: "proxy_alias list \<Rightarrow> preq \<Rightarrow> int \<times> preq" where
  "try_aliases [] r = (HTTP_CONTINUE, r)"
| "try_aliases ((encoded, match) # rest) r =
     (if encoded then try_aliases rest r
      else case match r of (rv, r') \<Rightarrow> if rv \<noteq> HTTP_CONTINUE then (rv, r') else try_aliases rest r')"

definition balancer_filename :: "string \<Rightarrow> string \<Rightarrow> string" where
  "balancer_filename balancer use_uri =
     (if strncmp0 use_uri BALANCER_PREFIX BALANCER_PREFIX_LENGTH then ''proxy:'' @ use_uri
      else ''proxy:'' @ BALANCER_PREFIX @ balancer @ use_uri)"

definition send_to_balancer :: "bool \<Rightarrow> string \<Rightarrow> preq \<Rightarrow> preq" where
  "send_to_balancer nocanon balancer r =
     r\<lparr>q_filename := Some (balancer_filename balancer (if nocanon then q_unparsed_uri r else q_uri r)),
       q_handler := Some ''proxy-server'', q_proxyreq := PROXYREQ_REVERSE\<rparr>"

text \<open>First the balancer of the session's route, then that of a context.\<close>

definition request_balancer ::
  "proxy_env \<Rightarrow> bool \<Rightarrow> ('a) balancer_shared_scheme list \<Rightarrow> proxy_vhost_table \<Rightarrow> proxy_context_table \<Rightarrow> proxy_node_table \<Rightarrow> preq
     \<Rightarrow> (string option \<times> preq) outcome" where
  "request_balancer E use_alias bals vt ct nt r =
     bind_outcome (get_route_balancer bals r vt ct nt use_alias) (\<lambda>(name, r1).
       case name of
         Some n \<Rightarrow> Value (Some n, r1)
       | None \<Rightarrow> get_context_host_balancer (pe_get_balancer E) bals r1 vt ct nt use_alias)"

text \<open>The tables a request works with: the cached ones, or copies made now, with workers for new nodes.\<close>

definition request_tables ::
  "flow_env \<Rightarrow> child \<Rightarrow> pbalancer list \<Rightarrow> manager
     \<Rightarrow> (proxy_vhost_table option \<times> proxy_context_table option \<times> proxy_node_table option) \<times> pbalancer list \<times> manager \<times> bool" where
  "request_tables F Q bals M =
     (let E = fe_proxy F; C = fe_conf F; S = pe_storage E in
      if cache_share_for C \<noteq> 0 then
        ((case cached_tables Q of None \<Rightarrow> (None, None, None) | Some (v, c, b, n) \<Rightarrow> (v, c, n)), bals, M, False)
      else
        let L = loc_lock_nodes M; n = read_node_table S L False in
        case update_workers_node E C (fe_now F) (fe_main F) True n bals L of
          (bals1, M1) \<Rightarrow>
            (case check_workers E C M1 bals1 of
               (bals2, a) \<Rightarrow> ((read_vhost_table S L False, read_context_table S L False, n), bals2, loc_unlock_nodes M1, a)))"

definition proxy_cluster_trans ::
  "flow_env \<Rightarrow> child \<Rightarrow> proxy_alias list \<Rightarrow> rstate \<Rightarrow> (int \<times> rstate \<times> bool) outcome" where
  "proxy_cluster_trans F Q aliases st =
     (case st of (r, bals0, M0) \<Rightarrow>
        case request_tables F Q bals0 M0 of
          ((Some vt, Some ct, Some nt), bals, M, a) \<Rightarrow>
            bind_outcome (request_balancer (fe_proxy F) (pc_use_alias (fe_conf F)) bals vt ct nt r) (\<lambda>(name, r1).
              case name of
                None \<Rightarrow> Value (DECLINED, (r1, bals, M), a)
              | Some balancer \<Rightarrow>
                  (case try_aliases aliases r1 of
                     (rv, r2) \<Rightarrow>
                       if rv \<noteq> HTTP_CONTINUE then Value (rv, (r2, bals, M), a)
                       else let nocanon = use_nocanon (fe_conf F);
                                r3 = (if nocanon then r2\<lparr>nt_nocanon := True\<rparr> else r2)
                            in Value (OK, (send_to_balancer nocanon balancer r3, bals, M), a)))
        | _ \<Rightarrow> Undefined)"

definition lbmethod_cluster_trans ::
  "proxy_env \<Rightarrow> bool \<Rightarrow> bool \<Rightarrow> proxy_alias list \<Rightarrow> ('a) balancer_shared_scheme list \<Rightarrow> preq \<Rightarrow> manager \<Rightarrow> (int \<times> preq) outcome" where
  "lbmethod_cluster_trans E use_alias nocanon aliases bals r M =
     (let S = pe_storage E in
      case (read_vhost_table S M False, read_context_table S M False, read_node_table S M False) of
        (Some vt, Some ct, Some nt) \<Rightarrow>
          bind_outcome (request_balancer E use_alias bals vt ct nt r) (\<lambda>(name, r1).
            case (case name of None \<Rightarrow> (HTTP_CONTINUE, r1) | Some _ \<Rightarrow> try_aliases aliases r1) of
              (rv, r2) \<Rightarrow>
                if rv \<noteq> HTTP_CONTINUE then Value (rv, r2)
                else let r3 = (if nocanon then r2\<lparr>nt_nocanon := True\<rparr> else r2) in
                     (case name of
                        None \<Rightarrow> Value (DECLINED, r3)
                      | Some balancer \<Rightarrow> Value (OK, send_to_balancer nocanon balancer r3)))
      | _ \<Rightarrow> Undefined)"

text \<open>
  \<open>proxy_cluster_canon\<close>; \<open>pe_canon_netloc\<close> splits the url behind \<open>balancer:\<close> into host and path. The
  copies of the tables are those noted in the request or read now.
\<close>

definition proxy_cluster_canon ::
  "proxy_env \<Rightarrow> pconf \<Rightarrow> proxy_vhost_table option \<Rightarrow> proxy_context_table option \<Rightarrow> proxy_node_table option \<Rightarrow> string
     \<Rightarrow> ('a) balancer_shared_scheme list \<Rightarrow> preq \<Rightarrow> manager \<Rightarrow> (int \<times> preq) outcome" where
  "proxy_cluster_canon E C vt ct nt url bals r M =
     (if \<not> strncasecmp0 url ''balancer:'' 9 then Value (DECLINED, r)
      else case pe_canon_netloc E (drop 9 url) of
             None \<Rightarrow> Value (HTTP_BAD_REQUEST, r)
           | Some (host, rest) \<Rightarrow>
               (case (if nt_nocanon r then (Some rest, None) else (pe_canonenc E rest (q_proxyreq r), q_args r)) of
                  (None, _) \<Rightarrow> Value (HTTP_BAD_REQUEST, r)
                | (Some path, search) \<Rightarrow>
                    let r1 = r\<lparr>q_filename := Some (''proxy:'' @ BALANCER_PREFIX @ host @ ''/'' @ path @
                                 (case search of None \<Rightarrow> [] | Some a \<Rightarrow> ''?'' @ a)),
                               q_path_info := Some (''/'' @ path)\<rparr>
                    in if nt_session_route r1 \<noteq> None then Value (OK, r1)
                       else let S = pe_storage E in
                         (case (orelse vt (read_vhost_table S M False), orelse ct (read_context_table S M False),
                                orelse nt (read_node_table S M False)) of
                            (Some v, Some c, Some n) \<Rightarrow>
                              bind_outcome (get_route_balancer bals r1 v c n (pc_use_alias C)) (\<lambda>(_, r2). Value (OK, r2))
                          | _ \<Rightarrow> Undefined)))"

end
