(* ===== verification/Request_Count.thy ===== *)
theory Request_Count
  imports Request_Flow
begin

text \<open>
  Requests are counted in the context they are sent to: \<open>proxy_cluster_pre_request\<close> counts up, a
  failover attempt first takes back the count of the attempt before, and
  \<open>proxy_cluster_post_request\<close> counts down. Here it is shown that the whole course of a request
  leaves the counters of the registered contexts as they were.
\<close>

section \<open>The contexts in use\<close>

text \<open>The same slots in use, with the same contents; slots not in use may differ.\<close>

definition live_eq :: "'a slotmem \<Rightarrow> 'a slotmem \<Rightarrow> bool" where
  "live_eq m m' \<longleftrightarrow> inuse m' = inuse m \<and> length (items m') = length (items m) \<and> (\<forall>i. used m i \<longrightarrow> slot m' i = slot m i)"

lemma live_eq_refl [simp]: "live_eq m m"
  by (simp add: live_eq_def)

lemma live_eq_used: "live_eq m m' \<Longrightarrow> used m' i \<longleftrightarrow> used m i"
  by (simp add: live_eq_def used_def in_range_def)

lemma live_eq_wf: "live_eq m m' \<Longrightarrow> wf_slotmem m' \<longleftrightarrow> wf_slotmem m"
  by (simp add: live_eq_def wf_slotmem_def)

lemma live_eq_trans [trans]: "live_eq m m' \<Longrightarrow> live_eq m' m'' \<Longrightarrow> live_eq m m''"
  using live_eq_used [of m m'] by (simp add: live_eq_def)

text \<open>What \<open>count_context\<close> does to the context table.\<close>

definition add_requests :: "contextinfo provider \<Rightarrow> int \<Rightarrow> int \<Rightarrow> contextinfo slotmem \<Rightarrow> contextinfo slotmem" where
  "add_requests P i v m =
     (if dptr P m i \<noteq> APR_SUCCESS then m
      else store m i ((slot m i)\<lparr>c_nbrequests := c_nbrequests (slot m i) + v\<rparr>))"

lemma add_requests_wf [simp]: "wf_slotmem (add_requests P i v m) = wf_slotmem m"
  by (simp add: add_requests_def wf_slotmem_def store_def)

lemma add_then_subtract:
  fixes m :: "contextinfo slotmem"
  assumes "slotmem_provider Pc" and "wf_slotmem m"
  shows "live_eq m (add_requests Pc i (- v) (add_requests Pc i v m))"
proof (cases "used m i")
  case True
  let ?m = "store m i ((slot m i)\<lparr>c_nbrequests := c_nbrequests (slot m i) + v\<rparr>)"
  have u: "used ?m i" "wf_slotmem ?m" "nat i < length (items m)"
    using True assms(2) by (auto simp: used_def in_range_def store_def wf_slotmem_def)
  have "dptr Pc m i = APR_SUCCESS" and "dptr Pc ?m i = APR_SUCCESS"
    using slotmem_provider.dptr_used [OF assms(1)] u True assms(2) by blast+
  moreover have "store ?m i ((slot ?m i)\<lparr>c_nbrequests := c_nbrequests (slot ?m i) + - v\<rparr>) = m"
    using u(3) by (simp add: store_def slot_def)
  ultimately show ?thesis by (simp add: add_requests_def)
next
  case False
  have "live_eq m' (add_requests Pc i w m')" if "\<not> used m' i" "wf_slotmem m'" for w m'
  proof -
    have "(items m')[nat i := x] ! nat k = items m' ! nat k" if "used m' k" "in_range m' i" for k x
      using that \<open>\<not> used m' i\<close> by (cases "nat k = nat i") (auto simp: used_def in_range_def)
    moreover have "in_range m' i" if "dptr Pc m' i = APR_SUCCESS"
      using slotmem_provider.dptr_range [OF assms(1)] that \<open>wf_slotmem m'\<close> by blast
    ultimately show ?thesis by (auto simp: add_requests_def live_eq_def slot_def store_def)
  qed
  note keep = this
  have 1: "live_eq m (add_requests Pc i v m)" using keep False assms(2) by blast
  also have "live_eq \<dots> (add_requests Pc i (- v) (add_requests Pc i v m))"
    using keep False assms(2) live_eq_used [OF 1] by simp
  finally show ?thesis .
qed


lemma contexts_count [simp]:
  "contextstatsmem (count_context S r v M) =
     (case ev_context_id r of
        None \<Rightarrow> contextstatsmem M
      | Some cid \<Rightarrow> if cid = [] then contextstatsmem M else add_requests (st_context S) (atoi cid) v (contextstatsmem M))"
  by (simp add: count_context_def upd_context_count_def add_requests_def mgr_read_context_def get_context_def
      Let_def split: option.split)

lemma contexts_lock [simp]:
  "contextstatsmem (loc_lock_nodes M) = contextstatsmem M" "contextstatsmem (loc_unlock_nodes M) = contextstatsmem M"
  by (simp_all add: manager_defs)

lemma count_back:
  assumes "manager_storage S" and "wf_slotmem (contextstatsmem M)"
  shows "live_eq (contextstatsmem M) (contextstatsmem (count_context S r (-1) (count_context S r 1 M)))"
proof -
  have "slotmem_provider (st_context S)" using assms(1) by (simp add: manager_storage_def)
  from add_then_subtract [OF this assms(2), of _ 1] show ?thesis by (auto split: option.split)
qed

section \<open>Choosing a worker changes worker data only\<close>

lemma contexts_worker_only: "worker_only M M' \<Longrightarrow> contextstatsmem M' = contextstatsmem M"
proof -
  assume "worker_only M M'"
  then have "M' = M\<lparr>nodestatsmem := nodestatsmem M'\<rparr>" by (simp add: worker_only_def)
  then show ?thesis by (metis manager.select_convs(3) manager.surjective manager.update_convs(1))
qed

lemmas contexts_of_calls = ws_update_only [THEN contexts_worker_only]
  update_workers_node_only [THEN contexts_worker_only]

lemma serve_by_same: "serve_by C vt ct nt j i index (r, bals, M) = Value (c, r', bals', M') \<Longrightarrow> M' = M"
  by (auto simp: serve_by_def bind_outcome_Value split: option.splits prod.splits)

lemma route_answer_same:
  "route_answer E C vt ct nt j k index rv (r, bals, M) = Value (c, r', bals', M') \<Longrightarrow> M' = M"
  by (auto simp: route_answer_def bind_outcome_Value split: if_splits dest!: serve_by_same)

lemma bind_wait_Value: "bind_wait x f = Some (Value y) \<longleftrightarrow> (\<exists>a. x = Some (Value a) \<and> f a = Some (Value y))"
  by (cases "(x, f)" rule: bind_wait.cases) auto

text \<open>
  A relation between the shared states before and after a step. It is enough that it holds for steps
  that change worker data only, and for such steps under the lock, for it to hold from the start of the
  search for a worker to its end. \<open>others\<close> is what other processes do while the request waits.
\<close>

definition others_keep :: "(manager \<Rightarrow> manager \<Rightarrow> bool) \<Rightarrow> (nat \<Rightarrow> manager \<Rightarrow> manager) \<Rightarrow> bool" where
  "others_keep R others \<longleftrightarrow> (\<forall>n M. R M (others n M))"

locale worker_frame =
  fixes R :: "manager \<Rightarrow> manager \<Rightarrow> bool"
  assumes same: "R M M"
    and step: "R M M' \<Longrightarrow> R M' M'' \<Longrightarrow> R M M''"
    and worker: "worker_only M M' \<Longrightarrow> R M M'"
    and locked: "R (loc_lock_nodes M) M' \<Longrightarrow> R M (loc_unlock_nodes M')"
begin

lemmas of_calls = ws_update_only [THEN worker] update_workers_node_only [THEN worker]

lemma retry: "retry_worker E j i (r, bals, M) = (r', bals', M') \<Longrightarrow> R M M'"
  by (auto simp: retry_worker_def split: prod.splits dest: of_calls)

lemma redirect:
  assumes "redirect_answer E C vt ct nt j i index c (r, bals, M) = Value (d, r', bals', M')"
  shows "R M M'"
proof (cases c)
  case (Some k)
  define usable where "usable = (\<lambda>(r :: preq, bals, M). worker_is_usable E (ws M (worker_at bals (j, k))))"
  obtain r1 bals1 M1 where 1: "(if usable (r, bals, M) then (r, bals, M) else retry_worker E j i (r, bals, M)) = (r1, bals1, M1)"
    by (rule prod_cases3)
  have "R M M1" using 1 by (auto simp: same split: if_splits dest: retry)
  then show ?thesis
    using assms 1 [unfolded usable_def] by (auto simp: redirect_answer_def Some Let_def split: if_splits dest!: route_answer_same)
qed (use assms in \<open>simp add: redirect_answer_def same\<close>)

lemma route_step:
  assumes "route_worker_step E C vt ct nt redirected j route standby i (r, bals, M) = Value (c, r', bals', M')"
    and "\<And>rt r bals M c r' bals' M'. redirected rt (r, bals, M) = Value (c, r', bals', M') \<Longrightarrow> R M M'"
  shows "R M M'"
proof -
  obtain r1 bals1 M1 where 1: "retry_worker E j i (r, bals, M) = (r1, bals1, M1)" by (rule prod_cases3)
  show ?thesis
    using assms(1) retry [OF 1]
    by (auto simp: route_worker_step_def Let_def bind_outcome_Value 1 split: if_splits
        dest!: route_answer_same redirect assms(2) intro: step same)
qed

lemma route_workers:
  assumes "\<And>standby i r bals M c r' bals' M'. stp standby i (r, bals, M) = Value (c, r', bals', M') \<Longrightarrow> R M M'"
    and "route_workers stp rounds (r, bals, M) = Value (c, r', bals', M')"
  shows "R M M'"
  using assms(2)
proof (induction rounds arbitrary: r bals M)
  case (Cons x rounds)
  obtain standby i where x: "x = (standby, i)" by fastforce
  obtain res r1 bals1 M1 where 1: "stp standby i (r, bals, M) = Value (res, r1, bals1, M1)"
    using Cons.prems by (auto simp: x bind_outcome_Value)
  show ?case using assms(1) [OF 1] Cons.prems Cons.IH [of r1 bals1 M1] by (auto simp: x 1 split: option.splits intro: step)
qed (simp add: same)

lemma find_route:
  "find_route_worker fuel E C vt ct nt j route (r, bals, M) = Value (c, r', bals', M') \<Longrightarrow> R M M'"
proof (induction fuel arbitrary: route r bals M c r' bals' M')
  case (Suc fuel)
  show ?case by (rule route_workers [OF route_step [OF _ Suc.IH] Suc.prems [unfolded find_route_worker.simps Let_def]])
qed simp

lemma session_route:
  "find_session_route fuel E C vt ct nt j (r, bals, M) = Value (c, route, sticky, domain, r', bals', M') \<Longrightarrow> R M M'"
  by (auto simp: find_session_route_def Let_def bind_outcome_Value same split: if_splits option.splits dest: find_route)

lemma refresh:
  "refresh_workers E C now main nt bals M = (bals', M', a) \<Longrightarrow> R M M'"
  by (auto simp: refresh_workers_def same split: if_splits prod.splits dest!: of_calls intro: locked)

lemma find_best:
  assumes "Worker_Choice.internal_find_best_byrequests E C now main j domain fo vt ct nt r bals0 M0 = Value (c, r', bals', M', a)"
  shows "R M0 M'"
proof -
  obtain bals M a0 where rf: "refresh_workers E C now main nt bals0 M0 = (bals, M, a0)" by (rule prod_cases3)
  obtain best has r1 where f: "find_node_context_host bals r (Some (bals ! j)) (nt_session_route r) (pc_use_alias C) vt ct nt
      = Value (best, has, r1)"
    using assms by (auto simp: Worker_Choice.internal_find_best_byrequests_def rf bind_outcome_Value)
  have "R M M'"
  proof (cases best)
    case None
    then show ?thesis using assms by (auto simp: Worker_Choice.internal_find_best_byrequests_def rf f same split: if_splits)
  next
    case (Some bs)
    let ?choose = "choose_worker E C M (bal_workers (bals ! j)) (nt_session_id r1) domain fo bs
      (case domain of None \<Rightarrow> 1 | Some d \<Rightarrow> if d \<noteq> [] then 0 else 1) False (None, None) []"
    obtain d ctx k where ch: "?choose = Value (d, ctx, k)"
      using assms by (auto simp: Worker_Choice.internal_find_best_byrequests_def rf f Some bind_outcome_Value Let_def)
    show ?thesis
      using assms by (cases d; cases ctx)
        (auto simp: Worker_Choice.internal_find_best_byrequests_def rf f Some ch Let_def same split: prod.splits dest: of_calls)
  qed
  then show ?thesis using refresh [OF rf] by (blast intro: step)
qed

lemma attempt_frame:
  "attempt E C now main j domain fo vt ct nt r bals M = Value (c, r', bals', M', a) \<Longrightarrow> R M M'"
  by (auto simp: attempt_def same split: if_splits dest: find_best)

lemma wait_frame:
  assumes "\<And>r bals M c r' bals' M' a. try r bals M = Value (c, r', bals', M', a) \<Longrightarrow> R M M'"
    and "others_keep R others"
    and "wait_for_worker try others timeout stp fuel tval (c, r, bals, M, a) = Some (Value (c', r', bals', M', a'))"
  shows "R M M'"
  using assms(3)
proof (induction fuel arbitrary: tval c r bals M a)
  case (Suc fuel)
  show ?case
  proof (cases "try r bals (others fuel M)")
    case (Value st)
    obtain c1 r1 bals1 M1 a1 where st: "st = (c1, r1, bals1, M1, a1)" by (rule prod_cases5)
    have "R M (others fuel M)" using assms(2) by (simp add: others_keep_def)
    then have "R M M1" using assms(1) [OF Value [unfolded st]] by (rule step)
    then show ?thesis using Suc.prems Suc.IH by (cases c1) (auto simp: Value st split: if_splits intro: step same)
  qed (use Suc.prems same in \<open>auto split: if_splits\<close>)
qed simp

lemma find_best_worker_frame:
  assumes "find_best_worker E C now main j domain fo vt ct nt others fuel r bals M = Some (Value (c, r', bals', M', a))"
    and "others_keep R others"
  shows "R M M'"
proof -
  obtain st where 1: "attempt E C now main j domain fo vt ct nt r bals M = Value st"
    using assms(1) by (auto simp: find_best_worker_def split: outcome.splits)
  obtain c1 r1 bals1 M1 a1 where st: "st = (c1, r1, bals1, M1, a1)" by (rule prod_cases5)
  have "R M1 M'"
    using assms(1) wait_frame [OF attempt_frame assms(2)]
    by (cases c1) (auto simp: find_best_worker_def 1 st Let_def same split: if_splits)
  with attempt_frame [OF 1 [unfolded st]] show ?thesis by (rule step)
qed

lemma fail_over_frame:
  assumes "fail_over F vt ct nt j route sticky domain fd (r, bals, M) = Some (Value (res, (r', bals', M'), a))"
    and "others_keep R (fe_others F)"
  shows "R M M'"
proof -
  obtain c r1 bals1 M1 a1 where 1: "find_best_worker (fe_proxy F) (fe_conf F) (fe_now F) (fe_main F) j domain fd vt ct nt
      (fe_others F) (fe_fuel F) r bals M = Some (Value (c, r1, bals1, M1, a1))"
    using assms(1) by (auto simp: fail_over_def bind_wait_Value)
  have "M' = M1"
    using assms(1) by (cases c) (auto simp: fail_over_def 1 Let_def bind_wait_Value split: option.splits if_splits)
  then show ?thesis using find_best_worker_frame [OF 1 assms(2)] by simp
qed

lemma pick_worker_frame:
  assumes "pick_worker F vt ct nt j (r, bals, M) = Some (Value (res, (r', bals', M'), a))" and "others_keep R (fe_others F)"
  shows "R M M'"
proof -
  obtain c route sticky domain r1 bals1 M1 where
    1: "find_session_route (fe_depth F) (fe_proxy F) (fe_conf F) vt ct nt j (r, bals, M) = Value (c, route, sticky, domain, r1, bals1, M1)"
    using assms(1) by (auto simp: pick_worker_def Let_def bind_wait_Value)
  have "R M1 M'"
    using assms(1) fail_over_frame [OF _ assms(2)]
    by (auto simp: pick_worker_def 1 Let_def same split: if_splits option.splits prod.splits dest: of_calls)
  with session_route [OF 1] show ?thesis by (rule step)
qed

lemma find_balancer_frame:
  "find_balancer F nt url (r, bals, M) = (found, (r', bals', M'), a) \<Longrightarrow> R M M' \<and> r' = r"
  by (auto simp: find_balancer_def Let_def same split: option.splits prod.splits dest!: of_calls intro: locked)

end

text \<open>The first instance: the search leaves the contexts alone, when other processes do.\<close>

definition contexts_kept :: "(nat \<Rightarrow> manager \<Rightarrow> manager) \<Rightarrow> bool" where
  "contexts_kept others \<longleftrightarrow> others_keep (\<lambda>M M'. contextstatsmem M' = contextstatsmem M) others"

interpretation contexts_frame: worker_frame "\<lambda>M M'. contextstatsmem M' = contextstatsmem M"
  by unfold_locales (auto dest: contexts_worker_only)

section \<open>The course of a request\<close>

lemma contexts_release_previous:
  assumes "release_previous F j (r, bals, M) = (r', bals', M')" and "ev_worker_name r = Some name" and "name \<noteq> []"
  shows "contextstatsmem M' = contextstatsmem (count_context (pe_storage (fe_proxy F)) r (-1) M)"
  using assms by (auto simp: release_previous_def Let_def split: option.splits)

lemma contexts_mark_worker:
  assumes "mark_worker F j i url (r, bals, M) = (url', r', bals', M')"
  shows "contextstatsmem M' = contextstatsmem (count_context (pe_storage (fe_proxy F)) r 1 M) \<and> ev_context_id r' = ev_context_id r"
  using assms by (auto simp: mark_worker_def Let_def split: prod.splits option.split dest!: contexts_of_calls)

text \<open>The context table once the count of the request is taken back.\<close>

definition settled :: "storage \<Rightarrow> rstate \<Rightarrow> contextinfo slotmem" where
  "settled S st = (case st of (r, bals, M) \<Rightarrow> contextstatsmem (count_context S r (-1) M))"

lemma pre_request_cases:
  assumes "proxy_cluster_pre_request F vt ct nt bal url st = Some (Value (OK, Some p, url', st', a))"
  obtains v c n j st1 a1 i st2 a2 where
    "(case bal of Some j \<Rightarrow> (Some j, release_previous F j st, False) | None \<Rightarrow> find_balancer F n url st) = (Some j, st1, a1)"
    "pick_worker F v c n j st1 = Some (Value (Inr i, st2, a2))" "mark_worker F j i url st2 = (url', st')"
proof -
  note def = proxy_cluster_pre_request_def Let_def
  obtain v c n where t: "orelse vt (read_vhost_table (pe_storage (fe_proxy F)) (snd (snd st)) False) = Some v"
    "orelse ct (read_context_table (pe_storage (fe_proxy F)) (snd (snd st)) False) = Some c"
    "orelse nt (read_node_table (pe_storage (fe_proxy F)) (snd (snd st)) False) = Some n"
    using assms by (auto simp: def split: option.splits)
  obtain found st1 a1 where
    1: "(case bal of Some j \<Rightarrow> (Some j, release_previous F j st, False) | None \<Rightarrow> find_balancer F n url st) = (found, st1, a1)"
    by (rule prod_cases3)
  obtain j where j: "found = Some j" using assms 1 by (cases found) (auto simp: def t)
  obtain res st2 a2 where pk: "pick_worker F v c n j st1 = Some (Value (res, st2, a2))"
    using assms 1 j by (auto simp: def t bind_wait_Value)
  obtain i where "res = Inr i" "mark_worker F j i url st2 = (url', st')"
    using assms 1 j pk by (cases res) (auto simp: def t split: prod.splits)
  with 1 j pk that show thesis by blast
qed

lemma pre_request_settled:
  assumes p: "proxy_cluster_pre_request F vt ct nt bal url (r, bals, M) = Some (Value (OK, Some p, url', st', a))"
    and S: "manager_storage (pe_storage (fe_proxy F))" and k: "contexts_kept (fe_others F)"
    and first: "bal = None \<Longrightarrow> m = contextstatsmem M"
    and again: "bal \<noteq> None \<Longrightarrow> m = settled (pe_storage (fe_proxy F)) (r, bals, M) \<and> (\<exists>n. ev_worker_name r = Some n \<and> n \<noteq> [])"
    and wf: "wf_slotmem m"
  shows "live_eq m (settled (pe_storage (fe_proxy F)) st')"
proof -
  let ?S = "pe_storage (fe_proxy F)"
  obtain v c n j st1 a1 i st2 a2 where
    1: "(case bal of Some j \<Rightarrow> (Some j, release_previous F j (r, bals, M), False) | None \<Rightarrow> find_balancer F n url (r, bals, M))
        = (Some j, st1, a1)"
    and 2: "pick_worker F v c n j st1 = Some (Value (Inr i, st2, a2))" and 3: "mark_worker F j i url st2 = (url', st')"
    using p by (rule pre_request_cases)
  obtain r1 bals1 M1 where st1: "st1 = (r1, bals1, M1)" by (rule prod_cases3)
  obtain r2 bals2 M2 where st2: "st2 = (r2, bals2, M2)" by (rule prod_cases3)
  obtain r3 bals3 M3 where st': "st' = (r3, bals3, M3)" by (rule prod_cases3)
  have "contextstatsmem M1 = m"
  proof (cases bal)
    case None
    then show ?thesis using 1 [unfolded st1] first contexts_frame.find_balancer_frame [of F n url r bals M "Some j" r1 bals1 M1 a1] by simp
  next
    case (Some j')
    then show ?thesis using 1 [unfolded st1] again contexts_release_previous [of F j' r bals M r1 bals1 M1] by (auto simp: settled_def)
  qed
  then have m: "contextstatsmem M2 = m" using contexts_frame.pick_worker_frame [OF 2 [unfolded st1 st2] k [unfolded contexts_kept_def]] by simp
  note mark = contexts_mark_worker [OF 3 [unfolded st' st2]]
  have "settled ?S st' = contextstatsmem (count_context ?S r2 (-1) (count_context ?S r2 1 M2))"
    using mark by (auto simp: settled_def st' split: option.split)
  then show ?thesis using count_back [OF S, of M2 r2] m wf by simp
qed

text \<open>
  The attempts of one request: the first one looks for the balancer, a further one is a failover
  of the balancer already chosen. Workers have names, so the previous attempt is recognised.
\<close>

inductive attempts :: "flow_env \<Rightarrow> rstate \<Rightarrow> nat \<times> nat \<Rightarrow> rstate \<Rightarrow> bool" for F where
  first: "proxy_cluster_pre_request F vt ct nt None url st = Some (Value (OK, Some p, url', st', a)) \<Longrightarrow> attempts F st p st'"
| again: "attempts F st (j, i) st' \<Longrightarrow> ev_worker_name (fst st') \<noteq> Some [] \<Longrightarrow>
    proxy_cluster_pre_request F vt ct nt (Some j) url st' = Some (Value (OK, Some p, url', st'', a)) \<Longrightarrow> attempts F st p st''"

lemma pre_request_names:
  assumes "proxy_cluster_pre_request F vt ct nt bal url st = Some (Value (OK, Some p, url', st', a))"
  shows "\<exists>n. ev_worker_name (fst st') = Some n"
proof -
  have "\<exists>n. ev_worker_name (fst st') = Some n" if "mark_worker F j i url st2 = (url', st')" for j i st2
    using that by (cases st2) (auto simp: mark_worker_def Let_def split: prod.splits)
  then show ?thesis by (rule pre_request_cases [OF assms])
qed

lemma attempts_settled:
  assumes "attempts F st p st'" and S: "manager_storage (pe_storage (fe_proxy F))" and k: "contexts_kept (fe_others F)"
    and wf: "wf_slotmem (contextstatsmem (snd (snd st)))"
  shows "live_eq (contextstatsmem (snd (snd st))) (settled (pe_storage (fe_proxy F)) st') \<and> (\<exists>n. ev_worker_name (fst st') = Some n)"
  using assms(1) wf
proof (induction rule: attempts.induct)
  case (first vt ct nt url st p url' st' a)
  obtain r bals M where st: "st = (r, bals, M)" by (rule prod_cases3)
  show ?case using pre_request_settled [OF first(1) [unfolded st] S k] pre_request_names [OF first(1)] first(2) by (simp add: st)
next
  case (again st j i st' vt ct nt url p url' st'' a)
  obtain r bals M where st': "st' = (r, bals, M)" by (rule prod_cases3)
  let ?m = "settled (pe_storage (fe_proxy F)) (r, bals, M)"
  have IH: "live_eq (contextstatsmem (snd (snd st))) ?m" "\<exists>n. ev_worker_name r = Some n"
    using again.IH again.prems by (simp_all add: st')
  have "live_eq ?m (settled (pe_storage (fe_proxy F)) st'')"
    using pre_request_settled [OF again(3) [unfolded st'] S k, of ?m] IH again(2) again.prems live_eq_wf [OF IH(1)] by (auto simp: st')
  then show ?case using live_eq_trans [OF IH(1)] pre_request_names [OF again(3)] by simp
qed

lemma contexts_note_session:
  assumes "note_session E now b r M = Value M'"
  shows "contextstatsmem M' = contextstatsmem M"
proof -
  have 1: "contextstatsmem (snd (loc_remove_sessionid S M x)) = contextstatsmem M"
    and 2: "contextstatsmem (snd (loc_insert_update_sessionid S M x t)) = contextstatsmem M" for S M x t
    by (auto simp: loc_remove_sessionid_def loc_insert_update_sessionid_def split: prod.split option.split)
  show ?thesis using assms
    by (auto simp: note_session_def Let_def bind_outcome_Value 1 2 split: option.splits if_splits)
qed

lemma contexts_post_request:
  assumes "proxy_cluster_post_request E now j i (r, bals, M) = Value (rv, r', bals', M')"
  shows "contextstatsmem M' = settled (pe_storage E) (r, bals, M)"
proof -
  define M1 where "M1 = loc_unlock_nodes (count_context (pe_storage E) r (-1) (loc_lock_nodes M))"
  define bals1 where "bals1 = set_worker_at (j, i) (count_down (worker_at bals (j, i))) bals"
  note def = proxy_cluster_post_request_def Let_def M1_def [symmetric] bals1_def [symmetric] prod.case
  obtain M2 where 2: "(if sessionidstatsmem M1 = None then Value M1 else note_session E now (bals1 ! j) r M1) = Value M2"
    using assms unfolding def bind_outcome_Value by blast
  have "contextstatsmem M1 = settled (pe_storage E) (r, bals, M)" by (auto simp: settled_def M1_def split: option.split)
  moreover have "contextstatsmem M2 = contextstatsmem M1" using 2 by (auto split: if_splits dest: contexts_note_session)
  moreover have "contextstatsmem M' = contextstatsmem M2"
    using assms unfolding def 2 by (auto split: if_splits prod.splits dest: contexts_of_calls)
  ultimately show ?thesis by simp
qed

text \<open>C35: every request is counted out again. After any number of failover attempts
  (\<open>proxy_cluster_pre_request\<close>) and the end of the request (\<open>proxy_cluster_post_request\<close>) each
  registered context has the count of active requests it had before the request came, which is
  what STOP-APP and the removal of contexts look at. Other processes are taken to leave the
  contexts alone while the request waits for a worker.
\<close>

theorem request_counts_balanced:
  assumes "manager_storage (pe_storage (fe_proxy F))" and "contexts_kept (fe_others F)"
    and "wf_slotmem (contextstatsmem M)"
    and "attempts F (r, bals, M) (j, i) st'"
    and "proxy_cluster_post_request (fe_proxy F) now j i st' = Value (rv, r'', bals'', M'')"
  shows "live_eq (contextstatsmem M) (contextstatsmem M'')"
proof -
  obtain r' bals' M' where st': "st' = (r', bals', M')" by (rule prod_cases3)
  have "live_eq (contextstatsmem M) (settled (pe_storage (fe_proxy F)) st')"
    using attempts_settled [OF assms(4,1,2)] assms(3) by simp
  then show ?thesis using contexts_post_request [OF assms(5) [unfolded st']] by (simp add: st')
qed

section \<open>Examples\<close>

definition small_flow :: flow_env where
  "small_flow = \<lparr>fe_proxy = small_proxy, fe_conf = small_conf_cached, fe_now = 0, fe_main = True, fe_others = (\<lambda>_ M. M),
     fe_fuel = 201, fe_depth = 1\<rparr>"

definition small_pre :: "(int \<times> (nat \<times> nat) option \<times> string \<times> rstate \<times> bool) outcome option" where
  "small_pre = proxy_cluster_pre_request small_flow None None None None ''balancer://mycluster'' (small_request, small_balancers, small_manager_up)"

lemma small_pre_answer:
  "case small_pre of Some (Value (rv, p, url', st', a)) \<Rightarrow> rv = OK \<and> p = Some (0, 0) | _ \<Rightarrow> False"
  by code_simp

definition small_post :: "(int \<times> rstate) outcome" where
  "small_post = (case small_pre of Some (Value (rv, p, url', st', a)) \<Rightarrow> proxy_cluster_post_request small_proxy 0 0 0 st' | _ \<Rightarrow> Undefined)"

lemma small_post_answer: "case small_post of Value (rv, st') \<Rightarrow> rv = OK | _ \<Rightarrow> False"
  by code_simp

theorem request_counts_balanced_witness:
  "case small_post of Value (rv, r', bals', M') \<Rightarrow> live_eq (contextstatsmem small_manager_up) (contextstatsmem M') | _ \<Rightarrow> False"
proof -
  obtain url' st' a where 1: "small_pre = Some (Value (OK, Some (0, 0), url', st', a))"
    using small_pre_answer by (auto split: option.splits outcome.splits prod.splits)
  obtain rv r' bals' M' where 2: "small_post = Value (rv, r', bals', M')"
    using small_post_answer by (auto split: outcome.splits prod.splits)
  have "manager_storage (pe_storage (fe_proxy small_flow))"
    using shm_mgr.manager_storage_axioms by (simp add: small_flow_def small_proxy_def)
  moreover have "contexts_kept (fe_others small_flow)" by (simp add: small_flow_def contexts_kept_def others_keep_def)
  moreover have "wf_slotmem (contextstatsmem small_manager_up)" by code_simp
  moreover have "attempts small_flow (small_request, small_balancers, small_manager_up) (0, 0) st'"
    using 1 unfolding small_pre_def by (rule attempts.first)
  moreover have "proxy_cluster_post_request (fe_proxy small_flow) 0 0 0 st' = Value (rv, r', bals', M')"
    using 2 unfolding small_post_def 1 by (simp add: small_flow_def)
  ultimately show ?thesis unfolding 2 by (simp add: request_counts_balanced del: split_paired_Ex)
qed

end
