(* ===== verification/Cluster.thy ===== *)
theory Cluster
  imports Request_Count
begin

text \<open>
  The parts together: the shared tables as the management requests and the watchdogs of the child
  processes change them one after the other. A request holds the lock on the node table while it
  changes it, so the steps of the relation below are whole requests and whole watchdog runs. The
  consistency of the tables alone is not enough for a watchdog run, which frees the slot of a node
  named REMOVED without looking at its virtual hosts; the management commands keep what it relies on
  as long as no CONFIG registers a node under that name.
\<close>

section \<open>Virtual hosts and the names of their nodes\<close>

definition has_hosts :: "hostinfo slotmem \<Rightarrow> int \<Rightarrow> bool" where
  "has_hosts hm k \<longleftrightarrow> (\<exists>j < length (inuse hm). inuse hm ! j \<and> h_node (items hm ! j) = k)"

lemma removed_clean_hosts:
  "removed_clean M \<longleftrightarrow> removed_marked (nodestatsmem M) \<and> (\<forall>k. has_hosts (hoststatsmem M) k \<longrightarrow> named (slot (nodestatsmem M) k))"
  by (auto simp: removed_clean_def has_hosts_def)

lemma has_hosts_used: "manager_ok M \<Longrightarrow> has_hosts (hoststatsmem M) k \<Longrightarrow> used (nodestatsmem M) k"
  by (auto simp: has_hosts_def host_node_used)

lemma removed_clean_cong:
  "nodestatsmem M' = nodestatsmem M \<Longrightarrow> hoststatsmem M' = hoststatsmem M \<Longrightarrow> removed_clean M' = removed_clean M"
  by (simp add: removed_clean_def)

lemma removed_clean_simps [simp]:
  "removed_clean (loc_lock_nodes M) = removed_clean M" "removed_clean (loc_unlock_nodes M) = removed_clean M"
  "removed_clean (inc_version_node M) = removed_clean M" "removed_clean (manage_worker f h n b M) = removed_clean M"
  "removed_clean (M\<lparr>balancerstatsmem := bm\<rparr>) = removed_clean M"
  "removed_clean (M\<lparr>balancerstatsmem := bm, nodestatsmem := nm\<rparr>) = removed_clean (M\<lparr>nodestatsmem := nm\<rparr>)"
  by (rule removed_clean_cong; simp)+

text \<open>What may stand in a slot after a step: a node with a name, the node that was there, or a node
  marked as removed that no virtual host belongs to.\<close>

definition may_become :: "manager \<Rightarrow> int \<Rightarrow> nodeinfo \<Rightarrow> bool" where
  "may_become M k y \<longleftrightarrow> named y \<or> used (nodestatsmem M) k \<and> same_node (slot (nodestatsmem M) k) y \<or>
     \<not> has_hosts (hoststatsmem M) k \<and> n_remove (mess y) \<noteq> 0"

lemma may_stay: "used (nodestatsmem M) k \<Longrightarrow> may_become M k (slot (nodestatsmem M) k)"
  by (simp add: may_become_def same_node_def)

lemma clean_step:
  assumes c: "removed_clean M" and ok': "manager_ok M'" and h: "hoststatsmem M' = hoststatsmem M"
    and become: "\<And>k. used (nodestatsmem M') k \<Longrightarrow> may_become M k (slot (nodestatsmem M') k)"
  shows "removed_clean M'"
  unfolding removed_clean_hosts
proof (intro conjI allI impI)
  show "removed_marked (nodestatsmem M')"
    using become c by (fastforce simp: removed_marked_def removed_clean_hosts may_become_def named_def same_node_def)
next
  fix k
  assume k: "has_hosts (hoststatsmem M') k"
  then have "may_become M k (slot (nodestatsmem M') k)" by (rule become [OF has_hosts_used [OF ok']])
  then show "named (slot (nodestatsmem M') k)"
    using k c h same_node_named by (auto simp: may_become_def removed_clean_hosts)
qed

lemma clean_update:
  assumes ok: "manager_ok M" and c: "removed_clean M" and id: "\<And>x. n_id (mess (f x)) = n_id (mess x)"
    and k: "in_range (nodestatsmem M) k" and become: "may_become M k (f (slot (nodestatsmem M) k))"
  shows "removed_clean (update_node_slot k f M)"
proof (rule clean_step [OF c])
  show "manager_ok (update_node_slot k f M)" by (rule update_node_slot_ok [OF ok id])
  fix j
  assume "used (nodestatsmem (update_node_slot k f M)) j"
  then have j: "used (nodestatsmem M) j" by simp
  then have "0 \<le> j" "0 \<le> k" using k by (simp_all add: used_def in_range_def)
  then show "may_become M j (slot (nodestatsmem (update_node_slot k f M)) j)"
    using become may_stay [OF j] slot_update [OF k, of f] frame_store [of k j f M] by (cases "j = k") simp_all
qed simp

section \<open>CONFIG\<close>

lemma config_loop_route:
  "config_loop H ptr (b, n, cs, as) = Value (b', n', cs', as') \<Longrightarrow>
     n_id n' = n_id n \<and> (JVMRoute n' = JVMRoute n \<or> JVMRoute n' \<in> set ptr)"
proof (induction H ptr "(b, n, cs, as)" arbitrary: b n cs as rule: config_loop.induct)
  case (3 H k v rest b n cs as)
  then have v: "v \<noteq> []" by (auto split: if_splits)
  with 3 obtain b1 n1 where pb: "process_config_balancer k v b n = Value (b1, n1)"
    by (cases "process_config_balancer k v b n") auto
  with 3 v obtain n2 where pn: "process_config_node H k v n1 = Value n2"
    by (cases "process_config_node H k v n1") auto
  with 3 v pb obtain cs1 as1 where pa: "process_context_alias k (Some v) cs as = Value (cs1, as1)"
    by (cases "process_context_alias k (Some v) cs as") auto
  have "n_id n1 = n_id n \<and> JVMRoute n1 = JVMRoute n"
    using pb by (auto simp: process_config_balancer_def Let_def split: if_splits option.splits)
  moreover have "n_id n2 = n_id n1 \<and> (JVMRoute n2 = JVMRoute n1 \<or> JVMRoute n2 = v)"
    using pn by (auto simp: process_config_node_def split: if_splits option.splits prod.splits)
  ultimately show ?case using 3(1) [OF v] pb pn pa 3(2) v by auto
qed simp_all

lemma config_message_route:
  assumes "config_message H mconf ptr = Value (b, n, cs, as)"
  shows "n_id n = -1 \<and> JVMRoute n \<noteq> [] \<and> JVMRoute n \<in> set ptr"
proof -
  obtain b1 n1 where l: "config_loop H ptr (process_config_balancer_defaults mconf, process_config_node_defaults H mconf, [], [])
      = Value (b1, n1, cs, as)" and r: "JVMRoute n1 \<noteq> []" and n: "n = config_connector mconf n1"
    using assms by (auto simp: config_message_def bind_outcome_Value split: prod.splits if_splits)
  have "n_id n = n_id n1 \<and> JVMRoute n = JVMRoute n1"
    by (auto simp: n config_connector_def Let_def split: option.splits)
  with config_loop_route [OF l] r show ?thesis by (auto simp: process_config_node_defaults_def zero_mess_def)
qed

context manager_storage
begin

lemma read_by_id_slot:
  assumes "wf_slotmem (nodestatsmem M)" and "read_node_by_id S M i = Some k" and "i \<noteq> -1"
  shows "k = i \<and> in_range (nodestatsmem M) i"
  using assms sn.dptr_range [OF assms(1)] by (auto simp: read_node_by_id_def read_node_def Let_def split: if_splits)

lemma hostport_slot:
  assumes "wf_slotmem (nodestatsmem M)" and "find_node_byhostport (st_node S) (nodestatsmem M) host port = (APR_SUCCESS, k)"
  shows "in_range (nodestatsmem M) k"
  using assms(2) sn.dptr_range [OF assms(1)]
  by (auto simp: find_node_byhostport_def Let_def split: prod.splits if_splits)

lemma unread_route:
  assumes "nodes_ok nm" and "read_node (st_node S) nm x = None" and "n_id (mess x) = -1" and u: "used nm k"
  shows "JVMRoute (mess (slot nm k)) \<noteq> JVMRoute (mess x)"
proof
  assume r: "JVMRoute (mess (slot nm k)) = JVMRoute (mess x)"
  have wf: "wf_slotmem nm" and ids: "ids_ok node_ident nm" using assms(1) by (simp_all add: nodes_ok_def)
  then have k: "nat k < length (inuse nm)" "inuse nm ! nat k" using u by (auto simp: used_def in_range_def wf_slotmem_def)
  then obtain i where i: "first_used (\<lambda>y. node_key y = node_key x) nm = Some i"
    using r by (cases "first_used (\<lambda>y. node_key y = node_key x) nm") (auto simp: first_used_None node_key_def slot_def)
  then have "used nm (int i)" "node_ident (items nm ! i) = int i"
    using wf ids by (auto simp: first_used_Some used_def in_range_def wf_slotmem_def ids_ok_def)
  with i sn.dptr_used [OF wf] nodes.read_node_eq [OF wf assms(3)] assms(2) show False by simp
qed

lemma config_existing_worker_clean:
  assumes ok: "manager_ok M" and c: "removed_clean M" and n: "named info" and id: "n_id (mess info) = -1" and i: "i \<noteq> -1"
    and p: "config_existing_worker S M info (read_node (st_node S) (nodestatsmem M) info) worker i = (M', r)"
  shows "removed_clean M' \<and> hoststatsmem M' = hoststatsmem M \<and>
     (\<forall>ch. r = Value ch \<longrightarrow> sc_removed ch \<noteq> -1 \<longrightarrow> \<not> has_hosts (hoststatsmem M) (sc_removed ch))"
proof (cases "read_node (st_node S) (nodestatsmem M) info \<noteq> None \<or> read_node_by_id S M i = None")
  case True
  then show ?thesis using p c by (auto simp: config_existing_worker_def Let_def split: if_splits option.splits)
next
  case False
  then obtain k where none: "read_node (st_node S) (nodestatsmem M) info = None" and k: "read_node_by_id S M i = Some k" by auto
  have nodes: "nodes_ok (nodestatsmem M)" using ok by (simp add: manager_ok_def tables_ok_def)
  have ki: "k = i" "in_range (nodestatsmem M) i" using read_by_id_slot [OF manager_wf [OF ok] k i] by simp_all
  let ?r = "JVMRoute (mess (slot (nodestatsmem M) i))"
  let ?f = "\<lambda>x. x\<lparr>mess := (mess x)\<lparr>JVMRoute := JVMRoute (mess info)\<rparr>\<rparr>"
  have up: "removed_clean (update_node_slot i ?f M)"
    by (rule clean_update [OF ok c]) (use n ki in \<open>simp_all add: may_become_def named_def\<close>)
  have free: "\<not> has_hosts (hoststatsmem M) i" if "?r = ''REMOVED'' \<or> ?r = [] \<or> ?r = JVMRoute (mess info)"
    using that c unread_route [OF nodes none id] has_hosts_used [OF ok, of i] by (auto simp: removed_clean_hosts named_def)
  show ?thesis
    using p up free c by (auto simp: config_existing_worker_def Let_def none k ki(1) split: if_splits)
qed

lemma config_no_worker_clean:
  assumes ok: "manager_ok M" and c: "removed_clean M" and n: "named info"
    and p: "config_no_worker S bm M info = (M', r)"
  shows "removed_clean M' \<and> hoststatsmem M' = hoststatsmem M \<and> (\<forall>ch. r = Value ch \<longrightarrow> sc_removed ch = -1)"
proof -
  obtain rv k where f: "find_node_byhostport (st_node S) (nodestatsmem M) (Host (mess info)) (Port (mess info)) = (rv, k)" by fastforce
  have "removed_clean (update_node_slot k (\<lambda>x. x\<lparr>mess := (mess x)\<lparr>JVMRoute := JVMRoute (mess info),
      n_remove := 0, num_remove_check := 0\<rparr>\<rparr>) M)" if "rv = APR_SUCCESS"
    by (rule clean_update [OF ok c])
      (use n hostport_slot [OF manager_wf [OF ok]] f that in \<open>simp_all add: may_become_def named_def\<close>)
  with p f c show ?thesis by (auto simp: config_no_worker_def Let_def split: if_splits)
qed

lemma config_find_slot_clean:
  assumes ok: "manager_ok M" and c: "removed_clean M" and n: "named info" and id: "n_id (mess info) = -1"
    and p: "config_find_slot S bm M info = (M', r)"
  shows "removed_clean M' \<and> hoststatsmem M' = hoststatsmem M \<and>
     (\<forall>ch. r = Value ch \<longrightarrow> sc_removed ch \<noteq> -1 \<longrightarrow> \<not> has_hosts (hoststatsmem M) (sc_removed ch))"
  using p c config_existing_worker_clean [OF ok c n id, of _ _ M' r] config_no_worker_clean [OF ok c n, of bm M' r]
  by (auto simp: config_find_slot_def Let_def split: if_splits option.splits)

lemma node_step_used:
  assumes ok: "nodes_ok nm" and p: "insert_update_node (st_node S) nm x i clean now0 now1 = (APR_SUCCESS, nm', x', i')"
    and u: "used nm' j" and j: "j \<noteq> i'"
  shows "used nm j"
proof -
  have wf: "wf_slotmem nm" using ok by (simp add: nodes_ok_def)
  show ?thesis
  proof (cases "first_used (\<lambda>y. node_key y = node_key x) nm")
    case (Some k)
    then have "nm' = store nm (int k) (node_merge now1 x (items nm ! k))"
      using p by (simp add: nodes.insert_update_node_hit [OF wf Some])
    then show ?thesis using u by simp
  next
    case None
    from nodes.insert_update_node_miss [OF wf None p] u j show ?thesis
      by (auto simp: used_def in_range_def eq_nat_nat_iff)
  qed
qed

lemma node_insert_clean:
  assumes ok: "manager_ok M" and c: "removed_clean M" and x: "named x"
    and p: "insert_update_node (st_node S) (nodestatsmem M) x i clean now0 now1 = (rv, nm', x', i')"
  shows "removed_clean (M\<lparr>nodestatsmem := nm'\<rparr>)"
proof (rule clean_step [OF c])
  have nodes: "nodes_ok (nodestatsmem M)" using ok by (simp add: manager_ok_def tables_ok_def)
  note step = node_step(3,4,5) [OF nodes p]
  show "manager_ok (M\<lparr>nodestatsmem := nm'\<rparr>)" by (rule node_step_ok [OF ok p])
  fix k
  assume "used (nodestatsmem (M\<lparr>nodestatsmem := nm'\<rparr>)) k"
  then have k: "used nm' k" by simp
  show "may_become M k (slot (nodestatsmem (M\<lparr>nodestatsmem := nm'\<rparr>)) k)"
  proof (cases "rv = APR_SUCCESS")
    case False
    with step(1) k show ?thesis by (simp add: may_stay)
  next
    case True
    have "0 \<le> k" using k by (simp add: used_def in_range_def)
    moreover have "used (nodestatsmem M) k" if "k \<noteq> i'" by (rule node_step_used [OF nodes p [unfolded True] k that])
    ultimately show ?thesis
      using step(2) [OF True] step(3) [OF True, of k] x may_stay [of M k]
      by (cases "k = i'") (simp_all add: may_become_def named_def)
  qed
qed simp

lemma config_reenable_clean:
  assumes c: "removed_clean M" and bm: "bm_ok bm" and p: "config_reenable S bm M info i = Value M'"
  shows "removed_clean M' \<and> hoststatsmem M' = hoststatsmem M"
proof -
  have keep: "mess (bm_reenable b x info) = mess x" if "bm = Some b" for b x
    using bm that balancer_provider.reenable_mess [of b x info] by (simp add: bm_ok_def)
  have "mess (slot (nodestatsmem (update_node_slot k (\<lambda>x. bm_reenable b x info) M)) j) = mess (slot (nodestatsmem M) j)"
    if "bm = Some b" for b k j by (rule update_node_slot_mess) (rule keep [OF that])
  then show ?thesis using p c
    by (auto simp: config_reenable_def removed_clean_hosts removed_marked_def named_def split: option.splits if_splits)
qed

lemma mark_node_removed_clean:
  assumes "manager_ok M" and "removed_clean M" and "i \<noteq> -1" and "\<not> has_hosts (hoststatsmem M) i"
  shows "removed_clean (mark_node_removed S i now M) \<and> hoststatsmem (mark_node_removed S i now M) = hoststatsmem M"
proof (cases "read_node_by_id S M i")
  case (Some k)
  have "k = i" "in_range (nodestatsmem M) i" using read_by_id_slot [OF manager_wf [OF assms(1)] Some assms(3)] by simp_all
  moreover have "removed_clean (update_node_slot i (\<lambda>x. x\<lparr>mess := (mess x)\<lparr>JVMRoute := ''REMOVED'', n_remove := 1,
      num_remove_check := 0\<rparr>, n_updatetime := now\<rparr>) M)"
    by (rule clean_update [OF assms(1,2)]) (use assms(4) calculation in \<open>simp_all add: may_become_def\<close>)
  ultimately show ?thesis by (simp add: mark_node_removed_def Some)
qed (use assms in \<open>simp add: mark_node_removed_def\<close>)

lemma config_insert_clean:
  assumes ok: "manager_ok M" and c: "removed_clean M" and bm: "bm_ok bm" and n: "named (sc_node ch)"
    and free: "sc_removed ch \<noteq> -1 \<Longrightarrow> \<not> has_hosts (hoststatsmem M) (sc_removed ch)"
    and p: "config_insert S bm now M b ch = (M', r)"
  shows "removed_clean M'"
proof -
  let ?L = "loc_lock_nodes M"
  obtain old b1 where rb: "read_balancer (st_balancer S) (balancerstatsmem ?L) b = (old, b1)" by fastforce
  obtain rv bmem b' where ib: "insert_update_balancer (st_balancer S) (balancerstatsmem ?L) b1 now = (rv, bmem, b')"
    using prod_cases3 by blast
  let ?M1 = "?L\<lparr>balancerstatsmem := bmem\<rparr>"
  have ok1: "manager_ok ?M1" and c1: "removed_clean ?M1" using balancer_step_ok [of ?L b1 now] ok ib c by simp_all
  obtain rv' nmem info i where im: "insert_update_node (st_node S) (nodestatsmem ?M1) (sc_node ch) (sc_id ch)
      (sc_clean ch) now now = (rv', nmem, info, i)" using prod_cases4 by blast
  let ?M2 = "?M1\<lparr>nodestatsmem := nmem\<rparr>"
  have ok2: "manager_ok ?M2" by (rule node_step_ok [OF ok1 im])
  have c2: "removed_clean ?M2" by (rule node_insert_clean [OF ok1 c1 n im])
  have c3: "sc_removed ch \<noteq> -1 \<Longrightarrow> removed_clean (mark_node_removed S (sc_removed ch) now ?M2)"
    using mark_node_removed_clean [OF ok2 c2] free by simp
  have "removed_clean M3" if "(if sc_clean ch then Value ?M2 else config_reenable S bm ?M2 info i) = Value M3" for M3
    using that c2 config_reenable_clean [OF c2 bm, of info i M3] by (auto split: if_splits)
  then show ?thesis
    using p rb ib im c1 c2 c3
    by (auto simp: config_insert_def Let_def split: if_splits outcome.splits option.splits)
qed

lemma host_put_hosts:
  assumes ok: "table_ok h_id host_key hm" and p: "insert_update_host (st_host S) hm x now = (rv, hm', x')" and k: "has_hosts hm' k"
  shows "has_hosts hm k \<or> k = h_node x"
proof -
  have wf: "wf_slotmem hm" using ok by (simp add: table_ok_def)
  have "host_put (st_host S) now hm x = (rv, hm')" using p by simp
  from wf this show ?thesis
  proof (cases rule: hosts.put_map_cases)
    case (hit i)
    then show ?thesis using k wf by (auto simp: has_hosts_def wf_slotmem_def nth_update_if table_defs split: if_splits)
  next
    case (miss i)
    then show ?thesis using k wf by (auto simp: has_hosts_def wf_slotmem_def nth_update_if table_defs split: if_splits)
  qed (use k in simp)
qed

lemma config_aliases_hosts:
  assumes "table_ok h_id host_key (hoststatsmem M)" and "config_aliases S now route i contexts vid aliases M errs = (M', errs')"
  shows "nodestatsmem M' = nodestatsmem M \<and>
     (\<forall>k. has_hosts (hoststatsmem M') k \<longrightarrow> has_hosts (hoststatsmem M) k \<or> k = i)"
  using assms
proof (induction aliases arbitrary: M vid errs)
  case (Cons a as)
  let ?x = "\<lparr>h_id = 0, h_host = strcpy_n (HOSTALIASZ + 1) a, h_vhost = vid, h_node = i, h_updatetime = 0\<rparr>"
  obtain rv hm x' where ih: "insert_update_host (st_host S) (hoststatsmem M) ?x now = (rv, hm, x')" using prod_cases3 by blast
  have t: "table_ok h_id host_key hm" using hosts.put_table_ok [OF Cons.prems(1), of ?x now] ih by simp
  obtain cm errs1 where "config_contexts S now route x' a contexts (contextstatsmem M) errs = (cm, errs1)" by fastforce
  then obtain M1 vid1 errs2 where "config_aliases S now route i contexts vid1 as M1 errs2 = (M', errs')"
    and M1: "hoststatsmem M1 = hm" "nodestatsmem M1 = nodestatsmem M"
    using Cons.prems(2) ih by (auto simp: insert_update_host_helper_def split: if_splits)
  from Cons.IH [OF _ this(1)] t M1 host_put_hosts [OF Cons.prems(1) ih] show ?case by auto
qed simp

lemma config_store_clean:
  assumes ok: "manager_ok M" and c: "removed_clean M" and bm: "bm_ok (env_bm E)" and S: "env_storage E = S"
    and n: "JVMRoute n \<noteq> []" "JVMRoute n \<noteq> ''REMOVED''" "n_id n = -1"
    and p: "config_store E now M (b, n, contexts, aliases) = (M', r)"
  shows "removed_clean M'"
proof -
  let ?info = "\<lparr>mess = n, n_updatetime = 0, stat = zero_shared\<rparr>"
  obtain M1 fs where fs: "config_find_slot S (env_bm E) M ?info = (M1, fs)" by fastforce
  have info: "named ?info" "n_id (mess ?info) = -1" using n by (simp_all add: named_def)
  note fsok = config_find_slot_ok [OF ok fs] and fsc = config_find_slot_clean [OF ok c info fs]
  show ?thesis
  proof (cases fs)
    case (Value ch)
    obtain M2 ir where ir: "config_insert S (env_bm E) now M1 b ch = (M2, ir)" by fastforce
    have ch: "mess (sc_node ch) = n" using fsok(3) [OF Value] by simp
    then have named: "named (sc_node ch)" using n by (simp add: named_def)
    have c2: "removed_clean M2"
      by (rule config_insert_clean [OF fsok(1) _ bm named _ ir]) (use fsc Value in auto)
    note irok = config_insert_ok [OF fsok(1) bm ir]
    show ?thesis
    proof (cases ir)
      case res: (Value x)
      obtain b' info i where x: "x = (b', info, i)" by (cases x)
      obtain M3 errs where al: "config_aliases S now (JVMRoute (mess info)) i contexts 1 aliases M2 [] = (M3, errs)"
        by fastforce
      have "manager_ok M2" and i: "mess (slot (nodestatsmem M2) i) = n\<lparr>n_id := i\<rparr>" using irok res x ch by auto
      then have t: "table_ok h_id host_key (hoststatsmem M2)" by (simp add: manager_ok_def tables_ok_def)
      have "named (slot (nodestatsmem M2) i)" using i n by (simp add: named_def)
      then have "removed_clean M3" using c2 config_aliases_hosts [OF t al] by (auto simp: removed_clean_hosts)
      then show ?thesis using p fs Value ir res x al S c2 by (auto simp: config_store_def split: if_splits)
    qed (use p fs Value ir S c2 in \<open>auto simp: config_store_def\<close>)
  qed (use p fs fsc S in \<open>auto simp: config_store_def\<close>)
qed

lemma process_config_clean:
  assumes "manager_ok M" and "removed_clean M" and "bm_ok (env_bm E)" and "env_storage E = S" and "''REMOVED'' \<notin> set ptr"
  shows "removed_clean (fst (process_config E now M ptr))"
proof (cases "config_message (env_httpd E) (env_conf E) ptr")
  case (Value msg)
  obtain b n contexts aliases where msg: "msg = (b, n, contexts, aliases)" by (cases msg)
  have "n_id n = -1" "JVMRoute n \<noteq> []" "JVMRoute n \<noteq> ''REMOVED''"
    using config_message_route [OF Value [unfolded msg]] assms(5) by auto
  with Value msg show ?thesis
    using config_store_clean [OF assms(1-4), of n now b contexts aliases]
    by (cases "config_store E now M msg") (auto simp: process_config_def)
qed (use assms in \<open>simp_all add: process_config_def\<close>)

end

section \<open>The other commands\<close>

context manager_storage
begin

lemma app_host_hosts:
  assumes t: "table_ok h_id host_key hm" and p: "app_host S now cmd node a vid hm = (hm', vid', r)" and k: "has_hosts hm' k"
  shows "has_hosts hm k \<or> k = node"
proof -
  let ?x = "\<lparr>h_id = 0, h_host = strcpy_n (HOSTALIASZ + 1) a, h_vhost = 0, h_node = node, h_updatetime = 0\<rparr>"
  obtain found x1 where rd: "read_host (st_host S) hm ?x = (found, x1)" by fastforce
  have "x1 = ?x" if "found = None" using rd that read_host_miss_record [OF t, of ?x] by simp
  moreover have "has_hosts hm k \<or> k = node" if "insert_update_host (st_host S) hm (?x\<lparr>h_vhost := v\<rparr>) now = (rv, hm', x2)" for v rv x2
    using host_put_hosts [OF t that k] by simp
  ultimately show ?thesis using p k rd by (auto simp: app_host_def Let_def split: option.splits if_splits prod.splits)
qed

lemma app_remove_host_hosts:
  assumes "vhosts_ok nm hm cm" and "has_hosts (app_remove_host S v node cm hm) k"
  shows "has_hosts hm k"
proof -
  have t: "table_ok h_id host_key hm" using assms(1) by (simp add: vhosts_ok_def)
  show ?thesis
    using assms(2) sh.release_where_all [OF t, of "\<lambda>ou. h_vhost ou = v \<and> h_node ou = node"]
    by (auto simp: app_remove_host_def get_ids_used_host_def has_hosts_def split: if_splits)
qed

lemma app_aliases_hosts:
  assumes "vhosts_ok nm hm cm" and "used nm node"
    and "app_aliases S now cmd node contexts vid aliases (hm, cm) = ((hm', cm'), rows)" and "has_hosts hm' k"
  shows "has_hosts hm k \<or> k = node"
  using assms(1-3)
proof (induction aliases arbitrary: hm cm vid rows)
  case Nil
  then show ?case using assms(4) by simp
next
  case (Cons a as)
  obtain hm1 vid1 r where ah: "app_host S now cmd node a vid hm = (hm1, vid1, r)" using prod_cases3 by blast
  note aok = app_host_ok [OF Cons.prems(1,2) ah]
  have t: "table_ok h_id host_key hm" using Cons.prems(1) by (simp add: vhosts_ok_def)
  note new = app_host_hosts [OF t ah, of k]
  show ?case
  proof (cases r)
    case None
    then obtain rows1 where "app_aliases S now cmd node contexts vid1 as (hm1, cm) = ((hm', cm'), rows1)"
      using Cons.prems(3) ah by (auto split: prod.splits)
    from Cons.IH [OF aok(1) Cons.prems(2) this] new show ?thesis by blast
  next
    case (Some j)
    let ?v = "h_vhost (slot hm1 j)"
    obtain cm1 row where ac: "app_contexts S now cmd node ?v contexts cm = (cm1, row)" by fastforce
    let ?hm2 = "if cmd = REMOVE then app_remove_host S ?v node cm1 hm1 else hm1"
    obtain rows1 where rest: "app_aliases S now cmd node contexts vid1 as (?hm2, cm1) = ((hm', cm'), rows1)"
      using Cons.prems(3) ah Some ac by (auto simp: Let_def split: prod.splits)
    have "host_row hm1 ?v node"
      using aok(2) [OF Some] aok(1) used_row [of hm1 j] by (simp add: vhosts_ok_def table_ok_def)
    then have v1: "vhosts_ok nm hm1 cm1" using app_contexts_ok [OF aok(1) _ ac] by blast
    then have "vhosts_ok nm ?hm2 cm1" using app_remove_host_ok by simp
    from Cons.IH [OF this Cons.prems(2) rest] new app_remove_host_hosts [OF v1, of ?v node k] show ?thesis
      by (auto split: if_splits)
  qed
qed

lemma process_node_cmd_clean:
  assumes ok: "manager_ok M" and c: "removed_clean M" and k: "used (nodestatsmem M) k" and n: "named (slot (nodestatsmem M) k)"
  shows "removed_clean (process_node_cmd S now status k M)"
proof (cases "loc_get_max_size_host S M = 0")
  case True
  with c show ?thesis by (simp add: process_node_cmd_def)
next
  case size: False
  let ?node = "n_id (mess (slot (nodestatsmem M) k))"
  obtain hm cm where t: "node_cmd_hosts S now status ?node (get_ids_used_host (st_host S) (hoststatsmem M))
      (hoststatsmem M, contextstatsmem M) = (hm, cm)" by fastforce
  let ?M1 = "M\<lparr>hoststatsmem := hm, contextstatsmem := cm\<rparr>"
  have tb: "table_ok h_id host_key (hoststatsmem M)" "table_ok c_id context_key (contextstatsmem M)"
    using ok by (simp_all add: manager_ok_def tables_ok_def)
  show ?thesis
  proof (cases "status = REMOVE")
    case False
    have "hm = hoststatsmem M"
      using t node_cmd_hosts_status [OF tb False subset_refl, of now ?node] hosts_eq [OF tb(1)] by auto
    then show ?thesis using size t False c removed_clean_cong [of ?M1 M] by (simp add: process_node_cmd_def Let_def)
  next
    case True
    have M1: "?M1 = loc_remove_host_context S ?node M"
      using t True node_cmd_remove_tables [OF ok size, of now ?node]
        remove_host_context_tables [of M ?node] ok size by (auto simp: manager_ok_def)
    then have ok1: "manager_ok ?M1" using remove_host_context_ok [OF ok] by simp
    have c1: "removed_clean ?M1"
      unfolding M1 using c remove_host_context_hosts [OF ok, of _ ?node] by (auto simp: removed_clean_def)
    let ?f = "\<lambda>x. x\<lparr>mess := (mess x)\<lparr>n_remove := 1\<rparr>\<rparr>"
    let ?M2 = "update_node_slot k ?f ?M1"
    have k1: "in_range (nodestatsmem ?M1) k" using k by (simp add: used_def)
    have ok2: "manager_ok ?M2" by (rule update_node_slot_ok [OF ok1]) simp
    have c2: "removed_clean ?M2"
      by (rule clean_update [OF ok1 c1 _ k1]) (use n in \<open>simp_all add: may_become_def named_def\<close>)
    have n2: "named (slot (nodestatsmem ?M2) k)" using n slot_update [OF k1, of ?f] by (simp add: named_def)
    obtain rv nm' x' i' where ins: "insert_update_node (st_node S) (nodestatsmem ?M2) (slot (nodestatsmem ?M2) k)
        (-1) False now now = (rv, nm', x', i')" using prod_cases4 by blast
    have "process_node_cmd S now status k M = ?M2\<lparr>nodestatsmem := nm'\<rparr>"
      using size t True ins by (simp add: process_node_cmd_def Let_def)
    then show ?thesis using node_insert_clean [OF ok2 c2 n2 ins] by simp
  qed
qed

lemma process_app_cmd_clean:
  assumes ok: "manager_ok M" and c: "removed_clean M" and S: "env_storage E = S"
    and p: "process_app_cmd E now filename cmd M ptr = (M', r)"
  shows "removed_clean M'"
  using ok S p
proof (cases rule: process_app_cmd_cases)
  case early
  with c show ?thesis by simp
next
  case (node route contexts aliases k)
  have "route \<noteq> []" using node(1) by (auto simp: app_message_def bind_outcome_Value split: if_splits)
  then have "named (slot (nodestatsmem M) k)"
    using node(2,4,5) c by (auto simp: named_def removed_clean_def removed_marked_def)
  with node process_node_cmd_clean [of "inc_version_node (loc_lock_nodes M)" k now cmd] ok c show ?thesis by simp
next
  case (app route contexts aliases k hm cm updated)
  have "route \<noteq> []" using app(1) by (auto simp: app_message_def bind_outcome_Value split: if_splits)
  then have n: "named (slot (nodestatsmem M) k)"
    using app(2,4,5) c by (auto simp: named_def removed_clean_def removed_marked_def)
  have "vhosts_ok (nodestatsmem M) (hoststatsmem M) (contextstatsmem M)" using ok by (simp add: manager_ok_vhosts_ok)
  note hosts = app_aliases_hosts [OF this app(2,7)]
  show ?thesis using c n app(8) hosts by (auto simp: removed_clean_hosts)
qed

lemma process_appl_clean:
  assumes "manager_ok M" and "removed_clean M" and "env_storage E = S" and "process_appl E now filename cmd M ptr = Some (M', res)"
  shows "removed_clean M'"
  using assms(4) process_app_cmd_clean [OF assms(1,2), of "cfg_env E"] assms(3)
  by (auto simp: process_appl_def process_enable_def process_disable_def process_stop_def process_remove_def
      split: if_splits)

lemma domain_loop_clean:
  assumes "manager_ok M" and "removed_clean M" and "env_storage E = S"
    and "domain_loop E now filename cmd base domain is (M, res) = (M', res')"
  shows "removed_clean M'"
  using assms(1,2,4)
proof (induction "is" arbitrary: M res domain)
  case (Cons i "is")
  have step: "manager_ok M1 \<and> removed_clean M1" if "process_appl E now filename cmd M ptr = Some (M1, r)" for ptr M1 r
    using process_appl_ok [OF Cons.prems(1) assms(3) that] process_appl_clean [OF Cons.prems(1,2) assms(3) that] by simp
  show ?case
    using Cons.prems
    by (auto simp: Let_def split: option.splits outcome.splits if_splits dest!: step dest: Cons.IH [rotated 2])
qed simp

lemma process_params_clean:
  assumes "manager_ok M" and "removed_clean M" and "env_storage E = S" and "process_params E now r params allow M = (M', res)"
  shows "removed_clean M'"
  using assms(2,4) process_appl_clean [OF assms(1-3)] domain_loop_clean [OF assms(1-3)]
  by (auto simp: process_params_def process_domain_def Let_def split: option.splits outcome.splits prod.splits if_splits)

end

section \<open>Sound steps\<close>

text \<open>What the tables have to satisfy, and the steps that keep it.\<close>

definition cluster_ok :: "manager \<Rightarrow> bool" where
  "cluster_ok M \<longleftrightarrow> manager_ok M \<and> removed_clean M"

definition sound :: "manager \<Rightarrow> manager \<Rightarrow> bool" where
  "sound M M' \<longleftrightarrow> (cluster_ok M \<longrightarrow> cluster_ok M')"

lemma sound_kept: "kept M M' \<Longrightarrow> sound M M'"
  using kept_ok kept_clean by (auto simp: sound_def cluster_ok_def)

lemma sound_steady: "steady M M' \<Longrightarrow> sound M M'"
  by (simp add: steady_def sound_def cluster_ok_def)

lemma sound_refl: "sound M M"
  by (simp add: sound_def)

lemma sound_trans [trans]: "sound M M' \<Longrightarrow> sound M' M'' \<Longrightarrow> sound M M''"
  by (simp add: sound_def)

lemma sound_lock: "sound (loc_lock_nodes M) M' \<Longrightarrow> sound M (loc_unlock_nodes M')"
  by (simp add: sound_def cluster_ok_def)

interpretation sound_frame: worker_frame sound
  by unfold_locales (blast intro: sound_refl sound_trans sound_lock sound_kept kept_worker_only)+

section \<open>Requests of clients\<close>

lemma add_requests_ok:
  assumes P: "slotmem_provider Pc" and t: "table_ok c_id context_key m"
  shows "table_ok c_id context_key (add_requests Pc i v m) \<and> inuse (add_requests Pc i v m) = inuse m \<and>
     (\<forall>j. c_vhost (items (add_requests Pc i v m) ! j) = c_vhost (items m ! j) \<and> c_node (items (add_requests Pc i v m) ! j) = c_node (items m ! j))"
proof (cases "dptr Pc m i = APR_SUCCESS")
  case True
  let ?x = "(slot m i)\<lparr>c_nbrequests := c_nbrequests (slot m i) + v\<rparr>"
  have wf: "wf_slotmem m" using t by (simp add: table_ok_def)
  then have "nat i < length (items m)" using slotmem_provider.dptr_range [OF P wf True] by (simp add: in_range_def)
  then have item: "items (store m i ?x) ! j = (if j = nat i then (items m ! j)\<lparr>c_nbrequests := c_nbrequests (items m ! j) + v\<rparr> else items m ! j)" for j
    by (simp add: store_def slot_def)
  have "c_id (items (store m i ?x) ! j) = c_id (items m ! j)" "context_key (items (store m i ?x) ! j) = context_key (items m ! j)" for j
    unfolding item by (simp_all add: context_key_def)
  then show ?thesis using True t item by (auto simp: add_requests_def table_ok_def wf_slotmem_def ids_ok_def keys_ok_def store_def)
qed (use t in \<open>simp add: add_requests_def\<close>)

lemma count_context_rest:
  "nodestatsmem (count_context S r v M) = nodestatsmem M" "hoststatsmem (count_context S r v M) = hoststatsmem M"
  "balancerstatsmem (count_context S r v M) = balancerstatsmem M"
  by (simp_all add: count_context_def upd_context_count_def Let_def split: option.split)

lemma count_context_sound:
  assumes "manager_storage S"
  shows "sound M (count_context S r v M)"
proof -
  have P: "slotmem_provider (st_context S)" using assms by (simp add: manager_storage_def)
  have "manager_ok (count_context S r v M)" if ok: "manager_ok M"
  proof -
    have t: "table_ok c_id context_key (contextstatsmem M)" using ok by (simp add: manager_ok_def tables_ok_def)
    from add_requests_ok [OF P t] ok show ?thesis
      by (auto simp: manager_ok_def tables_ok_def refs_ok_def contexts_ref_def count_context_rest split: option.split)
  qed
  then show ?thesis using removed_clean_cong [of "count_context S r v M" M]
    by (simp add: sound_def cluster_ok_def count_context_rest)
qed

lemma counted_sound: "manager_storage S \<Longrightarrow> sound M (loc_unlock_nodes (count_context S r v (loc_lock_nodes M)))"
  by (rule sound_lock) (rule count_context_sound)

lemma note_session_sound:
  assumes "note_session E now b r M = Value M'"
  shows "sound M M'"
proof -
  have 1: "kept M (snd (loc_remove_sessionid S M x))" and 2: "kept M (snd (loc_insert_update_sessionid S M x t))" for S M x t
    by (rule kept_nodes; auto simp: loc_remove_sessionid_def loc_insert_update_sessionid_def split: prod.split option.split)+
  have "kept M M'" using assms
    by (auto simp: note_session_def Let_def bind_outcome_Value split: option.splits if_splits prod.splits intro: 1 2 kept_trans)
  then show ?thesis by (rule sound_kept)
qed

lemma post_request_sound:
  assumes S: "manager_storage (pe_storage E)" and p: "proxy_cluster_post_request E now j i (r, bals, M) = Value (rv, r', bals', M')"
  shows "sound M M'"
proof -
  define M1 where "M1 = loc_unlock_nodes (count_context (pe_storage E) r (-1) (loc_lock_nodes M))"
  define bals1 where "bals1 = set_worker_at (j, i) (count_down (worker_at bals (j, i))) bals"
  note def = proxy_cluster_post_request_def Let_def M1_def [symmetric] bals1_def [symmetric] prod.case
  obtain M2 where 2: "(if sessionidstatsmem M1 = None then Value M1 else note_session E now (bals1 ! j) r M1) = Value M2"
    using p unfolding def bind_outcome_Value by blast
  have "sound M M1" unfolding M1_def by (rule counted_sound [OF S])
  also have "sound M1 M2" using 2 by (auto split: if_splits intro: sound_refl note_session_sound)
  also have "sound M2 M'"
    using p unfolding def 2 by (auto split: if_splits prod.splits intro: sound_refl dest: sound_frame.of_calls)
  finally show ?thesis .
qed

lemma pre_request_sound:
  assumes S: "manager_storage (pe_storage (fe_proxy F))" and k: "others_keep sound (fe_others F)"
    and p: "proxy_cluster_pre_request F vt ct nt bal url (r, bals, M) = Some (Value (rv, w, url', (r', bals', M'), a))"
  shows "sound M M'"
proof -
  note def = proxy_cluster_pre_request_def Let_def
  obtain v c n where t: "orelse vt (read_vhost_table (pe_storage (fe_proxy F)) M False) = Some v"
    "orelse ct (read_context_table (pe_storage (fe_proxy F)) M False) = Some c"
    "orelse nt (read_node_table (pe_storage (fe_proxy F)) M False) = Some n"
    using p by (auto simp: def split: option.splits)
  obtain found st1 a1 where
    st: "(case bal of Some j \<Rightarrow> (Some j, release_previous F j (r, bals, M), False) | None \<Rightarrow> find_balancer F n url (r, bals, M)) =
        (found, st1, a1)" by (rule prod_cases3)
  obtain r1 bals1 M1 where st1: "st1 = (r1, bals1, M1)" by (rule prod_cases3)
  note 1 = st [unfolded st1]
  have "sound M M1"
  proof (cases bal)
    case None
    then show ?thesis using 1 sound_frame.find_balancer_frame [of F n url r bals M found r1 bals1 M1 a1] by simp
  next
    case (Some j)
    then show ?thesis using 1 counted_sound [OF S]
      by (auto simp: release_previous_def Let_def intro: sound_refl split: option.splits if_splits)
  qed
  also have "sound M1 M'"
  proof (cases found)
    case None
    then show ?thesis using p 1 by (simp add: def t sound_refl)
  next
    case (Some j)
    obtain res st2 a2 where pk: "pick_worker F v c n j (r1, bals1, M1) = Some (Value (res, st2, a2))"
      using p 1 Some by (auto simp: def t bind_wait_Value)
    obtain r2 bals2 M2 where st2: "st2 = (r2, bals2, M2)" by (rule prod_cases3)
    note 2 = pk [unfolded st2]
    have "sound M1 M2" by (rule sound_frame.pick_worker_frame [OF 2 k])
    also have "sound M2 M'"
    proof (cases res)
      case (Inr i)
      obtain w1 M3 where w: "ws_update count_busy (worker_at bals2 (j, i)) M2 = (w1, M3)" by fastforce
      have "M' = loc_unlock_nodes (count_context (pe_storage (fe_proxy F)) r2 1 (loc_lock_nodes M3))"
        using p 1 Some 2 Inr w by (auto simp: def t mark_worker_def)
      then show ?thesis using sound_frame.of_calls(1) [OF w] counted_sound [OF S] by (blast intro: sound_trans)
    qed (use p 1 Some 2 in \<open>simp add: def t sound_refl\<close>)
    finally show ?thesis .
  qed
  finally show ?thesis .
qed

lemma trans_sound:
  assumes "proxy_cluster_trans F Q aliases (r, bals, M) = Value (rv, (r', bals', M'), a)"
  shows "sound M M'"
proof -
  obtain ts bals1 M1 a1 where 1: "request_tables F Q bals M = (ts, bals1, M1, a1)" by (rule prod_cases4)
  obtain vt ct nt where ts: "ts = (Some vt, Some ct, Some nt)"
    using assms by (cases ts) (auto simp: proxy_cluster_trans_def 1 split: option.splits)
  obtain name r1 where 2: "request_balancer (fe_proxy F) (pc_use_alias (fe_conf F)) bals1 vt ct nt r = Value (name, r1)"
    using assms by (auto simp: proxy_cluster_trans_def 1 ts bind_outcome_Value)
  have "M' = M1"
  proof (cases name)
    case (Some b)
    obtain rv2 r2 where "try_aliases aliases r1 = (rv2, r2)" by fastforce
    then show ?thesis using assms by (auto simp: proxy_cluster_trans_def 1 ts 2 Some Let_def split: if_splits)
  qed (use assms in \<open>simp add: proxy_cluster_trans_def 1 ts 2\<close>)
  moreover have "sound M M1" using 1
    by (auto simp: request_tables_def Let_def intro: sound_refl sound_lock split: if_splits prod.splits dest!: sound_frame.of_calls(2))
  ultimately show ?thesis by simp
qed

section \<open>Requests of the back ends\<close>

text \<open>The message, if there is one, has no field REMOVED.\<close>

definition no_removed_field :: "henv \<Rightarrow> mod_manager_config \<Rightarrow> string option list \<Rightarrow> bool" where
  "no_removed_field E mconf chunks =
     (case read_body (max_message (env_httpd E) mconf) chunks [] of
        None \<Rightarrow> True
      | Some buff \<Rightarrow>
          (case process_buff (truncate_at (CHR 0x00) buff) of None \<Rightarrow> True | Some ptr \<Rightarrow> ''REMOVED'' \<notin> set ptr))"

lemma worker_only_clean: "manager_ok M \<Longrightarrow> removed_clean M \<Longrightarrow> worker_only M M' \<Longrightarrow> removed_clean M'"
  by (blast intro: kept_clean kept_worker_only)

context manager_storage
begin

lemma run_command_clean:
  assumes "manager_ok M" and "removed_clean M" and "env_storage E = S" and "bm_ok (env_bm E)" and "''REMOVED'' \<notin> set ptr"
  shows "removed_clean (fst (run_command E now r M ptr))"
  using assms process_config_clean [of M "cfg_env E" ptr now] process_appl_clean [OF assms(1-3)]
    worker_only_clean [OF assms(1,2) process_status_worker_only [OF assms(4)]]
  by (auto simp: run_command_def Let_def split: option.splits)

lemma manager_handler_sound:
  assumes S: "env_storage E = S" and bm: "bm_ok (env_bm E)" and m: "no_removed_field E mconf chunks"
  shows "sound M (fst (manager_handler E now mconf unescape nonce_value args chunks r M))"
proof -
  have "removed_clean (fst (mcmp_handler E now mconf r chunks M))" if "manager_ok M" "removed_clean M"
    using that m run_command_clean [OF that S bm]
    by (auto simp: mcmp_handler_def no_removed_field_def Let_def split: option.splits outcome.splits prod.splits)
      (metis fst_conv)+
  moreover have "removed_clean (fst (manager_info E now mconf unescape nonce_value r args M))" if "manager_ok M" "removed_clean M"
    using that process_params_clean [OF that S]
    by (auto simp: manager_info_def Let_def split: option.splits outcome.splits prod.splits sum.splits)
  moreover have "manager_ok (fst (mcmp_handler E now mconf r chunks M))" if "manager_ok M"
    using that run_command_ok [OF that S bm]
    by (auto simp: mcmp_handler_def Let_def split: option.splits outcome.splits prod.splits)
  moreover have "manager_ok (fst (manager_info E now mconf unescape nonce_value r args M))" if "manager_ok M"
    using that process_params_ok [OF that S]
    by (auto simp: manager_info_def Let_def split: option.splits outcome.splits prod.splits sum.splits)
  ultimately show ?thesis by (auto simp: sound_def cluster_ok_def manager_handler_def)
qed

end

section \<open>The system\<close>

text \<open>
  One step of the system on the shared tables. The private state of the processes is free in every
  step. mod_proxy_cluster offers its functions to mod_manager or is not there. While a request
  waits for a worker, other steps may happen.
\<close>

inductive cluster_step :: "storage \<Rightarrow> manager \<Rightarrow> manager \<Rightarrow> bool" for S where
  idle: "cluster_step S M M"
| management: "env_storage E = S \<Longrightarrow> env_bm E = None \<or> env_bm E = Some (balancerhandler P C t Q M0) \<Longrightarrow>
    no_removed_field E mconf chunks \<Longrightarrow>
    cluster_step S M (fst (manager_handler E now mconf unescape nonce_value args chunks r M))"
| child_start: "pe_storage E = S \<Longrightarrow> proxy_cluster_child_init E C now Q M = (Q', M') \<Longrightarrow> cluster_step S M M'"
| watchdog: "pe_storage E = S \<Longrightarrow> proxy_cluster_watchdog_func E C R now Q M = (Q', M') \<Longrightarrow> cluster_step S M M'"
| probe: "run_task E C R Q M = (Q', M') \<Longrightarrow> cluster_step S M M'"
| lbmethod: "pe_storage E = S \<Longrightarrow> Lb_Method.mc_watchdog_callback E now bals M = (bals', M') \<Longrightarrow> cluster_step S M M'"
| translate: "proxy_cluster_trans F Q aliases (r, bals, M) = Value (rv, (r', bals', M'), a) \<Longrightarrow> cluster_step S M M'"
| before_request: "pe_storage (fe_proxy F) = S \<Longrightarrow> (\<And>n M. cluster_step S M (fe_others F n M)) \<Longrightarrow>
    proxy_cluster_pre_request F vt ct nt bal url (r, bals, M) = Some (Value (rv, w, url', (r', bals', M'), a)) \<Longrightarrow>
    cluster_step S M M'"
| after_request: "pe_storage E = S \<Longrightarrow> proxy_cluster_post_request E now j i (r, bals, M) = Value (rv, r', bals', M') \<Longrightarrow>
    cluster_step S M M'"

inductive reachable :: "storage \<Rightarrow> manager \<Rightarrow> bool" for S where
  start: "manager_init S root mkversion c = Some (M, c') \<Longrightarrow> reachable S M"
| step: "reachable S M \<Longrightarrow> cluster_step S M M' \<Longrightarrow> reachable S M'"

lemma init_servers_kept: "init_servers E C now main nt bs M = (bs', M', a) \<Longrightarrow> kept M M'"
proof (induction bs arbitrary: main M bs' M' a)
  case (Cons bals rest)
  obtain bals1 M1 where 1: "update_workers_node E C now main False nt bals M = (bals1, M1)" by fastforce
  obtain rest' M2 a2 where 2: "init_servers E C now False nt rest M1 = (rest', M2, a2)" by (rule prod_cases3)
  have "kept M M1" by (rule kept_worker_only) (rule update_workers_node_only [OF 1])
  also have "kept M1 M2" by (rule Cons.IH [OF 2])
  finally show ?case using Cons.prems by (auto simp: 1 2 split: prod.splits)
qed simp

lemma child_init_sound: "proxy_cluster_child_init E C now Q M = (Q', M') \<Longrightarrow> sound M M'"
  by (auto simp: proxy_cluster_child_init_def Let_def sound_refl split: if_splits prod.splits
      intro: sound_lock sound_kept dest!: init_servers_kept)

lemma run_task_sound: "run_task E C R Q M = (Q', M') \<Longrightarrow> sound M M'"
  by (auto simp: run_task_def Let_def sound_refl split: list.splits prod.splits intro: sound_kept dest!: check_proxy_worker_kept)

lemma cluster_step_sound:
  assumes S: "manager_storage S" and "cluster_step S M M'"
  shows "sound M M'"
  using assms(2)
proof induction
  case (management E P C t Q M0 mconf chunks M now unescape nonce_value args r)
  have "bm_ok (env_bm E)" using management(2) mc.balancer_provider_axioms by (auto simp: bm_ok_def)
  then show ?case by (rule manager_storage.manager_handler_sound [OF S management(1) _ management(3)])
next
  case (watchdog E C R now Q M Q' M')
  have E: "manager_storage (pe_storage E)" using S watchdog(1) by simp
  show ?case by (rule sound_steady) (rule watchdog_func_steady [OF E watchdog(2)])
next
  case (lbmethod E now bals M bals' M')
  have E: "manager_storage (pe_storage E)" using S lbmethod(1) by simp
  show ?case using lbmethod_watchdog_invariant [OF E _ _ lbmethod(2)] by (simp add: sound_def cluster_ok_def)
next
  case (before_request F vt ct nt bal url r bals M rv w url' r' bals' M' a)
  have "others_keep sound (fe_others F)" using before_request.IH by (simp add: others_keep_def)
  then show ?case using pre_request_sound [OF _ _ before_request.hyps(3)] S before_request.hyps(1) by simp
next
  case (after_request E now j i r bals M rv r' bals' M')
  show ?case using post_request_sound [OF _ after_request(2)] S after_request(1) by simp
qed (blast intro: sound_refl child_init_sound run_task_sound trans_sound)+

section \<open>Property\<close>


text \<open>A server with room for two nodes, and the registration of a node with an application.\<close>

definition two_nodes :: mod_manager_config where
  "two_nodes = create_manager_config\<lparr>maxnode := 2, maxhost := 2, maxcontext := 2, enable_mcmp_receive := 1\<rparr>"

definition started :: manager where
  "started = fst (the (manager_init shm_storage (\<lambda>s. s) (\<lambda>_. APR_SUCCESS) two_nodes))"

definition registered :: manager where
  "registered = fst (manager_handler small_henv 9 two_nodes (\<lambda>s. (0, s)) [] None
     [Some ''JVMRoute=n1&Alias=h&Context=/app'']
     \<lparr>r_method = ''CONFIG'', r_method_number = M_INVALID, r_uri = ''/'', r_handler = ''mod-cluster'',
      r_filename = ''/'', r_accept = None\<rparr> started)"

lemma registered_reachable: "reachable shm_storage registered"
proof -
  have "manager_init shm_storage (\<lambda>s. s) (\<lambda>_. APR_SUCCESS) two_nodes \<noteq> None" by code_simp
  then obtain c' where "manager_init shm_storage (\<lambda>s. s) (\<lambda>_. APR_SUCCESS) two_nodes = Some (started, c')"
    by (auto simp: started_def)
  then have "reachable shm_storage started" by (rule reachable.start)
  moreover have "cluster_step shm_storage started registered"
    unfolding registered_def
  proof (rule cluster_step.management)
    show "env_storage small_henv = shm_storage" "env_bm small_henv = None \<or> env_bm small_henv = Some (balancerhandler P C t Q M0)" for P C t Q M0
      by (simp_all add: small_henv_def small_env_def menv.defs henv.defs)
    show "no_removed_field small_henv two_nodes [Some ''JVMRoute=n1&Alias=h&Context=/app'']" by code_simp
  qed
  ultimately show ?thesis by (rule reachable.step)
qed


end
