(* ===== verification/Status_Page.thy ===== *)
theory Status_Page
  imports Manager_Handler "HOL-Library.List_Lexorder"
begin

unbundle bit_operations_syntax

text \<open>
  The status page of mod_manager (\<open>manager_info\<close> after its parameters are processed): the file
  header, the nodes sorted by domain, their virtual hosts with contexts and aliases, and the
  sessions. The page is the string sent to the client. httpd's \<open>ap_escape_html\<close>, the uri of the
  request, the nonce, the version text, the modules loaded and the text of mod_advertise come in
  through \<open>page_env\<close>; \<open>print_domain\<close> prints nothing unless \<open>HAVE_CLUSTER_EX_DEBUG\<close> is set.
\<close>

record page_env =
  pg_escape :: "string \<Rightarrow> string"
  pg_uri :: string
  pg_nonce :: string
  pg_version :: string
  pg_doctype :: string
  pg_module :: "string \<Rightarrow> bool"
  pg_advertise :: "string option"
  pg_not_usable :: "32 word"
  pg_debug :: bool

section \<open>Links\<close>

definition context_string :: "contextinfo \<Rightarrow> string \<Rightarrow> string \<Rightarrow> string" where
  "context_string ou al route = ''JVMRoute='' @ route @ ''&Alias='' @ al @ ''&Context='' @ strcpy_n (CONTEXTSZ + 1) (c_context ou)"

definition balancer_nonce_string :: "page_env \<Rightarrow> mod_manager_config \<Rightarrow> string" where
  "balancer_nonce_string E mconf = (if nonce mconf \<noteq> 0 then ''nonce='' @ pg_nonce E @ ''&'' else [])"

definition page_link :: "page_env \<Rightarrow> mod_manager_config \<Rightarrow> string \<Rightarrow> string \<Rightarrow> string" where
  "page_link E mconf query label =
     ''<a href='' @ quoted (pg_uri E @ ''?'' @ balancer_nonce_string E mconf @ query) @ ''>'' @ label @ ''</a>''"

definition print_context_command :: "page_env \<Rightarrow> mod_manager_config \<Rightarrow> contextinfo \<Rightarrow> string \<Rightarrow> string \<Rightarrow> string" where
  "print_context_command E mconf ou al route =
     (let cmd = (\<lambda>c label. page_link E mconf (''Cmd='' @ c @ ''&Range=CONTEXT&'' @ context_string ou al route) label) in
      (if c_status ou = DISABLED then cmd ''ENABLE-APP'' ''Enable'' @ '' '' @ '' '' @ cmd ''STOP-APP'' ''Stop'' else []) @
      (if c_status ou = ENABLED then cmd ''DISABLE-APP'' ''Disable'' @ '' '' @ cmd ''STOP-APP'' ''Stop'' else []) @
      (if c_status ou = STOPPED then cmd ''ENABLE-APP'' ''Enable'' @ '' '' @ cmd ''DISABLE-APP'' ''Disable'' else []))"

definition node_string :: "string \<Rightarrow> string" where
  "node_string route = ''JVMRoute='' @ route"

definition print_node_command :: "page_env \<Rightarrow> mod_manager_config \<Rightarrow> string \<Rightarrow> string" where
  "print_node_command E mconf route =
     (let cmd = (\<lambda>c label. page_link E mconf (''Cmd='' @ c @ ''&Range=NODE&'' @ node_string route) label) in
      cmd ''ENABLE-APP'' ''Enable Contexts'' @ '' '' @ cmd ''DISABLE-APP'' ''Disable Contexts'' @ '' '' @
      cmd ''STOP-APP'' ''Stop Contexts'')"

definition print_domain_command :: "page_env \<Rightarrow> mod_manager_config \<Rightarrow> string \<Rightarrow> string" where
  "print_domain_command E mconf lbgroup =
     (let cmd = (\<lambda>c label. page_link E mconf (''Cmd='' @ c @ ''&Range=DOMAIN&Domain='' @ lbgroup) label) in
      cmd ''ENABLE-APP'' ''Enable Nodes'' @ '' '' @ cmd ''DISABLE-APP'' ''Disable Nodes'' @ '' '' @ cmd ''STOP-APP'' ''Stop Nodes'')"

definition mc_escape_html :: "page_env \<Rightarrow> string \<Rightarrow> nat \<Rightarrow> string" where
  "mc_escape_html E str len = pg_escape E (take len str)"

section \<open>Contexts and hosts\<close>

definition context_line :: "page_env \<Rightarrow> mod_manager_config \<Rightarrow> string \<Rightarrow> string \<Rightarrow> contextinfo \<Rightarrow> string" where
  "context_line E mconf al route ou =
     take CONTEXTSZ (mc_escape_html E (c_context ou) CONTEXTSZ) @ '', Status: '' @ context_status_to_string (c_status ou) @
     '' Request: '' @ show_int (c_nbrequests ou) @ '' '' @
     (if allow_cmd mconf \<noteq> 0 then print_context_command E mconf ou al route else []) @ eol"

text \<open>Without a slot in the context table the element is left open.\<close>

definition print_contexts ::
  "page_env \<Rightarrow> mod_manager_config \<Rightarrow> storage \<Rightarrow> manager \<Rightarrow> int \<Rightarrow> int \<Rightarrow> string \<Rightarrow> string \<Rightarrow> string" where
  "print_contexts E mconf S M node host al route =
     (let cm = contextstatsmem M in
      (if reduce_display mconf \<noteq> 0 then [] else ''<h3>Contexts:</h3>'') @ ''<pre>'' @
      (if loc_get_max_size_context S M = 0 then []
       else walk (get_context (st_context S) cm)
              (\<lambda>i. let ou = slot cm i in
                 if c_node ou \<noteq> node \<or> c_vhost ou \<noteq> host then [] else context_line E mconf al route ou)
              (get_ids_used_context (st_context S) cm) @ ''</pre>''))"

definition print_alias :: "page_env \<Rightarrow> mod_manager_config \<Rightarrow> hostinfo \<Rightarrow> string" where
  "print_alias E mconf ou =
     take HOSTALIASZ (mc_escape_html E (h_host ou) HOSTALIASZ) @ (if reduce_display mconf \<noteq> 0 then '' '' else eol)"

text \<open>
  The loop of \<open>print_hosts\<close>. \<open>rows\<close> are the hosts in use, with \<open>None\<close> for one that cannot be read. The
  inner loop prints the later aliases of the same virtual host, notes them in \<open>idChecker\<close>, and moves
  the outer index over those that follow directly.
\<close>

definition host_at :: "hostinfo option list \<Rightarrow> int \<Rightarrow> int \<Rightarrow> nat \<Rightarrow> hostinfo option" where
  "host_at rows node vhost j =
     (case rows ! j of None \<Rightarrow> None | Some pv \<Rightarrow> if h_node pv \<noteq> node \<or> h_vhost pv \<noteq> vhost then None else Some pv)"

fun later_aliases ::
  "(hostinfo \<Rightarrow> string) \<Rightarrow> hostinfo option list \<Rightarrow> int \<Rightarrow> int \<Rightarrow> nat list \<Rightarrow> nat \<Rightarrow> bool list \<Rightarrow> nat \<times> bool list \<times> string" where
  "later_aliases line rows node vhost [] i idChecker = (i, idChecker, [])"
| "later_aliases line rows node vhost (j # js) i idChecker =
     (case host_at rows node vhost j of
        None \<Rightarrow> later_aliases line rows node vhost js i idChecker
      | Some pv \<Rightarrow>
          (case later_aliases line rows node vhost js (if Suc i = j then Suc i else i) (idChecker[j := True]) of
             (i', ck, s) \<Rightarrow> (i', ck, line pv @ s)))"

lemma later_aliases_le: "later_aliases line rows node vhost js i ck = (i', ck', s) \<Longrightarrow> i \<le> i'"
proof (induction js arbitrary: i ck i' ck' s)
  case (Cons j js)
  show ?case
  proof (cases "host_at rows node vhost j")
    case None
    then show ?thesis using Cons by simp
  next
    case (Some pv)
    obtain i1 ck1 s1 where 1: "later_aliases line rows node vhost js (if Suc i = j then Suc i else i) (ck[j := True]) = (i1, ck1, s1)"
      by (rule prod_cases3)
    show ?thesis using Cons.prems Cons.IH [OF 1] by (auto simp: Some 1 split: if_splits)
  qed
qed simp

function hosts_loop ::
  "(int \<Rightarrow> hostinfo \<Rightarrow> string) \<Rightarrow> (hostinfo \<Rightarrow> string) \<Rightarrow> hostinfo option list \<Rightarrow> int \<Rightarrow> nat \<Rightarrow> int \<Rightarrow> bool list \<Rightarrow> string" where
  "hosts_loop heading line rows node i vhost idChecker =
     (if i \<ge> length rows then []
      else case rows ! i of
             None \<Rightarrow> hosts_loop heading line rows node (Suc i) vhost idChecker
           | Some ou \<Rightarrow>
               if h_node ou \<noteq> node \<or> h_vhost ou = vhost \<or> idChecker ! i
               then hosts_loop heading line rows node (Suc i) vhost idChecker
               else (case later_aliases line rows node (h_vhost ou) [Suc i..<length rows] i idChecker of
                       (i', ck, s) \<Rightarrow>
                         heading vhost ou @ line ou @ s @ hosts_loop heading line rows node (Suc i') (h_vhost ou) ck))"
  by pat_completeness auto
termination
  by (relation "measure (\<lambda>(_, _, rows, _, i, _, _). length rows - i)") (auto dest!: later_aliases_le [OF sym])

declare hosts_loop.simps [simp del]

definition host_heading :: "page_env \<Rightarrow> mod_manager_config \<Rightarrow> storage \<Rightarrow> manager \<Rightarrow> string \<Rightarrow> int \<Rightarrow> hostinfo \<Rightarrow> string" where
  "host_heading E mconf S M route vhost ou =
     (let reduce = (reduce_display mconf \<noteq> 0) in
      (if vhost \<noteq> 0 \<and> \<not> reduce then ''</pre>'' else []) @
      (if reduce then [] else ''<h2> Virtual Host '' @ show_int (h_vhost ou) @ '':</h2>'') @
      print_contexts E mconf S M (h_node ou) (h_vhost ou) (h_host ou) route @
      (if reduce then ''Aliases: '' else ''<h3>Aliases:</h3><pre>''))"

definition host_rows :: "storage \<Rightarrow> manager \<Rightarrow> hostinfo option list" where
  "host_rows S M =
     map (\<lambda>i. if get_host (st_host S) (hoststatsmem M) i \<noteq> APR_SUCCESS then None else Some (slot (hoststatsmem M) i))
       (get_ids_used_host (st_host S) (hoststatsmem M))"

definition print_hosts :: "page_env \<Rightarrow> mod_manager_config \<Rightarrow> storage \<Rightarrow> manager \<Rightarrow> int \<Rightarrow> string \<Rightarrow> string" where
  "print_hosts E mconf S M node route =
     (if loc_get_max_size_host S M = 0 then []
      else let rows = host_rows S M in
        hosts_loop (host_heading E mconf S M route) (print_alias E mconf) rows node 0 0 (replicate (length rows) False) @
        (if rows \<noteq> [] \<and> reduce_display mconf = 0 then ''</pre>'' else []))"

section \<open>Sessions and domains\<close>

definition print_sessionid :: "httpd \<Rightarrow> storage \<Rightarrow> manager \<Rightarrow> string" where
  "print_sessionid H S M =
     (case sessionidstatsmem M of
        None \<Rightarrow> []
      | Some m \<Rightarrow>
          let ids = get_ids_used_sessionid (st_sessionid S) m in
          if loc_get_max_size_sessionid S M = 0 \<or> ids = [] then []
          else ''<h1>SessionIDs:</h1><pre>'' @
               walk (get_sessionid (st_sessionid S) m)
                 (\<lambda>i. ''id: '' @ take 128 (s_sessionid (slot m i)) @ '' route: '' @ take (JVMROUTESZ H) (s_JVMRoute (slot m i)) @ eol)
                 ids @ ''</pre>'')"

definition print_domain :: "page_env \<Rightarrow> httpd \<Rightarrow> mod_manager_config \<Rightarrow> storage \<Rightarrow> manager \<Rightarrow> string" where
  "print_domain E H mconf S M =
     (if \<not> pg_debug E then []
      else
        let m = domainstatsmem M in
        (if reduce_display mconf \<noteq> 0 then ''<br/>LBGroup:'' else ''<h1>LBGroup:</h1>'') @ ''<pre>'' @
        (if loc_get_max_size_domain S M = 0 then []
         else walk (get_domain (st_domain S) m)
                (\<lambda>i. ''dom: '' @ take DOMAINNDSZ (d_domain (slot m i)) @ '' route: '' @ take (JVMROUTESZ H) (d_JVMRoute (slot m i)) @
                   '' balancer: '' @ take BALANCERSZ (d_balancer (slot m i)) @ eol)
                (get_ids_used_domain (st_domain S) m) @ ''</pre>''))"

definition count_sessionid :: "storage \<Rightarrow> manager \<Rightarrow> string \<Rightarrow> nat" where
  "count_sessionid S M route =
     (case sessionidstatsmem M of
        None \<Rightarrow> 0
      | Some m \<Rightarrow>
          if loc_get_max_size_sessionid S M = 0 then 0
          else length (filter (\<lambda>i. get_sessionid (st_sessionid S) m i = APR_SUCCESS \<and> s_JVMRoute (slot m i) = route)
                 (get_ids_used_sessionid (st_sessionid S) m)))"

section \<open>Nodes\<close>

text \<open>Without a status block, the counters printed in the long form are indeterminate.\<close>

definition print_proxystat :: "page_env \<Rightarrow> mod_manager_config \<Rightarrow> (string \<times> worker_shared list) list \<Rightarrow> nodemess \<Rightarrow> string outcome" where
  "print_proxystat E mconf bals node =
     (let found = read_shared_by_node bals node;
          status = (case found of
                      None \<Rightarrow> ''NOTOK''
                    | Some s \<Rightarrow> if ws_status s AND pg_not_usable E \<noteq> 0 then ''NOTOK'' else ''OK'')
      in if reduce_display mconf \<noteq> 0 then Value ('' '' @ status @ '' '')
         else case found of
                None \<Rightarrow> Undefined
              | Some s \<Rightarrow>
                  Value ('',Status: '' @ status @ '',Elected: '' @ show_int32 (uint (ws_elected s)) @ '',Read: '' @ show_int32 (ws_read s) @
                    '',Transferred: '' @ show_int32 (ws_transferred s) @ '',Connected: '' @ show_int32 (uint (ws_busy s)) @
                    '',Load: '' @ show_int (ws_lbfactor s)))"

definition modules_info :: "page_env \<Rightarrow> string" where
  "modules_info E =
     (if pg_module E ''mod_proxy_cluster.c'' then ''mod_proxy_cluster.c: OK<br/>'' else ''mod_proxy_cluster.c: missing<br/>'') @
     (if pg_module E ''mod_sharedmem.c'' then ''mod_sharedmem.c: OK<br/>'' else ''mod_sharedmem.c: missing<br/>'') @
     ''Protocol supported: '' @
     (if pg_module E ''mod_proxy_http.c'' then ''http '' else []) @
     (if pg_module E ''mod_proxy_ajp.c'' then ''AJP '' else []) @
     (if pg_module E ''mod_ssl.c'' then ''https'' else []) @ ''<br/>'' @
     (if pg_module E ''mod_advertise.c'' then ''mod_advertise.c: OK<br/>'' else ''mod_advertise.c: not loaded<br/>'')"

text \<open>The domain last printed is a variable of \<open>print_node\<close>, so every node of a domain has the heading.\<close>

definition print_lbgroup :: "page_env \<Rightarrow> mod_manager_config \<Rightarrow> string \<Rightarrow> string" where
  "print_lbgroup E mconf lbgroup =
     (if lbgroup = [] then []
      else (if reduce_display mconf \<noteq> 0 then ''<br/><br/>LBGroup '' else ''<h1> LBGroup '') @ take DOMAINNDSZ lbgroup @ '': '' @
           (if allow_cmd mconf \<noteq> 0 then print_domain_command E mconf lbgroup else []) @
           (if reduce_display mconf \<noteq> 0 then [] else ''</h1>'' @ eol))"

definition print_node ::
  "page_env \<Rightarrow> httpd \<Rightarrow> mod_manager_config \<Rightarrow> storage \<Rightarrow> (string \<times> worker_shared list) list \<Rightarrow> manager \<Rightarrow> nodemess \<Rightarrow> string outcome" where
  "print_node E H mconf S bals M ou =
     (let route = take (JVMROUTESZ H) (JVMRoute ou);
          cmds = (if allow_cmd mconf \<noteq> 0 then print_node_command E mconf (JVMRoute ou) else []);
          sessions = (if loc_get_max_size_sessionid S M \<noteq> 0
                      then '',Num sessions: '' @ show_int (int (count_sessionid S M (JVMRoute ou))) else []) @ eol
      in bind_outcome (print_proxystat E mconf bals ou) (\<lambda>stat_text.
           Value (print_lbgroup E mconf (Domain ou) @
             (if reduce_display mconf \<noteq> 0
              then ''<br/><br/>Node '' @ route @ '' '' @ stat_text @ cmds @ ''<br/>'' @ eol
              else ''<h1> Node '' @ route @ '' ('' @ take SCHEMENDSZ (Type ou) @ ''://'' @ take HOSTNODESZ (Host ou) @ '':'' @
                   take PORTNODESZ (Port ou) @ ''): </h1>'' @ eol @ cmds @ ''<br/>'' @ eol @
                   ''Balancer: '' @ take BALANCERSZ (n_balancer ou) @ '',LBGroup: '' @ take DOMAINNDSZ (Domain ou) @
                   '',Flushpackets: '' @ flush_to_str H (flushpackets ou) @ '',Flushwait: '' @ show_int (flushwait ou) @
                   '',Ping: '' @ show_int32 (n_ping ou) @ '',Smax: '' @ show_int (n_smax ou) @ '',Ttl: '' @ show_int32 (n_ttl ou) @
                   stat_text) @ sessions)))"

text \<open>\<open>qsort\<close> by domain; nodes of one domain keep their order here, \<open>qsort\<close> leaves it open.\<close>

definition sort_nodes :: "nodemess list \<Rightarrow> nodemess list" where
  "sort_nodes nodes = sort_key (\<lambda>n. map of_char (Domain n) :: nat list) nodes"

fun print_sorted :: "(nodemess \<Rightarrow> string outcome) \<Rightarrow> (nodemess \<Rightarrow> string) \<Rightarrow> nodemess list \<Rightarrow> string outcome" where
  "print_sorted node hosts [] = Value []"
| "print_sorted node hosts (n # ns) =
     bind_outcome (node n) (\<lambda>s. bind_outcome (print_sorted node hosts ns) (\<lambda>t. Value (s @ hosts n @ t)))"

text \<open>The loop prints as many nodes as are in use, also when not all could be read.\<close>

definition print_nodes ::
  "page_env \<Rightarrow> httpd \<Rightarrow> mod_manager_config \<Rightarrow> storage \<Rightarrow> (string \<times> worker_shared list) list \<Rightarrow> manager \<Rightarrow> string outcome" where
  "print_nodes E H mconf S bals M =
     (let ids = get_ids_used_node (st_node S) (nodestatsmem M);
          readable = filter (\<lambda>i. get_node (st_node S) (nodestatsmem M) i = APR_SUCCESS) ids;
          nodes = map (\<lambda>i. mess (slot (nodestatsmem M) i)) readable
      in if length nodes < length ids then Undefined
         else print_sorted (print_node E H mconf S bals M) (\<lambda>n. print_hosts E mconf S M (n_id n) (JVMRoute n)) (sort_nodes nodes))"

section \<open>The page\<close>

definition print_fileheader :: "page_env \<Rightarrow> mod_manager_config \<Rightarrow> string option \<Rightarrow> string" where
  "print_fileheader E mconf err =
     pg_doctype E @ ''<html><head>'' @ eol @ ''<title>Mod_cluster Status</title>'' @ eol @ ''</head><body>'' @ eol @
     ''<h1>'' @ pg_version E @ ''</h1>'' @
     (case err of
        Some e \<Rightarrow> ''<h1> Command failed: '' @ e @ ''</h1>'' @ eol @ '' <a href='' @ quoted (pg_uri E) @ ''>Continue</a>'' @ eol @
                  ''</body></html>'' @ eol
      | None \<Rightarrow>
          (if allow_display mconf \<noteq> 0
           then ''start of '' @ quoted ''httpd.conf'' @ '' configuration<br/>'' @ modules_info E @
                (case pg_advertise E of None \<Rightarrow> [] | Some a \<Rightarrow> a) @
                ''end of '' @ quoted ''httpd.conf'' @ '' configuration<br/><br/>'' else []) @
          page_link E mconf ''refresh=10'' ''Auto Refresh'' @ '' '' @
          page_link E mconf ''Cmd=DUMP&Range=ALL'' ''show DUMP output'' @ '' '' @
          page_link E mconf ''Cmd=INFO&Range=ALL'' ''show INFO output'' @ eol)"

definition status_page ::
  "page_env \<Rightarrow> httpd \<Rightarrow> mod_manager_config \<Rightarrow> storage \<Rightarrow> (string \<times> worker_shared list) list \<Rightarrow> string option \<Rightarrow> manager
     \<Rightarrow> string outcome" where
  "status_page E H mconf S bals err M =
     (let header = print_fileheader E mconf err in
      if err \<noteq> None then Value header
      else if loc_get_max_size_node S M = 0 then Value header
      else bind_outcome (print_nodes E H mconf S bals M) (\<lambda>nodes.
             Value (header @ nodes @ (if loc_get_max_size_sessionid S M \<noteq> 0 then print_sessionid H S M else []) @
               print_domain E H mconf S M @ ''</body></html>'' @ eol)))"

section \<open>Virtual hosts are printed group by group\<close>

text \<open>The hosts of a node, grouped by virtual host in the order of their first alias.\<close>

function host_groups :: "hostinfo list \<Rightarrow> hostinfo list list" where
  "host_groups [] = []"
| "host_groups (h # hs) =
     (h # filter (\<lambda>x. h_vhost x = h_vhost h) hs) # host_groups (filter (\<lambda>x. h_vhost x \<noteq> h_vhost h) hs)"
  by pat_completeness auto
termination
  by (relation "measure length") (auto simp: le_imp_less_Suc)

fun print_groups :: "(int \<Rightarrow> hostinfo \<Rightarrow> string) \<Rightarrow> (hostinfo \<Rightarrow> string) \<Rightarrow> int \<Rightarrow> hostinfo list list \<Rightarrow> string" where
  "print_groups heading line v [] = []"
| "print_groups heading line v (g # gs) = heading v (hd g) @ concat (map line g) @ print_groups heading line (h_vhost (hd g)) gs"

text \<open>The rows from a place on that can be read and belong to the node.\<close>

definition pending :: "hostinfo option list \<Rightarrow> int \<Rightarrow> nat \<Rightarrow> hostinfo list" where
  "pending rows node i = filter (\<lambda>h. h_node h = node) (map the (filter (\<lambda>x. x \<noteq> None) (drop i rows)))"

lemma pending_end: "length rows \<le> i \<Longrightarrow> pending rows node i = []"
  by (simp add: pending_def)

lemma pending_step:
  assumes "i < length rows"
  shows "pending rows node i =
     (case rows ! i of Some h \<Rightarrow> if h_node h = node then [h] else [] | None \<Rightarrow> []) @ pending rows node (Suc i)"
  using assms by (auto simp: pending_def Cons_nth_drop_Suc [symmetric] split: option.split)

lemma host_at_Some: "host_at rows node v j = Some h \<longleftrightarrow> rows ! j = Some h \<and> h_node h = node \<and> h_vhost h = v"
  by (auto simp: host_at_def split: option.splits if_splits)

lemma pending_skip:
  "i \<le> k \<Longrightarrow> k \<le> length rows \<Longrightarrow> \<forall>j. i \<le> j \<and> j < k \<longrightarrow> host_at rows node v j \<noteq> None \<Longrightarrow> v \<in> seen \<Longrightarrow>
     filter (\<lambda>h. h_vhost h \<notin> seen) (pending rows node i) = filter (\<lambda>h. h_vhost h \<notin> seen) (pending rows node k)"
proof (induction "k - i" arbitrary: i)
  case (Suc d)
  then have i: "i < k" "i < length rows" by auto
  obtain h where "host_at rows node v i = Some h" using Suc.prems(3) i by fastforce
  then have "rows ! i = Some h" "h_node h = node" "h_vhost h \<in> seen" using Suc.prems(4) by (auto simp: host_at_Some)
  then show ?case using Suc.hyps(1) [of "Suc i"] Suc.hyps(2) Suc.prems i by (simp add: pending_step)
qed simp

text \<open>The inner loop, from place \<open>j\<close> on: what it prints, which places it notes, which ones it passes.\<close>

lemma later_aliases_spec:
  assumes "later_aliases line rows node v [j..<length rows] i ck = (i', ck', s)" and "i < j" and "length ck = length rows"
  shows "s = concat (map line (filter (\<lambda>h. h_vhost h = v) (pending rows node j))) \<and> length ck' = length rows \<and>
     (\<forall>k < length rows. ck' ! k \<longleftrightarrow> ck ! k \<or> j \<le> k \<and> host_at rows node v k \<noteq> None) \<and> i \<le> i' \<and>
     (i < i' \<longrightarrow> Suc i = j \<and> i' < length rows \<and> (\<forall>k. j \<le> k \<and> k \<le> i' \<longrightarrow> host_at rows node v k \<noteq> None))"
  using assms
proof (induction "length rows - j" arbitrary: j i ck i' ck' s)
  case 0
  then show ?case by (auto simp: pending_end)
next
  case (Suc d)
  then have j: "j < length rows" and split: "[j..<length rows] = j # [Suc j..<length rows]" by (auto simp: upt_conv_Cons)
  show ?case
  proof (cases "host_at rows node v j")
    case None
    then have 1: "later_aliases line rows node v [Suc j..<length rows] i ck = (i', ck', s)" using Suc.prems(1) by (simp add: split)
    have "filter (\<lambda>h. h_vhost h = v) (pending rows node j) = filter (\<lambda>h. h_vhost h = v) (pending rows node (Suc j))"
      using None j by (auto simp: pending_step host_at_def split: option.split if_splits)
    moreover have "(j \<le> k \<and> host_at rows node v k \<noteq> None) = (Suc j \<le> k \<and> host_at rows node v k \<noteq> None)" for k
      using None by (cases "k = j") auto
    moreover have "d = length rows - Suc j" "i < Suc j" using Suc.hyps(2) Suc.prems(2) by simp_all
    note IH = Suc.hyps(1) [OF this(1) 1 this(2) Suc.prems(3)]
    ultimately show ?thesis using IH Suc.prems(2) by simp
  next
    case (Some h)
    let ?i = "if Suc i = j then Suc i else i"
    obtain s1 where 1: "later_aliases line rows node v [Suc j..<length rows] ?i (ck[j := True]) = (i', ck', s1)" and s: "s = line h @ s1"
      using Suc.prems(1) by (auto simp: split Some split: prod.splits)
    have "pending rows node j = h # pending rows node (Suc j)" "h_vhost h = v"
      using Some j by (auto simp: host_at_Some pending_step)
    moreover have "d = length rows - Suc j" "?i < Suc j" "length (ck[j := True]) = length rows"
      using Suc.hyps(2) Suc.prems(2,3) by simp_all
    note IH = Suc.hyps(1) [OF this(1) 1 this(2,3)]
    moreover have "ck' ! k \<longleftrightarrow> ck ! k \<or> j \<le> k \<and> host_at rows node v k \<noteq> None" if "k < length rows" for k
      using IH that Some j Suc.prems(3) by (cases "k = j") auto
    moreover have "Suc i = j \<and> i' < length rows \<and> (\<forall>k. j \<le> k \<and> k \<le> i' \<longrightarrow> host_at rows node v k \<noteq> None)" if "i < i'"
    proof (cases "Suc i = j")
      case True
      then have le: "j \<le> i'" "j < i' \<longrightarrow> i' < length rows \<and> (\<forall>k. Suc j \<le> k \<and> k \<le> i' \<longrightarrow> host_at rows node v k \<noteq> None)"
        using IH by auto
      have "host_at rows node v k \<noteq> None" if "j \<le> k" "k \<le> i'" for k
        using le that Some by (cases "k = j") auto
      then show ?thesis using True le j by (cases "j = i'") auto
    next
      case False
      then show ?thesis using IH that Suc.prems(2) by simp
    qed
    ultimately show ?thesis using s by (auto split: if_splits)
  qed
qed

lemma hosts_loop_groups:
  assumes "length ck = length rows"
    and "\<And>k h. i \<le> k \<Longrightarrow> k < length rows \<Longrightarrow> rows ! k = Some h \<Longrightarrow> h_node h = node \<Longrightarrow>
      (ck ! k \<longleftrightarrow> h_vhost h \<in> seen) \<and> (h_vhost h = v \<longrightarrow> v \<in> seen)"
  shows "hosts_loop heading line rows node i v ck =
     print_groups heading line v (host_groups (filter (\<lambda>h. h_vhost h \<notin> seen) (pending rows node i)))"
  using assms
proof (induction "length rows - i" arbitrary: i v ck seen rule: less_induct)
  case less
  note loop = hosts_loop.simps [of heading line rows node i v ck]
  show ?case
  proof (cases "i < length rows")
    case False
    then show ?thesis by (simp add: loop pending_end)
  next
    case i: True
    have skip: ?thesis if "hosts_loop heading line rows node i v ck = hosts_loop heading line rows node (Suc i) v ck"
      and "filter (\<lambda>h. h_vhost h \<notin> seen) (pending rows node i) = filter (\<lambda>h. h_vhost h \<notin> seen) (pending rows node (Suc i))"
    proof -
      have "hosts_loop heading line rows node (Suc i) v ck =
          print_groups heading line v (host_groups (filter (\<lambda>h. h_vhost h \<notin> seen) (pending rows node (Suc i))))"
      proof (rule less.hyps)
        show "(ck ! k \<longleftrightarrow> h_vhost h \<in> seen) \<and> (h_vhost h = v \<longrightarrow> v \<in> seen)"
          if "Suc i \<le> k" "k < length rows" "rows ! k = Some h" "h_node h = node" for k h
          by (rule less.prems(2)) (use that in auto)
      qed (use i less.prems(1) in auto)
      then show ?thesis using that by simp
    qed
    consider (none) "rows ! i = None" | (other) h where "rows ! i = Some h" "h_node h \<noteq> node"
      | (seen) h where "rows ! i = Some h" "h_node h = node" "h_vhost h \<in> seen"
      | (new) h where "rows ! i = Some h" "h_node h = node" "h_vhost h \<notin> seen" by (cases "rows ! i") auto
    then show ?thesis
    proof cases
      case none
      then show ?thesis using i by (intro skip) (simp_all add: loop pending_step)
    next
      case other
      then show ?thesis using i by (intro skip) (simp_all add: loop pending_step)
    next
      case seen
      then show ?thesis using i less.prems(2) [of i h] by (intro skip) (simp_all add: loop pending_step)
    next
      case new
      obtain i' ck' s where la: "later_aliases line rows node (h_vhost h) [Suc i..<length rows] i ck = (i', ck', s)" by (rule prod_cases3)
      note spec = later_aliases_spec [OF la lessI less.prems(1)]
      let ?seen = "insert (h_vhost h) seen"
      have i': "i \<le> i'" "i' < length rows" "\<forall>j. Suc i \<le> j \<and> j < Suc i' \<longrightarrow> host_at rows node (h_vhost h) j \<noteq> None"
        using spec i by (cases "i = i'"; auto)+
      have "hosts_loop heading line rows node i v ck = heading v h @ line h @ s @ hosts_loop heading line rows node (Suc i') (h_vhost h) ck'"
      proof -
        have "\<not> ck ! i" "h_vhost h \<noteq> v" using i new less.prems(2) [of i h] by auto
        then show ?thesis using i new by (simp add: loop la)
      qed
      also have "hosts_loop heading line rows node (Suc i') (h_vhost h) ck' =
          print_groups heading line (h_vhost h) (host_groups (filter (\<lambda>h. h_vhost h \<notin> ?seen) (pending rows node (Suc i'))))"
      proof (rule less.hyps)
        fix k x
        assume k: "Suc i' \<le> k" "k < length rows" "rows ! k = Some x" "h_node x = node"
        then have "ck' ! k \<longleftrightarrow> ck ! k \<or> h_vhost x = h_vhost h" using spec i'(1) by (auto simp: host_at_def)
        moreover have "ck ! k \<longleftrightarrow> h_vhost x \<in> seen" using less.prems(2) [of k x] k i'(1) by simp
        ultimately show "(ck' ! k \<longleftrightarrow> h_vhost x \<in> ?seen) \<and> (h_vhost x = h_vhost h \<longrightarrow> h_vhost h \<in> ?seen)" by auto
      qed (use i i' spec in auto)
      also have "filter (\<lambda>h. h_vhost h \<notin> ?seen) (pending rows node (Suc i')) =
          filter (\<lambda>h. h_vhost h \<notin> ?seen) (pending rows node (Suc i))"
        using i' by (intro pending_skip [symmetric, where v = "h_vhost h"]) auto
      moreover have "filter (\<lambda>h. h_vhost h \<notin> seen) (pending rows node i) = h # filter (\<lambda>h. h_vhost h \<notin> seen) (pending rows node (Suc i))"
        using new i by (simp add: pending_step)
      moreover have same: "filter (\<lambda>x. h_vhost x = h_vhost h) (filter (\<lambda>h. h_vhost h \<notin> seen) xs) = filter (\<lambda>x. h_vhost x = h_vhost h) xs"
        and rest: "filter (\<lambda>x. h_vhost x \<noteq> h_vhost h) (filter (\<lambda>h. h_vhost h \<notin> seen) xs) = filter (\<lambda>x. h_vhost x \<notin> ?seen) xs" for xs
        using new by (induction xs) auto
      ultimately show ?thesis using conjunct1 [OF spec]
        by (simp only: host_groups.simps print_groups.simps list.sel list.map concat.simps append_assoc same rest)
    qed
  qed
qed

definition node_hosts :: "hostinfo slotmem \<Rightarrow> int \<Rightarrow> hostinfo list" where
  "node_hosts m node = filter (\<lambda>h. h_node h = node) (map (\<lambda>i. items m ! i) (used_slots m))"

lemma host_rows_used:
  assumes "manager_storage S" and "manager_ok M"
  shows "host_rows S M = map (\<lambda>i. Some (items (hoststatsmem M) ! i)) (used_slots (hoststatsmem M))"
proof -
  have t: "table_ok h_id host_key (hoststatsmem M)" using assms(2) by (simp add: manager_ok_def tables_ok_def)
  have "get_host (st_host S) (hoststatsmem M) (int i) = APR_SUCCESS" if "i \<in> set (used_slots (hoststatsmem M))" for i
    unfolding get_host_def
    by (rule slotmem_provider.dptr_used [OF manager_storage.axioms(2) [OF assms(1)]])
      (use t that in \<open>auto simp: table_ok_def wf_slotmem_def set_used_slots used_def in_range_def\<close>)
  then show ?thesis by (simp add: host_rows_def manager_storage.hosts_eq [OF assms(1) t] slot_def comp_def)
qed

text \<open>C40: The page shows the virtual hosts of a node one after the other, each under one heading with
  all of its aliases, in the order the table has them: the scan over the table that skips aliases already
  printed is the same as printing the groups of equal virtual host number, and the hosts of other nodes
  never appear.\<close>

theorem print_hosts_groups:
  assumes "manager_storage S" and "manager_ok M" and "loc_get_max_size_host S M \<noteq> 0"
    and "\<forall>h \<in> set (node_hosts (hoststatsmem M) node). h_vhost h \<noteq> 0"
  shows "print_hosts E mconf S M node route =
     print_groups (host_heading E mconf S M route) (print_alias E mconf) 0 (host_groups (node_hosts (hoststatsmem M) node)) @
     (if used_slots (hoststatsmem M) \<noteq> [] \<and> reduce_display mconf = 0 then ''</pre>'' else [])"
proof -
  let ?rows = "host_rows S M" and ?m = "hoststatsmem M"
  note rows = host_rows_used [OF assms(1,2)]
  have pend: "pending ?rows node 0 = node_hosts ?m node"
    by (simp add: rows pending_def node_hosts_def filter_map comp_def)
  have "hosts_loop (host_heading E mconf S M route) (print_alias E mconf) ?rows node 0 0 (replicate (length ?rows) False) =
      print_groups (host_heading E mconf S M route) (print_alias E mconf) 0
        (host_groups (filter (\<lambda>h. h_vhost h \<notin> {}) (pending ?rows node 0)))"
  proof (rule hosts_loop_groups)
    fix k h
    assume k: "k < length ?rows" "?rows ! k = Some h" "h_node h = node"
    then have "h \<in> set (node_hosts ?m node)" by (auto simp: rows node_hosts_def)
    then show "(replicate (length ?rows) False ! k \<longleftrightarrow> h_vhost h \<in> {}) \<and> (h_vhost h = 0 \<longrightarrow> 0 \<in> ({} :: int set))"
      using k assms(4) by auto
  qed simp
  then show ?thesis using assms(3) by (simp add: print_hosts_def Let_def pend) (simp add: rows)
qed

text \<open>A page with no escaping, and a table with two aliases of one virtual host.\<close>

definition plain_page :: page_env where
  "plain_page = \<lparr>pg_escape = (\<lambda>s. s), pg_uri = ''/mcm'', pg_nonce = ''n'', pg_version = ''v'', pg_doctype = [],
     pg_module = (\<lambda>_. True), pg_advertise = None, pg_not_usable = 0, pg_debug = False\<rparr>"

definition two_aliases :: manager where
  "two_aliases = small_manager1\<lparr>hoststatsmem :=
     \<lparr>items = [\<lparr>h_id = 0, h_host = ''h'', h_vhost = 1, h_node = 0, h_updatetime = 7\<rparr>,
              \<lparr>h_id = 1, h_host = ''g'', h_vhost = 1, h_node = 0, h_updatetime = 7\<rparr>], inuse = [True, True]\<rparr>\<rparr>"

lemma two_aliases_ok: "manager_ok two_aliases"
proof -
  have *: "(\<forall>i < Suc (Suc 0). P i) \<longleftrightarrow> P 0 \<and> P (Suc 0)" "(\<exists>i < Suc (Suc 0). P i) \<longleftrightarrow> P 0 \<or> P (Suc 0)" for P
    by (auto simp: less_Suc_eq)
  show ?thesis
    using small_manager1_ok
    by (simp add: manager_ok_def tables_ok_def refs_ok_def table_ok_def wf_slotmem_def ids_ok_def
        keys_ok_def hosts_ref_def contexts_ref_def two_aliases_def small_manager1_def * used_def in_range_def host_key_def)
qed

theorem print_hosts_groups_witness:
  "print_hosts plain_page (create_manager_config\<lparr>reduce_display := 1\<rparr>) shm_storage two_aliases 0 ''n1'' =
     host_heading plain_page (create_manager_config\<lparr>reduce_display := 1\<rparr>) shm_storage two_aliases ''n1'' 0
       \<lparr>h_id = 0, h_host = ''h'', h_vhost = 1, h_node = 0, h_updatetime = 7\<rparr> @ ''h g ''"
proof -
  have nh: "node_hosts (hoststatsmem two_aliases) 0 =
      [\<lparr>h_id = 0, h_host = ''h'', h_vhost = 1, h_node = 0, h_updatetime = 7\<rparr>,
       \<lparr>h_id = 1, h_host = ''g'', h_vhost = 1, h_node = 0, h_updatetime = 7\<rparr>]"
    by (simp add: node_hosts_def two_aliases_def used_slots_def)
  have "loc_get_max_size_host shm_storage two_aliases \<noteq> 0" by code_simp
  from print_hosts_groups [OF shm_mgr.manager_storage_axioms two_aliases_ok this, of 0 plain_page
      "create_manager_config\<lparr>reduce_display := 1\<rparr>" "''n1''"]
  show ?thesis by (simp add: nh print_alias_def mc_escape_html_def plain_page_def)
qed

end
