(* ===== verification/Proxy_Start.thy ===== *)
theory Proxy_Start
  imports Request_Flow
begin

text \<open>
  Configuration and start of \<open>mod_proxy_cluster\<close> and of \<open>mod_lbmethod_cluster\<close>: the directives, the
  checks of \<open>proxy_cluster_post_config\<close> and \<open>lbmethod_cluster_post_config\<close>, and the callback through
  which mod_watchdog runs the maintenance of a child process.
\<close>

section \<open>Directives of mod_proxy_cluster\<close>

definition proxy_cluster_defaults :: pconf where
  "proxy_cluster_defaults =
     \<lparr>creat_bal = CREAT_ROOT, pc_use_alias = False, deterministic_failover = False, use_nocanon = False,
      responsecode_when_no_context = HTTP_NOT_FOUND, lbstatus_recalc_time = apr_time_from_sec 5,
      wait_for_remove = apr_time_from_sec 10, enable_options = True, cache_share_for = apr_time_from_sec 0,
      hctemplate = [], mc_thread_pool_size = 16\<rparr>"

text \<open>A directive gives an error text or the new configuration.\<close>

type_synonym configured = "string + pconf"

definition cmd_proxy_cluster_creatbal :: "string \<Rightarrow> pconf \<Rightarrow> configured" where
  "cmd_proxy_cluster_creatbal arg C =
     (let val = atoi arg in
      if val < 0 \<or> val > 2 then Inl ''CreateBalancers must be one of: 0, 1 or 2'' else Inr (C\<lparr>creat_bal := val\<rparr>))"

definition cmd_proxy_cluster_use_alias :: "string \<Rightarrow> pconf \<Rightarrow> configured" where
  "cmd_proxy_cluster_use_alias arg C =
     (if strcasecmp0 arg ''Off'' \<or> strcasecmp0 arg ''0'' then Inr (C\<lparr>pc_use_alias := False\<rparr>)
      else if strcasecmp0 arg ''On'' \<or> strcasecmp0 arg ''1'' then Inr (C\<lparr>pc_use_alias := True\<rparr>)
      else Inl ''UseAlias must be either On or Off'')"

definition cmd_proxy_cluster_lbstatus_recalc_time :: "string \<Rightarrow> pconf \<Rightarrow> configured" where
  "cmd_proxy_cluster_lbstatus_recalc_time arg C =
     (let val = atoi arg in
      if val < 0 then Inl ''LBstatusRecalTime must be greater than 0''
      else Inr (C\<lparr>lbstatus_recalc_time := apr_time_from_sec val\<rparr>))"

definition cmd_proxy_cluster_wait_before_remove :: "string \<Rightarrow> pconf \<Rightarrow> configured" where
  "cmd_proxy_cluster_wait_before_remove arg C =
     (let val = atoi arg in
      if val < 10 then Inl ''WaitBeforeRemove must be greater than 10''
      else Inr (C\<lparr>wait_for_remove := apr_time_from_sec val\<rparr>))"

text \<open>\<open>getword\<close> is httpd's \<open>ap_getword_conf\<close>: the first word and what follows it.\<close>

definition cmd_proxy_cluster_enable_options :: "(string \<Rightarrow> string \<times> string) \<Rightarrow> string \<Rightarrow> pconf \<Rightarrow> configured" where
  "cmd_proxy_cluster_enable_options getword args C =
     (let val = fst (getword args) in
      if strcasecmp0 val ''Off'' \<or> strcasecmp0 val ''0'' then Inr (C\<lparr>enable_options := False\<rparr>)
      else if val = [] \<or> strcasecmp0 val ''On'' \<or> strcasecmp0 val ''1'' then Inr (C\<lparr>enable_options := True\<rparr>)
      else Inl ''EnableOptions must be either without value or On or Off'')"

definition cmd_proxy_cluster_deterministic_failover :: "bool \<Rightarrow> pconf \<Rightarrow> configured" where
  "cmd_proxy_cluster_deterministic_failover on C = Inr (C\<lparr>deterministic_failover := on\<rparr>)"

definition cmd_proxy_cluster_cache_shared_for :: "string \<Rightarrow> pconf \<Rightarrow> configured" where
  "cmd_proxy_cluster_cache_shared_for arg C =
     (let val = atoi arg in
      if val < 0 then Inl ''CacheShareFor must be greater than 0''
      else Inr (C\<lparr>cache_share_for := apr_time_from_sec val\<rparr>))"

text \<open>
  \<open>hc\<close> is mod_proxy_hcheck's check of a parameter, if that module is loaded. The template is checked
  entry by entry, the ones of earlier directives included.
\<close>

fun check_template :: "(string \<Rightarrow> string \<Rightarrow> string option) \<Rightarrow> (string \<times> string) list \<Rightarrow> string option" where
  "check_template hc [] = None"
| "check_template hc ((k, v) # params) =
     (case hc k v of Some err \<Rightarrow> Some (err @ '' key: '' @ k @ ''='' @ v) | None \<Rightarrow> check_template hc params)"

definition cmd_proxy_cluster_proxyhctemplate ::
  "(string \<Rightarrow> string \<times> string) \<Rightarrow> (string \<Rightarrow> string \<Rightarrow> string option) option \<Rightarrow> string \<Rightarrow> pconf \<Rightarrow> configured outcome" where
  "cmd_proxy_cluster_proxyhctemplate getword hc arg C =
     (case parse_proxyhctemplate_params getword arg (hctemplate C) of
        (params, res) \<Rightarrow>
          bind_outcome res (\<lambda>err. Value (
            case (err, hc) of
              (Some e, _) \<Rightarrow> Inl e
            | (None, None) \<Rightarrow> Inl ''Can't check ProxyHCTemplate parameter, is proxy_hcheck_module loaded?''
            | (None, Some check) \<Rightarrow>
                (case check_template check params of Some e \<Rightarrow> Inl e | None \<Rightarrow> Inr (C\<lparr>hctemplate := params\<rparr>)))))"

definition cmd_proxy_cluster_use_nocanon :: "bool \<Rightarrow> pconf \<Rightarrow> configured" where
  "cmd_proxy_cluster_use_nocanon on C = Inr (C\<lparr>use_nocanon := on\<rparr>)"

definition cmd_proxy_cluster_responsecode_when_no_context :: "string \<Rightarrow> pconf \<Rightarrow> configured" where
  "cmd_proxy_cluster_responsecode_when_no_context arg C =
     (let val = atoi arg in
      if val < 0 then Inl ''ResponseStatusCodeOnNoContext must be greater than 0''
      else Inr (C\<lparr>responsecode_when_no_context := val\<rparr>))"

definition cmd_mc_thread_count :: "string \<Rightarrow> pconf \<Rightarrow> configured" where
  "cmd_mc_thread_count arg C =
     (let size = atoi arg in
      if size < 0 then Inl ''Invalid value for ModProxyClusterThreadCount. Parameter has to be >= 0''
      else Inr (C\<lparr>mc_thread_pool_size := size\<rparr>))"

text \<open>The table of directives, and a configuration read directive by directive.\<close>

datatype proxy_cluster_cmd =
  CreateBalancers string | UseAlias string | LBstatusRecalTime string | WaitBeforeRemove string | EnableOptions string
  | DeterministicFailover bool | CacheShareFor string | ModProxyClusterHCTemplate string | UseNocanon bool
  | ResponseStatusCodeOnNoContext string | ModProxyClusterThreadCount string

fun proxy_cluster_cmds ::
  "(string \<Rightarrow> string \<times> string) \<Rightarrow> (string \<Rightarrow> string \<Rightarrow> string option) option \<Rightarrow> proxy_cluster_cmd \<Rightarrow> pconf \<Rightarrow> configured outcome" where
  "proxy_cluster_cmds gw hc (CreateBalancers a) C = Value (cmd_proxy_cluster_creatbal a C)"
| "proxy_cluster_cmds gw hc (UseAlias a) C = Value (cmd_proxy_cluster_use_alias a C)"
| "proxy_cluster_cmds gw hc (LBstatusRecalTime a) C = Value (cmd_proxy_cluster_lbstatus_recalc_time a C)"
| "proxy_cluster_cmds gw hc (WaitBeforeRemove a) C = Value (cmd_proxy_cluster_wait_before_remove a C)"
| "proxy_cluster_cmds gw hc (EnableOptions a) C = Value (cmd_proxy_cluster_enable_options gw a C)"
| "proxy_cluster_cmds gw hc (DeterministicFailover on) C = Value (cmd_proxy_cluster_deterministic_failover on C)"
| "proxy_cluster_cmds gw hc (CacheShareFor a) C = Value (cmd_proxy_cluster_cache_shared_for a C)"
| "proxy_cluster_cmds gw hc (ModProxyClusterHCTemplate a) C = cmd_proxy_cluster_proxyhctemplate gw hc a C"
| "proxy_cluster_cmds gw hc (UseNocanon on) C = Value (cmd_proxy_cluster_use_nocanon on C)"
| "proxy_cluster_cmds gw hc (ResponseStatusCodeOnNoContext a) C = Value (cmd_proxy_cluster_responsecode_when_no_context a C)"
| "proxy_cluster_cmds gw hc (ModProxyClusterThreadCount a) C = Value (cmd_mc_thread_count a C)"

fun configure ::
  "(string \<Rightarrow> string \<times> string) \<Rightarrow> (string \<Rightarrow> string \<Rightarrow> string option) option \<Rightarrow> proxy_cluster_cmd list \<Rightarrow> pconf \<Rightarrow> configured outcome" where
  "configure gw hc [] C = Value (Inr C)"
| "configure gw hc (d # ds) C =
     bind_outcome (proxy_cluster_cmds gw hc d C) (\<lambda>res. case res of Inl e \<Rightarrow> Value (Inl e) | Inr C' \<Rightarrow> configure gw hc ds C')"

section \<open>Directives of mod_lbmethod_cluster\<close>

definition cmd_nocanon :: "bool \<Rightarrow> bool \<Rightarrow> bool" where
  "cmd_nocanon on nocanon = on"

definition cmd_proxyhctemplate ::
  "(string \<Rightarrow> string \<times> string) \<Rightarrow> string \<Rightarrow> (string \<times> string) list \<Rightarrow> (string + (string \<times> string) list) outcome" where
  "cmd_proxyhctemplate getword arg template =
     (case parse_proxyhctemplate_params getword arg template of
        (params, res) \<Rightarrow> bind_outcome res (\<lambda>err. Value (case err of Some e \<Rightarrow> Inl e | None \<Rightarrow> Inr params)))"

section \<open>Start of mod_proxy_cluster\<close>

text \<open>
  What the post configuration hook finds: whether mod_proxy is loaded, whether its structures have
  the size known here, the version of httpd, whether a status block fits a node's slot, the modules
  loaded, the providers registered by mod_manager (by their number), httpd's retry function,
  whether the configuration is only being tested, and mod_watchdog.
\<close>

record proxy_start =
  ps_mod_proxy :: bool
  ps_sizes_match :: bool
  ps_version :: "nat \<times> nat \<times> nat"
  ps_score_fits :: bool
  ps_module :: "string \<Rightarrow> bool"
  ps_hc_param :: bool
  ps_provider :: "nat \<Rightarrow> bool"
  ps_retry :: bool
  ps_pre_config :: bool
  ps_watchdog :: bool
  ps_instance :: int
  ps_register :: "nat \<Rightarrow> int"

text \<open>
  The result: the status, and when the callback was registered, its interval and whether sessions
  are stored.
\<close>

abbreviation (input) NOT_OK :: int where "NOT_OK \<equiv> 1"

definition version_supported :: "nat \<times> nat \<times> nat \<Rightarrow> bool" where
  "version_supported v =
     (case v of (major, minor, patch) \<Rightarrow>
        \<not> (major < 2 \<or> major = 2 \<and> minor < 4 \<or> major = 2 \<and> minor = 4 \<and> patch < 53))"

definition has_static_workers :: "pbalancer list list \<Rightarrow> bool" where
  "has_static_workers svs \<longleftrightarrow> (\<exists>bals \<in> set svs. \<exists>b \<in> set bals. bal_workers b \<noteq> [])"

definition proxy_cluster_post_config ::
  "proxy_start \<Rightarrow> storage \<Rightarrow> pconf \<Rightarrow> pbalancer list list \<Rightarrow> manager \<Rightarrow> int \<times> (apr_time \<times> bool) option" where
  "proxy_cluster_post_config X S C svs M =
     (let interval = (if cache_share_for C \<noteq> 0 then cache_share_for C else apr_time_from_sec 1) in
      if \<not> ps_mod_proxy X then (NOT_OK, None)
      else if \<not> ps_sizes_match X \<and> \<not> version_supported (ps_version X) then (NOT_OK, None)
      else if \<not> ps_score_fits X then (HTTP_INTERNAL_SERVER_ERROR, None)
      else if ps_module X ''mod_proxy_balancer.c'' then (HTTP_INTERNAL_SERVER_ERROR, None)
      else if hctemplate C \<noteq> [] \<and> \<not> ps_module X ''mod_proxy_hcheck.c'' then (HTTP_INTERNAL_SERVER_ERROR, None)
      else if hctemplate C \<noteq> [] \<and> \<not> ps_hc_param X then (HTTP_INTERNAL_SERVER_ERROR, None)
      else if has_static_workers svs then (NOT_OK, None)
      else if \<not> list_all (ps_provider X) [0, 1, 2, 3, 4, 5] then (NOT_OK, None)
      else if \<not> ps_retry X then (NOT_OK, None)
      else if ps_pre_config X then (OK, None)
      else if \<not> ps_watchdog X then (NOT_OK, None)
      else if ps_instance X \<noteq> 0 then (NOT_OK, None)
      else if ps_register X 0 \<noteq> 0 then (NOT_OK, None)
      else (OK, Some (interval, loc_get_max_size_sessionid S M \<noteq> 0)))"

definition proxy_cluster_pre_config :: "pconf \<Rightarrow> pconf" where
  "proxy_cluster_pre_config C = C\<lparr>mc_thread_pool_size := 16\<rparr>"

text \<open>The callback is registered for each of the servers; \<open>n\<close> is their number.\<close>

definition lbmethod_cluster_post_config :: "proxy_start \<Rightarrow> nat \<Rightarrow> int" where
  "lbmethod_cluster_post_config X n =
     (if \<not> list_all (ps_provider X) [0, 1, 2, 3, 5] then NOT_OK
      else if ps_pre_config X then OK
      else if \<not> ps_watchdog X then NOT_OK
      else if ps_instance X \<noteq> 0 then NOT_OK
      else if list_all (\<lambda>i. ps_register X i = 0) [0..<n] then OK else NOT_OK)"

section \<open>The watchdog callback of a child process\<close>

datatype watchdog_state = AP_WATCHDOG_STATE_STARTING | AP_WATCHDOG_STATE_RUNNING | AP_WATCHDOG_STATE_STOPPING

text \<open>
  \<open>pool\<close> tells whether the thread pool exists; \<open>create\<close> and \<open>destroy\<close> are the results of the calls
  for it, \<open>takes\<close> whether it takes a task. The callback is registered with the main server.
\<close>

definition mc_watchdog_callback ::
  "proxy_env \<Rightarrow> pconf \<Rightarrow> apr_status \<Rightarrow> apr_status \<Rightarrow> bool \<Rightarrow> bool \<Rightarrow> apr_time \<Rightarrow> watchdog_state \<Rightarrow> bool \<times> child \<times> manager
     \<Rightarrow> apr_status \<times> bool \<times> child \<times> manager" where
  "mc_watchdog_callback E C creation destruction takes stopping now state st =
     (case st of (pool, Q, M) \<Rightarrow>
        case state of
          AP_WATCHDOG_STATE_STARTING \<Rightarrow>
            if mc_thread_pool_size C \<noteq> 0 \<and> \<not> pool then (creation, creation = APR_SUCCESS, Q, M)
            else (APR_SUCCESS, False, Q, M)
        | AP_WATCHDOG_STATE_RUNNING \<Rightarrow>
            (case proxy_cluster_watchdog_func E C \<lparr>child_stopping = stopping, pool_takes = pool \<and> takes\<rparr> now Q M of
               (Q', M') \<Rightarrow> (APR_SUCCESS, pool, Q', M'))
        | AP_WATCHDOG_STATE_STOPPING \<Rightarrow>
            if pool then (destruction, False, Q, M) else (APR_SUCCESS, False, Q, M))"

section \<open>What a configuration guarantees\<close>

definition conf_ok :: "pconf \<Rightarrow> bool" where
  "conf_ok C \<longleftrightarrow> creat_bal C \<in> {CREAT_ALL, CREAT_NONE, CREAT_ROOT} \<and> 0 \<le> lbstatus_recalc_time C \<and>
     10000000 \<le> wait_for_remove C \<and> 0 \<le> cache_share_for C \<and> 0 \<le> responsecode_when_no_context C \<and> 0 \<le> mc_thread_pool_size C"

lemma proxy_cluster_cmds_ok:
  assumes "conf_ok C" and "proxy_cluster_cmds gw hc d C = Value (Inr C')"
  shows "conf_ok C'"
  using assms
  by (cases d) (auto simp: conf_ok_def Let_def apr_time_from_sec_def bind_outcome_Value
    cmd_proxy_cluster_creatbal_def cmd_proxy_cluster_use_alias_def cmd_proxy_cluster_lbstatus_recalc_time_def
    cmd_proxy_cluster_wait_before_remove_def cmd_proxy_cluster_enable_options_def cmd_proxy_cluster_deterministic_failover_def
    cmd_proxy_cluster_cache_shared_for_def cmd_proxy_cluster_proxyhctemplate_def cmd_proxy_cluster_use_nocanon_def
    cmd_proxy_cluster_responsecode_when_no_context_def cmd_mc_thread_count_def
    split: if_splits option.splits prod.splits)

lemma configure_ok: "conf_ok C \<Longrightarrow> configure gw hc ds C = Value (Inr C') \<Longrightarrow> conf_ok C'"
proof (induction ds arbitrary: C)
  case (Cons d ds)
  obtain res where 1: "proxy_cluster_cmds gw hc d C = Value res" using Cons.prems(2) by (auto simp: bind_outcome_Value)
  show ?case using Cons 1 by (cases res) (auto dest: proxy_cluster_cmds_ok)
qed simp

text \<open>C39: a server that starts has a well-formed configuration. Whatever directives were accepted, the kind of
  balancer creation is one of the three known ones, no time and no count is negative, and a removed
  node is kept for at least ten seconds; and a start that registered the watchdog found every table
  provider, no statically configured worker, and runs the watchdog at intervals of more than zero.\<close>

theorem proxy_cluster_start_ok:
  assumes "configure gw hc ds (proxy_cluster_pre_config proxy_cluster_defaults) = Value (Inr C)"
    and "proxy_cluster_post_config X S C svs M = (OK, Some (interval, sessions))"
  shows "conf_ok C \<and> interval > 0 \<and> \<not> has_static_workers svs \<and> list_all (ps_provider X) [0, 1, 2, 3, 4, 5] \<and>
     (hctemplate C = [] \<or> ps_module X ''mod_proxy_hcheck.c'') \<and> (sessions \<longleftrightarrow> loc_get_max_size_sessionid S M \<noteq> 0)"
proof -
  have "conf_ok (proxy_cluster_pre_config proxy_cluster_defaults)"
    by (simp add: conf_ok_def proxy_cluster_pre_config_def proxy_cluster_defaults_def apr_time_from_sec_def)
  from configure_ok [OF this assms(1)] have ok: "conf_ok C" .
  then show ?thesis
    using assms(2) by (auto simp: proxy_cluster_post_config_def Let_def conf_ok_def apr_time_from_sec_def split: if_splits)
qed

section \<open>Examples\<close>

definition small_start :: proxy_start where
  "small_start = \<lparr>ps_mod_proxy = True, ps_sizes_match = True, ps_version = (2, 4, 58), ps_score_fits = True,
     ps_module = (\<lambda>_. False), ps_hc_param = False, ps_provider = (\<lambda>_. True), ps_retry = True, ps_pre_config = False,
     ps_watchdog = True, ps_instance = 0, ps_register = (\<lambda>_. 0)\<rparr>"

theorem proxy_cluster_start_ok_witness:
  "\<exists>C s. configure (\<lambda>s. (s, [])) None [CreateBalancers ''0'', WaitBeforeRemove ''30'', CacheShareFor ''2'']
        (proxy_cluster_pre_config proxy_cluster_defaults) = Value (Inr C) \<and>
     proxy_cluster_post_config small_start shm_storage C [[]] small_manager = (OK, Some (2000000, s)) \<and> conf_ok C"
proof -
  let ?C = "proxy_cluster_defaults\<lparr>creat_bal := 0, wait_for_remove := 30000000, cache_share_for := 2000000\<rparr>"
  have 1: "configure (\<lambda>s. (s, [])) None [CreateBalancers ''0'', WaitBeforeRemove ''30'', CacheShareFor ''2'']
      (proxy_cluster_pre_config proxy_cluster_defaults) = Value (Inr ?C)"
    by code_simp
  have 2: "proxy_cluster_post_config small_start shm_storage ?C [[]] small_manager =
      (OK, Some (2000000, loc_get_max_size_sessionid shm_storage small_manager \<noteq> 0))"
    by (simp add: proxy_cluster_post_config_def small_start_def has_static_workers_def proxy_cluster_defaults_def)
  show ?thesis using proxy_cluster_start_ok [OF 1 2] 1 2 by blast
qed

end
