(* ===== verification/Advertise.thy ===== *)
theory Advertise
  imports Config_Command
begin

text \<open>
  Multicast advertisements, \<open>advertise/mod_advertise.c\<close>: the directives, joining the group, the
  datagram, the thread of the parent process that sends it, the start of the module and its
  cleanups. The sockets, the MD5 routine, dates and status lines are httpd and APR code and come
  in as parameters. What was sent is recorded in the state. Scope ids of addresses are left out,
  as nothing reads them.
\<close>

section \<open>Configuration\<close>

datatype ma_advertise_e = ma_advertise_off | ma_advertise_on

record mod_advertise_config =
  ma_server :: "nat option"
  ma_advertise_adrs :: "string option"
  ma_advertise_srvm :: "string option"
  ma_advertise_srvh :: "string option"
  ma_advertise_srvs :: "string option"
  ma_advertise_skey :: "string option"
  ma_bind_set :: bool
  ma_bind_adrs :: "string option"
  ma_bind_port :: int
  ma_advertise_port :: int
  ma_advertise_srvp :: int
  ma_advertise_mode :: ma_advertise_e
  ma_advertise_freq :: apr_time

abbreviation (input) MA_BSIZE :: nat where "MA_BSIZE \<equiv> 4096"
abbreviation (input) MA_DEFAULT_ADVPORT :: int where "MA_DEFAULT_ADVPORT \<equiv> 23364"
abbreviation (input) MA_DEFAULT_GROUP :: string where "MA_DEFAULT_GROUP \<equiv> ''224.0.1.105''"
abbreviation (input) MA_TM_RESOLUTION :: apr_time where "MA_TM_RESOLUTION \<equiv> 100000"
abbreviation (input) MA_DEFAULT_ADV_FREQ :: apr_time where "MA_DEFAULT_ADV_FREQ \<equiv> 10000000"

definition create_advertise_server_config :: mod_advertise_config where
  "create_advertise_server_config =
     \<lparr>ma_server = None, ma_advertise_adrs = Some MA_DEFAULT_GROUP, ma_advertise_srvm = None, ma_advertise_srvh = None,
      ma_advertise_srvs = None, ma_advertise_skey = None, ma_bind_set = False, ma_bind_adrs = None,
      ma_bind_port = MA_DEFAULT_ADVPORT, ma_advertise_port = MA_DEFAULT_ADVPORT, ma_advertise_srvp = 0,
      ma_advertise_mode = ma_advertise_on, ma_advertise_freq = MA_DEFAULT_ADV_FREQ\<rparr>"

section \<open>Directives\<close>

text \<open>
  \<open>parse\<close> is \<open>apr_parse_addr_port\<close>: the status, the address and the port (0 if there is none). A
  directive in the server with number \<open>srv\<close> gives an error text or the configuration.
\<close>

type_synonym addr_parser = "string \<Rightarrow> apr_status \<times> string option \<times> int"

definition cmd_advertise_m ::
  "addr_parser \<Rightarrow> nat \<Rightarrow> string \<Rightarrow> string option \<Rightarrow> mod_advertise_config \<Rightarrow> string + mod_advertise_config" where
  "cmd_advertise_m parse srv arg opt c =
     (if ma_advertise_srvs c \<noteq> None then Inl ''Duplicate ServerAdvertise directives are not allowed''
      else if \<not> strcasecmp0 arg ''Off'' \<and> \<not> strcasecmp0 arg ''On'' then Inl ''ServerAdvertise must be Off or On''
      else
        let c1 = c\<lparr>ma_advertise_mode := (if strcasecmp0 arg ''Off'' then ma_advertise_off else ma_advertise_on)\<rparr> in
        case opt of
          None \<Rightarrow> Inr (c1\<lparr>ma_server := Some srv\<rparr>)
        | Some o1 \<Rightarrow>
            let (c2, o2) = (case strstr o1 ''://'' of
                              None \<Rightarrow> (c1, o1)
                            | Some k \<Rightarrow> (c1\<lparr>ma_advertise_srvm := Some (take k o1)\<rparr>, drop (k + 3) o1))
            in (case parse o2 of
                  (rv, addr, port) \<Rightarrow>
                    if rv \<noteq> APR_SUCCESS \<or> addr = None \<or> port = 0 then Inl ''Invalid ServerAdvertise Address''
                    else Inr (c2\<lparr>ma_advertise_srvs := addr, ma_advertise_srvp := port, ma_server := Some srv\<rparr>)))"

definition cmd_advertise_g ::
  "addr_parser \<Rightarrow> nat \<Rightarrow> string \<Rightarrow> mod_advertise_config \<Rightarrow> string + mod_advertise_config" where
  "cmd_advertise_g parse srv arg c =
     (if ma_advertise_port c \<noteq> MA_DEFAULT_ADVPORT \<and> ma_advertise_adrs c \<noteq> Some MA_DEFAULT_GROUP
      then Inl ''Duplicate AdvertiseGroup directives are not allowed''
      else case parse arg of
             (rv, addr, port) \<Rightarrow>
               if rv \<noteq> APR_SUCCESS then Inl ''Invalid AdvertiseGroup address''
               else if addr = None then Inl ''Missing Ip part from AdvertiseGroup address''
               else Inr (c\<lparr>ma_advertise_adrs := addr,
                           ma_advertise_port := (if port = 0 then MA_DEFAULT_ADVPORT else port), ma_server := Some srv\<rparr>))"

definition cmd_bindaddr ::
  "addr_parser \<Rightarrow> nat \<Rightarrow> string \<Rightarrow> mod_advertise_config \<Rightarrow> string + mod_advertise_config" where
  "cmd_bindaddr parse srv arg c =
     (if ma_bind_set c then Inl ''Duplicate AdvertiseBindAddress directives are not allowed''
      else case parse arg of
             (rv, addr, port) \<Rightarrow>
               if rv \<noteq> APR_SUCCESS then Inl ''Invalid AdvertiseBindAddress address''
               else if addr = None then Inl ''Missing Ip part from AdvertiseBindAddress address''
               else Inr (c\<lparr>ma_bind_adrs := addr, ma_bind_port := (if port = 0 then MA_DEFAULT_ADVPORT else port),
                           ma_bind_set := True, ma_server := Some srv\<rparr>))"

definition cmd_advertise_f :: "nat \<Rightarrow> string \<Rightarrow> mod_advertise_config \<Rightarrow> string + mod_advertise_config" where
  "cmd_advertise_f srv arg c =
     (if ma_advertise_freq c \<noteq> MA_DEFAULT_ADV_FREQ then Inl ''Duplicate AdvertiseFrequency directives are not allowed''
      else
        let u = (case strchr CHR ''.'' arg of
                   Some (_, p) \<Rightarrow> atoi p
                 | None \<Rightarrow> (case strchr CHR '','' arg of Some (_, p) \<Rightarrow> atoi p | None \<Rightarrow> 0));
            freq = atoi arg * 1000000 + u * 1000
        in if freq = 0 then Inl ''Invalid AdvertiseFrequency value''
           else Inr (c\<lparr>ma_advertise_freq := freq, ma_server := Some srv\<rparr>))"

definition cmd_advertise_k :: "nat \<Rightarrow> string \<Rightarrow> mod_advertise_config \<Rightarrow> string + mod_advertise_config" where
  "cmd_advertise_k srv arg c =
     (if ma_advertise_skey c \<noteq> None then Inl ''Duplicate AdvertiseSecurityKey directives are not allowed''
      else Inr (c\<lparr>ma_advertise_skey := Some arg, ma_server := Some srv\<rparr>))"

definition cmd_advertise_h :: "nat \<Rightarrow> string \<Rightarrow> mod_advertise_config \<Rightarrow> string + mod_advertise_config" where
  "cmd_advertise_h srv arg c =
     (if ma_advertise_srvh c \<noteq> None then Inl ''Duplicate AdvertiseManagerUrl directives are not allowed''
      else Inr (c\<lparr>ma_advertise_srvh := Some arg, ma_server := Some srv\<rparr>))"

section \<open>The group\<close>

text \<open>
  The socket of the group: none, open, or closed by \<open>ma_group_join\<close> with the pointer left behind.
  The results of the APR calls are given.
\<close>

datatype group_socket = NoSocket | OpenSocket | ClosedSocket

record group_calls =
  gc_group_sa :: apr_status
  gc_listen_sa :: apr_status
  gc_niface_sa :: apr_status
  gc_create :: apr_status
  gc_reuseaddr :: apr_status
  gc_bind :: apr_status
  gc_join :: apr_status
  gc_loopback :: apr_status
  gc_hops :: apr_status

definition ma_group_join :: "group_calls \<Rightarrow> group_socket \<Rightarrow> apr_status \<times> group_socket" where
  "ma_group_join G sock =
     (if gc_group_sa G \<noteq> APR_SUCCESS then (gc_group_sa G, sock)
      else if gc_listen_sa G \<noteq> APR_SUCCESS then (gc_listen_sa G, sock)
      else if gc_niface_sa G \<noteq> APR_SUCCESS then (gc_niface_sa G, sock)
      else if gc_create G \<noteq> APR_SUCCESS then (gc_create G, sock)
      else if gc_reuseaddr G \<noteq> APR_SUCCESS then (gc_reuseaddr G, OpenSocket)
      else if gc_bind G \<noteq> APR_SUCCESS then (gc_bind G, OpenSocket)
      else if gc_join G \<noteq> APR_SUCCESS \<and> gc_loopback G \<noteq> APR_SUCCESS then (gc_loopback G, ClosedSocket)
      else if gc_hops G \<noteq> APR_SUCCESS then (gc_hops G, ClosedSocket)
      else (APR_SUCCESS, OpenSocket))"

text \<open>Leaving through a pointer to a closed socket is undefined.\<close>

definition ma_group_leave :: "group_socket \<Rightarrow> group_socket outcome" where
  "ma_group_leave sock = (case sock of NoSocket \<Rightarrow> Value NoSocket | OpenSocket \<Rightarrow> Value NoSocket | ClosedSocket \<Rightarrow> Undefined)"

section \<open>The datagram\<close>

text \<open>
  The module's variables, those of the parent process that the thread shares with the cleanups:
  the flags, the status, the sequence number, salt and id of the server, the socket, and the
  datagrams sent so far.
\<close>

record advertiser =
  ma_advertise_run :: bool
  ma_advertise_stat :: int
  ma_sequence :: "64 word"
  is_mp_running :: bool
  is_mp_created :: bool
  ssalt :: "nat list"
  srvid :: string
  ma_mgroup_socket :: group_socket
  sent :: "string list"

record adv_env =
  ae_date :: "apr_time \<Rightarrow> string"
  ae_status_line :: "int \<Rightarrow> string"
  ae_md5 :: "nat list \<Rightarrow> nat list"

definition crlf :: string where
  "crlf = [CHR 0x0D, CHR 0x0A]"

definition hex_byte :: "nat \<Rightarrow> string" where
  "hex_byte b = [''0123456789abcdef'' ! (b div 16), ''0123456789abcdef'' ! (b mod 16)]"

text \<open>\<open>apr_snprintf(p, l, ...)\<close>: at most \<open>l - 1\<close> characters, and the result is their number.\<close>

definition apr_snprintf :: "nat \<Rightarrow> string \<Rightarrow> string" where
  "apr_snprintf l s = take (l - 1) s"

definition next_sequence :: "64 word \<Rightarrow> 64 word" where
  "next_sequence n = (if sint (n + 1) < 1 then 1 else n + 1)"

text \<open>The digest of salt, date, sequence number and server id.\<close>

definition advertise_digest :: "adv_env \<Rightarrow> nat list \<Rightarrow> string \<Rightarrow> string \<Rightarrow> string \<Rightarrow> string" where
  "advertise_digest E salt dat seq sid =
     concat (map hex_byte (ae_md5 E (salt @ map of_char dat @ map of_char seq @ map of_char sid)))"

definition status_part :: "adv_env \<Rightarrow> apr_time \<Rightarrow> advertiser \<Rightarrow> string" where
  "status_part E now A =
     (let dat = ae_date E now; seq = show_int (sint (ma_sequence A)); sid = tl (srvid A) in
      ''HTTP/1.0 '' @ ae_status_line E (ma_advertise_stat A) @ crlf @
      ''Date: '' @ dat @ crlf @
      ''Sequence: '' @ seq @ crlf @
      ''Digest: '' @ advertise_digest E (ssalt A) dat seq sid @ crlf @
      ''Server: '' @ sid @ crlf)"

definition or_null :: "string option \<Rightarrow> string" where
  "or_null s = (case s of None \<Rightarrow> ''(null)'' | Some t \<Rightarrow> t)"

text \<open>The manager's address; one with a colon is put into brackets, in a buffer of 40 bytes.\<close>

definition manager_part :: "mod_advertise_config \<Rightarrow> string \<Rightarrow> string outcome" where
  "manager_part c hostname =
     (case ma_advertise_srvs c of
        None \<Rightarrow> Undefined
      | Some srvs \<Rightarrow>
          let address = (if CHR '':'' \<in> set srvs then apr_snprintf 40 (''['' @ srvs @ '']'') else srvs)
          in Value (''X-Manager-Address: '' @ address @ '':'' @ show_int (ma_advertise_srvp c) @ crlf @
                    ''X-Manager-Url: '' @ or_null (ma_advertise_srvh c) @ crlf @
                    ''X-Manager-Protocol: '' @ or_null (ma_advertise_srvm c) @ crlf @
                    ''X-Manager-Host: '' @ hostname @ crlf))"

text \<open>
  \<open>ma_advertise_server\<close>, where \<open>full\<close> is the type \<open>MA_ADVERTISE_SERVER\<close>. The buffer has \<open>MA_BSIZE\<close>
  bytes, of which the two calls of \<open>apr_snprintf\<close> use at most all but eight.
\<close>

definition ma_advertise_server ::
  "adv_env \<Rightarrow> apr_time \<Rightarrow> mod_advertise_config \<Rightarrow> string \<Rightarrow> bool \<Rightarrow> advertiser \<Rightarrow> advertiser outcome" where
  "ma_advertise_server E now c hostname full A =
     (let A1 = A\<lparr>ma_sequence := next_sequence (ma_sequence A)\<rparr>;
          l = MA_BSIZE - 8;
          first = apr_snprintf l (status_part E now A1)
      in bind_outcome (if full then manager_part c hostname else Value []) (\<lambda>m.
           let second = (if full then apr_snprintf (l - length first) m else [])
           in Value (A1\<lparr>sent := sent A1 @ [first @ second @ crlf]\<rparr>)))"

section \<open>The thread of the parent process\<close>

record adv_thread =
  current_status :: int
  f_time :: bool
  a_step :: apr_time

text \<open>The body of the loop when the thread is to go on after its sleep.\<close>

definition parent_tick ::
  "adv_env \<Rightarrow> apr_time \<Rightarrow> mod_advertise_config \<Rightarrow> string \<Rightarrow> adv_thread \<times> advertiser \<Rightarrow> (adv_thread \<times> advertiser) outcome" where
  "parent_tick E now c hostname st =
     (case st of (T, A) \<Rightarrow>
        if \<not> ma_advertise_run A then Value (T, A)
        else
          let T1 = T\<lparr>a_step := a_step T + MA_TM_RESOLUTION\<rparr>;
              T2 = (if current_status T1 \<noteq> ma_advertise_stat A
                    then T1\<lparr>current_status := ma_advertise_stat A, f_time := True\<rparr> else T1)
          in if a_step T2 \<ge> ma_advertise_freq c \<or> f_time T2
             then bind_outcome (ma_advertise_server E now c hostname True A)
                    (\<lambda>A1. Value (T2\<lparr>a_step := 0, f_time := False\<rparr>, A1))
             else Value (T2, A))"

text \<open>
  The thread, for as many sleeps as the list is long: what the rest of the process did during
  each sleep, and the time after it. The result tells whether the thread has ended.
\<close>

fun parent_loop ::
  "adv_env \<Rightarrow> mod_advertise_config \<Rightarrow> string \<Rightarrow> ((advertiser \<Rightarrow> advertiser) \<times> apr_time) list \<Rightarrow> adv_thread \<times> advertiser
     \<Rightarrow> (bool \<times> adv_thread \<times> advertiser) outcome" where
  "parent_loop E c hostname [] (T, A) =
     (if is_mp_running A then Value (False, T, A) else Value (True, T, A\<lparr>is_mp_created := False\<rparr>))"
| "parent_loop E c hostname ((others, now) # sleeps) (T, A) =
     (if \<not> is_mp_running A then Value (True, T, A\<lparr>is_mp_created := False\<rparr>)
      else let A1 = others A in
        if \<not> is_mp_running A1 then Value (True, T, A1\<lparr>is_mp_created := False\<rparr>)
        else bind_outcome (parent_tick E now c hostname (T, A1)) (\<lambda>st. parent_loop E c hostname sleeps st))"

text \<open>\<open>current_status\<close> is static: a new thread finds the value the one before left.\<close>

definition parent_thread ::
  "adv_env \<Rightarrow> mod_advertise_config \<Rightarrow> string \<Rightarrow> ((advertiser \<Rightarrow> advertiser) \<times> apr_time) list \<Rightarrow> int \<Rightarrow> advertiser
     \<Rightarrow> (bool \<times> adv_thread \<times> advertiser) outcome" where
  "parent_thread E c hostname sleeps status A =
     parent_loop E c hostname sleeps
       (\<lparr>current_status = status, f_time = True, a_step = 0\<rparr>, A\<lparr>is_mp_created := True\<rparr>)"

section \<open>Cleanups\<close>

abbreviation (input) HTTP_FORBIDDEN :: int where "HTTP_FORBIDDEN \<equiv> 403"
abbreviation (input) HTTP_GONE :: int where "HTTP_GONE \<equiv> 410"

text \<open>The wait for the thread: \<open>others\<close> is what it does during each sleep.\<close>

fun await_thread :: "(advertiser \<Rightarrow> advertiser) list \<Rightarrow> advertiser \<Rightarrow> advertiser option" where
  "await_thread [] A = (if is_mp_created A then None else Some A)"
| "await_thread (others # more_sleeps) A = (if is_mp_created A then await_thread more_sleeps (others A) else Some A)"

definition announce ::
  "adv_env \<Rightarrow> apr_time \<Rightarrow> mod_advertise_config \<Rightarrow> string \<Rightarrow> int \<Rightarrow> bool \<Rightarrow> advertiser \<Rightarrow> advertiser outcome" where
  "announce E now c hostname status run A =
     (if run then ma_advertise_server E now c hostname False (A\<lparr>ma_advertise_stat := status\<rparr>) else Value A)"

definition stop_thread ::
  "adv_env \<Rightarrow> apr_time \<Rightarrow> mod_advertise_config \<Rightarrow> string \<Rightarrow> (advertiser \<Rightarrow> advertiser) list \<Rightarrow> advertiser
     \<Rightarrow> advertiser option outcome" where
  "stop_thread E now c hostname sleeps A =
     bind_outcome (announce E now c hostname HTTP_FORBIDDEN (ma_advertise_run A)
         (A\<lparr>is_mp_running := False, ma_advertise_run := False\<rparr>))
       (\<lambda>A1. Value (await_thread sleeps A1))"

text \<open>\<open>None\<close>: the thread did not end within the given sleeps.\<close>

definition pconfig_cleanup ::
  "adv_env \<Rightarrow> apr_time \<Rightarrow> mod_advertise_config \<Rightarrow> string \<Rightarrow> (advertiser \<Rightarrow> advertiser) list \<Rightarrow> advertiser
     \<Rightarrow> advertiser option outcome" where
  "pconfig_cleanup E now c hostname sleeps A =
     bind_outcome (stop_thread E now c hostname sleeps A) (\<lambda>res.
       case res of
         None \<Rightarrow> Value None
       | Some A1 \<Rightarrow> bind_outcome (announce E now c hostname HTTP_FORBIDDEN (ma_advertise_run A) A1) (\<lambda>A2. Value (Some A2)))"

definition process_cleanup ::
  "adv_env \<Rightarrow> apr_time \<Rightarrow> mod_advertise_config \<Rightarrow> string \<Rightarrow> (advertiser \<Rightarrow> advertiser) list \<Rightarrow> advertiser
     \<Rightarrow> advertiser option outcome" where
  "process_cleanup E now c hostname sleeps A =
     bind_outcome (stop_thread E now c hostname sleeps A) (\<lambda>res.
       case res of
         None \<Rightarrow> Value None
       | Some A1 \<Rightarrow>
           if ma_advertise_run A then
             bind_outcome (announce E now c hostname HTTP_GONE True A1) (\<lambda>A2.
               bind_outcome (ma_group_leave (ma_mgroup_socket A2)) (\<lambda>s. Value (Some (A2\<lparr>ma_mgroup_socket := s\<rparr>))))
           else Value (Some A1))"

section \<open>Start\<close>

text \<open>
  A server: its first address has a name, a port and, if it could be resolved, the socket address
  in the form \<open>ip:port\<close>, its port, and whether a further one follows.
\<close>

record adv_addr =
  aa_virthost :: string
  aa_host_port :: int
  aa_host_addr :: "(string \<times> int \<times> bool) option"

record adv_server =
  as_conf :: mod_advertise_config
  as_hostname :: string
  as_scheme :: "string option"
  as_port :: int
  as_is_virtual :: bool
  as_addrs :: "adv_addr option"

record start_calls =
  sc_parse :: addr_parser
  sc_group :: group_calls
  sc_uuid :: string
  sc_thread_create :: apr_status

text \<open>The result of the hook: \<open>OK\<close>, \<open>!OK\<close>, or the status an APR call returned.\<close>

datatype hook_result = HookOK | HookRefused | HookStatus apr_status

text \<open>The address \<open>ServerAdvertise\<close> would have given; the server's own address and port are looked up.\<close>

definition own_address :: "adv_server \<Rightarrow> string outcome" where
  "own_address s =
     (let text = (case as_addrs s of
                    None \<Rightarrow> None
                  | Some a \<Rightarrow> (case aa_host_addr a of Some (t, p, False) \<Rightarrow> Some t | _ \<Rightarrow> None));
          by_name = (\<lambda>port. Value (as_hostname s @ '':'' @ show_int port))
      in if text = None \<or> strncmp0 (the text) ''0.0.0.0'' 7 \<or> strncmp0 (the text) ''::'' 2 then
           if as_port s = 0 \<or> as_port s = 1 then
             (case Option.bind (as_addrs s) aa_host_addr of
                None \<Rightarrow> Undefined
              | Some (t, p, m) \<Rightarrow> by_name (if p \<noteq> 0 then p else 80))
           else by_name (as_port s)
         else Value (the text))"

definition advertising_servers :: "adv_server list \<Rightarrow> nat list" where
  "advertising_servers servers = filter (\<lambda>i. ma_server (as_conf (servers ! i)) = Some i) [0..<length servers]"

text \<open>Salt, id of the server, and joining the group.\<close>

definition start_group ::
  "adv_env \<Rightarrow> start_calls \<Rightarrow> mod_advertise_config \<Rightarrow> advertiser \<Rightarrow> mod_advertise_config \<times> advertiser" where
  "start_group E X c A =
     (let A1 = A\<lparr>ssalt := (case ma_advertise_skey c of Some k \<Rightarrow> ae_md5 E (map of_char k) | None \<Rightarrow> replicate 16 0),
                 srvid := ''/'' @ sc_uuid X\<rparr>;
          c1 = (if ma_advertise_srvh c = None then c\<lparr>ma_advertise_srvh := Some (srvid A1)\<rparr> else c)
      in if ma_advertise_mode c1 \<noteq> ma_advertise_off \<and> ma_advertise_adrs c1 \<noteq> None then
           (case ma_group_join (sc_group X) (ma_mgroup_socket A1) of
              (rv, sock) \<Rightarrow>
                if rv \<noteq> APR_SUCCESS then (c1, A1\<lparr>ma_mgroup_socket := sock, ma_advertise_run := False\<rparr>)
                else (c1, A1\<lparr>ma_mgroup_socket := sock, ma_advertise_run := True, ma_advertise_stat := 200\<rparr>))
         else (c1, A1))"

text \<open>The defaults for the protocol and the address; \<open>server\<close> is the one with the directives, if any.\<close>

definition start_address ::
  "start_calls \<Rightarrow> adv_server option \<Rightarrow> mod_advertise_config \<Rightarrow> (hook_result + mod_advertise_config) outcome" where
  "start_address X server c =
     (let c1 = (if ma_advertise_srvm c \<noteq> None then c
                else c\<lparr>ma_advertise_srvm := (case Option.bind server as_scheme of Some m \<Rightarrow> Some m | None \<Rightarrow> Some ''http'')\<rparr>)
      in case (ma_advertise_srvs c1, server) of
           (None, Some s) \<Rightarrow>
             bind_outcome (own_address s) (\<lambda>text.
               case sc_parse X text of
                 (rv, addr, port) \<Rightarrow>
                   if rv \<noteq> APR_SUCCESS \<or> addr = None \<or> port = 0 then Value (Inl (HookStatus rv))
                   else Value (Inr (c1\<lparr>ma_advertise_srvs := addr, ma_advertise_srvp := port\<rparr>)))
         | _ \<Rightarrow> Value (Inr c1))"

definition start_thread ::
  "start_calls \<Rightarrow> mod_advertise_config \<Rightarrow> advertiser \<Rightarrow> hook_result \<times> mod_advertise_config option \<times> advertiser" where
  "start_thread X c A =
     (if ma_advertise_srvs c = None \<or> ma_advertise_srvp c = 0 then (HookOK, None, A)
      else
        let A1 = A\<lparr>is_mp_running := True\<rparr> in
        if sc_thread_create X \<noteq> APR_SUCCESS then (HookStatus (sc_thread_create X), None, A1)
        else (HookOK, Some c, A1))"

text \<open>
  \<open>post_config_hook\<close> on a server that is not Windows. \<open>again\<close>: the process has been through its first
  configuration phase. The result has the configuration of the server the thread works for, if it
  was started.
\<close>

definition post_config_hook ::
  "adv_env \<Rightarrow> start_calls \<Rightarrow> bool \<Rightarrow> adv_server list \<Rightarrow> advertiser
     \<Rightarrow> (hook_result \<times> mod_advertise_config option \<times> advertiser) outcome" where
  "post_config_hook E X again servers A =
     (case advertising_servers servers of
        i # j # more_servers \<Rightarrow> Value (HookRefused, None, A)
      | found \<Rightarrow>
          if \<not> again then Value (HookOK, None, A)
          else
            let server = (case found of [] \<Rightarrow> None | i # _ \<Rightarrow> Some (servers ! i));
                c = as_conf (case server of Some s \<Rightarrow> s | None \<Rightarrow> last servers)
            in (case start_group E X c A of
                  (c1, A1) \<Rightarrow>
                    bind_outcome (start_address X server c1) (\<lambda>res.
                      case res of
                        Inl r \<Rightarrow> Value (r, None, A1)
                      | Inr c2 \<Rightarrow> Value (start_thread X c2 A1))))"

section \<open>The status page\<close>

definition advertise_info_server :: "adv_server \<Rightarrow> string" where
  "advertise_info_server s =
     (let c = as_conf s in
      ''Server: '' @ as_hostname s @ '' '' @
      (case as_addrs s of
         Some a \<Rightarrow> if as_is_virtual s then ''VirtualHost: '' @ aa_virthost a @ '':'' @ show_int (aa_host_port a) else []
       | None \<Rightarrow> []) @
      (if ma_server c \<noteq> None
       then '' Advertising on Group '' @ or_null (ma_advertise_adrs c) @ '' Port '' @ show_int (ma_advertise_port c) @ '' '' @
            ''for '' @ or_null (ma_advertise_srvm c) @ ''://'' @ or_null (ma_advertise_srvs c) @ '':'' @
            show_int (ma_advertise_srvp c) @ '' every '' @ show_int (apr_time_sec (ma_advertise_freq c)) @ '' seconds<br/>''
       else ''<br/>''))"

definition advertise_info :: "adv_server list \<Rightarrow> string" where
  "advertise_info servers = concat (map advertise_info_server servers)"

section \<open>What is sent\<close>

lemma next_sequence_positive: "1 \<le> sint (next_sequence n)"
  by (simp add: next_sequence_def)

lemma advertise_cases:
  assumes "ma_advertise_server E now c hostname full A = Value A'"
  obtains m where "(if full then manager_part c hostname else Value []) = Value m"
    and "A' = A\<lparr>ma_sequence := next_sequence (ma_sequence A),
      sent := sent A @ [apr_snprintf 4088 (status_part E now A') @
        (if full then apr_snprintf (4088 - length (apr_snprintf 4088 (status_part E now A'))) m else []) @ crlf]\<rparr>"
proof -
  have p: "status_part E now (B\<lparr>sent := x\<rparr>) = status_part E now B" for B x by (simp add: status_part_def)
  show thesis
    using assms by (auto simp: ma_advertise_server_def Let_def bind_outcome_Value p intro!: that)
qed

text \<open>C37: a datagram fits its buffer of 4096 bytes, the terminating NUL included, whatever the lengths of
  names and addresses. Its sequence number is positive, and when the headers have less than 4088
  characters it is complete: the status part, for a full advertisement the manager part, and the
  empty line.\<close>

theorem advertisement_fits:
  assumes "ma_advertise_server E now c hostname full A = Value A'"
  shows "\<exists>d m. sent A' = sent A @ [d] \<and> length d < MA_BSIZE \<and> 1 \<le> sint (ma_sequence A') \<and>
     (if full then manager_part c hostname else Value []) = Value m \<and>
     (length (status_part E now A') + length m < MA_BSIZE - 8 \<longrightarrow> d = status_part E now A' @ m @ crlf)"
proof -
  obtain m where m: "(if full then manager_part c hostname else Value []) = Value m"
    and A': "A' = A\<lparr>ma_sequence := next_sequence (ma_sequence A),
      sent := sent A @ [apr_snprintf 4088 (status_part E now A') @
        (if full then apr_snprintf (4088 - length (apr_snprintf 4088 (status_part E now A'))) m else []) @ crlf]\<rparr>"
    using assms by (rule advertise_cases)
  let ?first = "apr_snprintf 4088 (status_part E now A')"
  let ?d = "?first @ (if full then apr_snprintf (4088 - length ?first) m else []) @ crlf"
  have "length ?first \<le> 4087" by (simp add: apr_snprintf_def)
  then have "length ?d < MA_BSIZE" by (auto simp: apr_snprintf_def crlf_def min_def)
  moreover have "?d = status_part E now A' @ m @ crlf" if "length (status_part E now A') + length m < MA_BSIZE - 8"
    using that m by (auto simp: apr_snprintf_def split: if_splits)
  moreover have "sent A' = sent A @ [?d]" "ma_sequence A' = next_sequence (ma_sequence A)" by (subst A', simp)+
  ultimately show ?thesis using m next_sequence_positive by metis
qed

section \<open>When it is sent\<close>

text \<open>The number of sleeps between two advertisements: the frequency in tenths of a second, rounded up.\<close>

definition advertise_period :: "mod_advertise_config \<Rightarrow> nat" where
  "advertise_period c = nat ((ma_advertise_freq c + MA_TM_RESOLUTION - 1) div MA_TM_RESOLUTION)"

lemma period_reached:
  assumes "0 < ma_advertise_freq c" and "r < advertise_period c"
  shows "ma_advertise_freq c \<le> 100000 * int r + 100000 \<longleftrightarrow> Suc r = advertise_period c"
proof -
  define q where "q = (ma_advertise_freq c + 99999) div 100000"
  have q: "100000 * q \<le> ma_advertise_freq c + 99999" "ma_advertise_freq c + 99999 < 100000 * q + 100000"
    unfolding q_def by linarith+
  have "advertise_period c = nat q" by (simp add: advertise_period_def q_def)
  then show ?thesis using assms q by auto
qed

text \<open>The state of a thread that has sent its last advertisement \<open>r\<close> sleeps ago.\<close>

definition ticking :: "mod_advertise_config \<Rightarrow> nat \<Rightarrow> adv_thread \<times> advertiser \<Rightarrow> bool" where
  "ticking c r st \<longleftrightarrow> (case st of (T, A) \<Rightarrow>
     a_step T = 100000 * int r \<and> \<not> f_time T \<and> current_status T = ma_advertise_stat A \<and>
     ma_advertise_run A \<and> is_mp_running A)"

lemma advertise_sends:
  assumes "ma_advertise_srvs c \<noteq> None"
  obtains A' d where "ma_advertise_server E now c hostname True A = Value A'" and "sent A' = sent A @ [d]"
    and "ma_advertise_stat A' = ma_advertise_stat A" and "ma_advertise_run A' = ma_advertise_run A"
    and "is_mp_running A' = is_mp_running A"
  using assms by (auto simp: ma_advertise_server_def Let_def manager_part_def)

lemma tick_step:
  assumes "ma_advertise_srvs c \<noteq> None" and "0 < ma_advertise_freq c" and "r < advertise_period c" and "ticking c r (T, A)"
  shows "\<exists>T' A'. parent_tick E now c hostname (T, A) = Value (T', A') \<and> ticking c (Suc r mod advertise_period c) (T', A') \<and>
     length (sent A') = length (sent A) + Suc r div advertise_period c"
proof (cases "Suc r = advertise_period c")
  case True
  obtain A' d where "ma_advertise_server E now c hostname True A = Value A'" "sent A' = sent A @ [d]"
    "ma_advertise_stat A' = ma_advertise_stat A" "ma_advertise_run A' = ma_advertise_run A" "is_mp_running A' = is_mp_running A"
    using assms(1) by (rule advertise_sends)
  then show ?thesis using True assms period_reached [OF assms(2,3)] by (simp add: parent_tick_def ticking_def Let_def)
next
  case False
  then show ?thesis using assms period_reached [OF assms(2,3)] by (auto simp: parent_tick_def ticking_def Let_def)
qed

lemma tick_steps:
  assumes "ma_advertise_srvs c \<noteq> None" and "0 < ma_advertise_freq c"
  shows "r < advertise_period c \<Longrightarrow> ticking c r (T, A) \<Longrightarrow>
     \<exists>T' A'. parent_loop E c hostname (map (Pair id) clocks) (T, A) = Value (False, T', A') \<and>
       length (sent A') = length (sent A) + (r + length clocks) div advertise_period c"
proof (induction clocks arbitrary: r T A)
  case Nil
  then show ?case by (auto simp: ticking_def)
next
  case (Cons t clocks)
  let ?p = "advertise_period c"
  obtain T1 A1 where 1: "parent_tick E t c hostname (T, A) = Value (T1, A1)" "ticking c (Suc r mod ?p) (T1, A1)"
    "length (sent A1) = length (sent A) + Suc r div ?p"
    using tick_step [OF assms Cons.prems] by blast
  have "Suc r mod ?p < ?p" using Cons.prems(1) by simp
  from Cons.IH [OF this 1(2)] obtain T' A' where
    2: "parent_loop E c hostname (map (Pair id) clocks) (T1, A1) = Value (False, T', A')"
    "length (sent A') = length (sent A1) + (Suc r mod ?p + length clocks) div ?p" by blast
  have "Suc r div ?p + (Suc r mod ?p + length clocks) div ?p = (r + length (t # clocks)) div ?p"
    using div_plus_div_distrib_dvd_left [of ?p "Suc r div ?p * ?p" "Suc r mod ?p + length clocks"] by (simp add: add.assoc [symmetric])
  then have "length (sent A') = length (sent A) + (r + length (t # clocks)) div ?p" using 1(3) 2(2) by linarith
  then show ?case using 1(1,2) 2(1) Cons.prems(2) by (simp add: ticking_def id_def)
qed

text \<open>C36: while nothing else happens, the thread sends its first advertisement after the first sleep
  and then one every period, the configured frequency rounded up to a tenth of a second: after
  \<open>n > 0\<close> sleeps exactly \<open>1 + (n - 1) div period\<close> datagrams are out.\<close>

theorem advertise_schedule:
  assumes "ma_advertise_run A" and "is_mp_running A" and "ma_advertise_srvs c \<noteq> None" and "0 < ma_advertise_freq c"
  shows "\<exists>T A'. parent_thread E c hostname (map (Pair id) clocks) status A = Value (False, T, A') \<and>
     length (sent A') = length (sent A) + (if clocks = [] then 0 else 1 + (length clocks - 1) div advertise_period c)"
proof (cases clocks)
  case Nil
  then show ?thesis using assms by (simp add: parent_thread_def)
next
  case (Cons t rest)
  let ?A = "A\<lparr>is_mp_created := True\<rparr>"
  obtain A1 d where 1: "ma_advertise_server E t c hostname True ?A = Value A1" "sent A1 = sent ?A @ [d]"
    "ma_advertise_stat A1 = ma_advertise_stat ?A" "ma_advertise_run A1 = ma_advertise_run ?A" "is_mp_running A1 = is_mp_running ?A"
    using assms(3) by (rule advertise_sends)
  let ?T = "\<lparr>current_status = status, f_time = True, a_step = 0\<rparr>"
  let ?T1 = "\<lparr>current_status = ma_advertise_stat A, f_time = False, a_step = 0\<rparr>"
  have 2: "parent_tick E t c hostname (?T, ?A) = Value (?T1, A1)" "ticking c 0 (?T1, A1)"
    using 1 assms(1,2) by (auto simp: parent_tick_def Let_def ticking_def)
  have "0 < advertise_period c" using assms(4) by (simp add: advertise_period_def)
  from tick_steps [OF assms(3,4) this 2(2), of E hostname rest] show ?thesis
    using 1 2 assms(2) by (auto simp: parent_thread_def Cons)
qed

section \<open>Start and stop\<close>

text \<open>Advertising goes with an open socket.\<close>

definition group_ok :: "advertiser \<Rightarrow> bool" where
  "group_ok A \<longleftrightarrow> (ma_advertise_run A \<longrightarrow> ma_mgroup_socket A = OpenSocket)"

lemma ma_group_join_open: "ma_group_join G sock = (APR_SUCCESS, sock') \<Longrightarrow> sock' = OpenSocket"
  by (auto simp: ma_group_join_def split: if_splits)

lemma start_group_ok: "group_ok A \<Longrightarrow> start_group E X c A = (c', A') \<Longrightarrow> group_ok A'"
  by (auto simp: start_group_def group_ok_def Let_def split: if_splits prod.splits dest: ma_group_join_open)

lemma advertise_group_ok:
  "group_ok A \<Longrightarrow> ma_advertise_server E now c hostname full A = Value A' \<Longrightarrow> group_ok A'"
  by (auto simp: ma_advertise_server_def Let_def group_ok_def bind_outcome_Value)

lemma post_config_hook_group_ok:
  assumes "group_ok A" and "post_config_hook E X again servers A = Value (r, started, A')"
  shows "group_ok A'"
proof -
  have t: "group_ok A2" if "group_ok A1" "start_thread X c A1 = (r, started, A2)" for A1 A2 c r started
    using that by (auto simp: start_thread_def group_ok_def Let_def split: if_splits)
  have g: "group_ok A'"
    if p: "(case start_group E X c A of (c1, A1) \<Rightarrow> bind_outcome (start_address X server c1) (\<lambda>res.
          case res of Inl r \<Rightarrow> Value (r, None, A1) | Inr c2 \<Rightarrow> Value (start_thread X c2 A1))) = Value (r, started, A')" for c server
  proof -
    obtain c1 A1 where 1: "start_group E X c A = (c1, A1)" by fastforce
    obtain res where 2: "start_address X server c1 = Value res" using p by (auto simp: 1 bind_outcome_Value)
    have "group_ok A1" using start_group_ok [OF assms(1) 1] .
    then show ?thesis using p t by (cases res) (auto simp: 1 2)
  qed
  show ?thesis
    using assms(2) assms(1) g unfolding post_config_hook_def Let_def by (auto split: list.splits if_splits)
qed

text \<open>What the thread does when it wakes up, having noted \<open>T\<close>.\<close>

definition thread_wakes :: "adv_env \<Rightarrow> mod_advertise_config \<Rightarrow> string \<Rightarrow> apr_time \<Rightarrow> adv_thread \<Rightarrow> advertiser \<Rightarrow> advertiser" where
  "thread_wakes E c hostname now T A =
     (case parent_loop E c hostname [(id, now)] (T, A) of Value (ended, T', A') \<Rightarrow> A' | _ \<Rightarrow> A)"

lemma stop_thread_ends:
  shows "\<exists>A'. stop_thread E now c hostname (thread_wakes E' c' hostname' now' T # sleeps) A = Value (Some A') \<and>
     \<not> is_mp_created A' \<and> \<not> is_mp_running A' \<and> \<not> ma_advertise_run A' \<and> ma_mgroup_socket A' = ma_mgroup_socket A \<and>
     (if ma_advertise_run A then length (sent A') = length (sent A) + 1 else sent A' = sent A)"
proof -
  have w: "thread_wakes E' c' hostname' now' T B = B\<lparr>is_mp_created := False\<rparr>" if "\<not> is_mp_running B" for B
    using that by (simp add: thread_wakes_def)
  have a: "await_thread (thread_wakes E' c' hostname' now' T # sleeps) B =
      Some (if is_mp_created B then B\<lparr>is_mp_created := False\<rparr> else B)" if "\<not> is_mp_running B" for B
    using w [OF that] by (cases sleeps) auto
  show ?thesis by (simp add: stop_thread_def announce_def ma_advertise_server_def Let_def a del: await_thread.simps)
qed


section \<open>Examples\<close>

definition small_adv_env :: adv_env where
  "small_adv_env = \<lparr>ae_date = (\<lambda>_. ''Mon''), ae_status_line = (\<lambda>_. ''200 OK''), ae_md5 = (\<lambda>_. replicate 16 171)\<rparr>"

definition small_adv_conf :: mod_advertise_config where
  "small_adv_conf = create_advertise_server_config\<lparr>ma_server := Some 0, ma_advertise_srvs := Some ''10.0.0.1'',
     ma_advertise_srvp := 80, ma_advertise_freq := 250000\<rparr>"

definition small_advertiser :: advertiser where
  "small_advertiser = \<lparr>ma_advertise_run = True, ma_advertise_stat = 200, ma_sequence = 0, is_mp_running = True, is_mp_created = True,
     ssalt = replicate 16 0, srvid = ''/id'', ma_mgroup_socket = OpenSocket, sent = []\<rparr>"

theorem advertisement_fits_witness:
  "\<exists>A' d. ma_advertise_server small_adv_env 0 small_adv_conf ''h'' True small_advertiser = Value A' \<and>
     sent A' = [d] \<and> length d < 4096"
proof -
  have "ma_advertise_srvs small_adv_conf \<noteq> None" by (simp add: small_adv_conf_def)
  then obtain A' where 1: "ma_advertise_server small_adv_env 0 small_adv_conf ''h'' True small_advertiser = Value A'"
    by (rule advertise_sends)
  have "sent small_advertiser = []" by (simp add: small_advertiser_def)
  with advertisement_fits [OF 1] 1 show ?thesis by auto
qed

theorem advertise_schedule_witness:
  "\<exists>T A'. parent_thread small_adv_env small_adv_conf ''h'' (map (Pair id) [1, 2, 3, 4, 5, 6, 7]) 0 small_advertiser = Value (False, T, A') \<and>
     length (sent A') = 3"
proof -
  have p: "advertise_period small_adv_conf = 3" "sent small_advertiser = []"
    by (simp_all add: small_advertiser_def small_adv_conf_def advertise_period_def)
  have "ma_advertise_run small_advertiser" "is_mp_running small_advertiser" "ma_advertise_srvs small_adv_conf \<noteq> None"
    "0 < ma_advertise_freq small_adv_conf" by (simp_all add: small_advertiser_def small_adv_conf_def)
  then obtain T A' where "parent_thread small_adv_env small_adv_conf ''h'' (map (Pair id) [1, 2, 3, 4, 5, 6, 7]) 0 small_advertiser = Value (False, T, A')"
    and "length (sent A') = length (sent small_advertiser) + (if [1 :: apr_time, 2, 3, 4, 5, 6, 7] = [] then 0
      else 1 + (length [1 :: apr_time, 2, 3, 4, 5, 6, 7] - 1) div advertise_period small_adv_conf)"
    using advertise_schedule by blast
  moreover from this(2) have "length (sent A') = 3" unfolding p by simp
  ultimately show ?thesis by blast
qed


end
